theory Spec2Isabelle
  imports Complex_Main "HOL-Library.Monad_Syntax"
begin

section \<open>Scalars\<close>

text \<open>
  \<^verbatim>\<open>TacsScalar\<close> and \<^verbatim>\<open>double\<close> are embedded as the real numbers: the
  arithmetic of the model is exact. Arrays that the source addresses through a pointer
  are lists read with \<open>!\<close> when they are inputs.

  The curvature kernel and the last line of the KS aggregate are embedded with checked
  operations: an operation that has no real result in C (a division by zero, the
  square root of a negative number, the logarithm of a non-positive number; an
  infinity or a NaN in IEEE arithmetic) yields \<open>None\<close>, and \<open>None\<close> propagates to the
  result. Rounding, overflow and underflow of the double arithmetic are not part of
  the embedding.
\<close>

definition fdiv :: "real \<Rightarrow> real \<Rightarrow> real option" where
  "fdiv a b = (if b = 0 then None else Some (a / b))"

definition fsqrt :: "real \<Rightarrow> real option" where
  "fsqrt a = (if a < 0 then None else Some (sqrt a))"

definition flog :: "real \<Rightarrow> real option" where
  "flog a = (if a \<le> 0 then None else Some (ln a))"

section \<open>TMRCurvatureConstraint::evalCurvature\<close>

text \<open>
  The first block of \<^verbatim>\<open>evalCurvature(val, g, H)\<close>: the squared norm of the gradient,
  the cofactor entries \<^verbatim>\<open>Hf\<close>, the two inner products and the guarded Gaussian and mean
  curvatures \<^verbatim>\<open>KG\<close> and \<^verbatim>\<open>KM\<close>. \<^verbatim>\<open>H\<close> holds the six entries of the symmetric
  Hessian in the order 00, 01, 02, 11, 12, 22.
\<close>

definition curvature_KG_KM :: "real list \<Rightarrow> real list \<Rightarrow> (real \<times> real) option" where
  "curvature_KG_KM g H =
    (let gn = g!0 * g!0 + g!1 * g!1 + g!2 * g!2 in
     do {
       sqrtgn \<leftarrow> fsqrt gn;
       let Hf0 = H!3 * H!5 - H!4 * H!4;
       let Hf1 = H!4 * H!2 - H!1 * H!5;
       let Hf2 = H!1 * H!4 - H!3 * H!2;
       let Hf3 = H!0 * H!5 - H!2 * H!2;
       let Hf4 = H!1 * H!2 - H!0 * H!4;
       let Hf5 = H!0 * H!3 - H!1 * H!1;
       let Hfact = g!0 * (Hf0 * g!0 + Hf1 * g!1 + Hf2 * g!2) +
                       g!1 * (Hf1 * g!0 + Hf3 * g!1 + Hf4 * g!2) +
                       g!2 * (Hf2 * g!0 + Hf4 * g!1 + Hf5 * g!2);
       let Hprod = g!0 * (H!0 * g!0 + H!1 * g!1 + H!2 * g!2) +
                       g!1 * (H!1 * g!0 + H!3 * g!1 + H!4 * g!2) +
                       g!2 * (H!2 * g!0 + H!4 * g!1 + H!5 * g!2);
       KG \<leftarrow> (if gn \<noteq> 0 then fdiv Hfact (gn * gn) else Some 0);
       KM \<leftarrow> (if gn \<noteq> 0
               then fdiv (0.5 * (Hprod - gn * (H!0 + H!3 + H!5))) (gn * sqrtgn)
               else Some 0);
       Some (KG, KM)
     })"

text \<open>
  The rest of \<^verbatim>\<open>evalCurvature\<close>: the absolute principal curvatures \<^verbatim>\<open>k1\<close>, \<^verbatim>\<open>k2\<close>,
  the larger one and the (non-positive) difference, the indicator factor and the
  soft maximum. \<^verbatim>\<open>aggregate_weight\<close> is a field of the constraint object.
  The test \<^verbatim>\<open>gn != 0.0\<close> and the sign of the argument of \<^verbatim>\<open>sqrt\<close> are those of the
  exact values: the embedding agrees with the double computation where these values
  are computed without rounding (at \<open>g = 0\<close>, where \<open>gn\<close> is exactly zero) or are
  bounded away from zero, and it does not say which way a discriminant that is
  exactly zero is rounded.
\<close>

definition evalCurvature :: "real \<Rightarrow> real \<Rightarrow> real list \<Rightarrow> real list \<Rightarrow> real option" where
  "evalCurvature aggregate_weight val g H =
    do {
      (KG, KM) \<leftarrow> curvature_KG_KM g H;
      sqrtk \<leftarrow> fsqrt (KM * KM - KG);
      let k1 = \<bar>KM + sqrtk\<bar>;
      let k2 = \<bar>KM - sqrtk\<bar>;
      let (kmax, kdiff) = (if k1 > k2 then (k1, k2 - k1) else (k2, k1 - k2));
      let factor = 1 - 16 * (val - 0.5) * (val - 0.5) * (val - 0.5) * (val - 0.5);
      l \<leftarrow> flog (1 + exp (aggregate_weight * kdiff));
      q \<leftarrow> fdiv l aggregate_weight;
      Some (factor * (kmax + q))
    }"

subsection \<open>The curvature descriptor as the specification words it\<close>



definition norm2 :: "real list \<Rightarrow> real" where
  "norm2 g = (\<Sum>i<3. g!i * g!i)"



definition spec_b :: "real \<Rightarrow> real" where
  "spec_b x = 1 - 16 * (x - 1/2) ^ 4"



section \<open>Enrichment basis\<close>

text \<open>
  \<^verbatim>\<open>getNum2dEnrich\<close> and \<^verbatim>\<open>getNum3dEnrich\<close>: the number of enrichment functions of
  an element of the given order.
\<close>

definition getNum2dEnrich :: "nat \<Rightarrow> nat" where
  "getNum2dEnrich order = (if order = 2 then 5 else if order = 3 then 7 else 9)"

definition getNum3dEnrich :: "nat \<Rightarrow> nat" where
  "getNum3dEnrich order = (if order = 2 then 9 else 15)"

text \<open>
  \<^verbatim>\<open>evalEnrichmentFuncs2D(order, pt, knots, N, Na, Nb)\<close>: the overload that also fills the
  derivative arrays. The result is the triple \<open>(N, Na, Nb)\<close>. Its last branch is a plain
  \<^verbatim>\<open>else\<close>, so every order other than 2 and 3 is treated as order 4.
\<close>

definition evalEnrichmentFuncs2D ::
  "nat \<Rightarrow> real list \<Rightarrow> real list \<Rightarrow> real list \<times> real list \<times> real list" where
  "evalEnrichmentFuncs2D order pt knots =
    (if order = 2 then
       (let ca = (1 + pt!0) * (1 - pt!0);
            cb = (1 + pt!1) * (1 - pt!1);
            da = - 2 * pt!0;
            db = - 2 * pt!1
        in ([ca, pt!1 * ca, cb, pt!0 * cb, ca * cb],
            [da, pt!1 * da, 0, cb, da * cb],
            [0, ca, db, pt!0 * db, ca * db]))
     else if order = 3 then
       (let ca = (1 + pt!0) * pt!0 * (1 - pt!0);
            cb = (1 + pt!1) * pt!1 * (1 - pt!1);
            da = 1 - 3 * pt!0 * pt!0;
            db = 1 - 3 * pt!1 * pt!1
        in ([ca, pt!1 * ca, pt!1 * pt!1 * ca, cb, pt!0 * cb, pt!0 * pt!0 * cb, ca * cb],
            [da, pt!1 * da, pt!1 * pt!1 * da, 0, cb, 2 * pt!0 * cb, da * cb],
            [0, ca, 2 * pt!1 * ca, db, pt!0 * db, pt!0 * pt!0 * db, ca * db]))
     else
       (let ca = ((1 + pt!0) * (1 - pt!0)) * ((pt!0 - knots!1) * (pt!0 - knots!2));
            da = - 2 * pt!0 * (pt!0 - knots!1) * (pt!0 - knots!2) +
                 (1 + pt!0) * (1 - pt!0) * (2 * pt!0 - knots!1 - knots!2);
            cb = ((1 + pt!1) * (1 - pt!1)) * ((pt!1 - knots!1) * (pt!1 - knots!2));
            db = - 2 * pt!1 * (pt!1 - knots!1) * (pt!1 - knots!2) +
                 (1 + pt!1) * (1 - pt!1) * (2 * pt!1 - knots!1 - knots!2)
        in ([ca, pt!1 * ca, pt!1 * pt!1 * ca, pt!1 * pt!1 * pt!1 * ca,
             cb, pt!0 * cb, pt!0 * pt!0 * cb, pt!0 * pt!0 * pt!0 * cb, ca * cb],
            [da, pt!1 * da, pt!1 * pt!1 * da, pt!1 * pt!1 * pt!1 * da,
             0, cb, 2 * pt!0 * cb, 3 * pt!0 * pt!0 * cb, da * cb],
            [0, ca, 2 * pt!1 * ca, 3 * pt!1 * pt!1 * ca,
             db, pt!0 * db, pt!0 * pt!0 * db, pt!0 * pt!0 * pt!0 * db, ca * db])))"

text \<open>
  \<^verbatim>\<open>eval2ndEnrichmentFuncs3D(pt, N, Na, Nb, Nc)\<close> and
  \<^verbatim>\<open>eval3rdEnrichmentFuncs3D(pt, N, Na, Nb, Nc)\<close>: the result is \<open>(N, Na, Nb, Nc)\<close>.
\<close>

definition eval2ndEnrichmentFuncs3D ::
  "real list \<Rightarrow> real list \<times> real list \<times> real list \<times> real list" where
  "eval2ndEnrichmentFuncs3D pt =
    (let ca = (1 + pt!0) * (1 - pt!0);
         cb = (1 + pt!1) * (1 - pt!1);
         cc = (1 + pt!2) * (1 - pt!2);
         da = - 2 * pt!0;
         db = - 2 * pt!1;
         dc = - 2 * pt!2
     in ([ca, pt!1 * ca, pt!2 * ca, cb, pt!0 * cb, pt!2 * cb, cc, pt!0 * cc, pt!1 * cc],
         [da, pt!1 * da, pt!2 * da, 0, cb, 0, 0, cc, 0],
         [0, ca, 0, db, pt!0 * db, pt!2 * db, 0, 0, cc],
         [0, 0, ca, 0, 0, cb, dc, pt!0 * dc, pt!1 * dc]))"

definition eval3rdEnrichmentFuncs3D ::
  "real list \<Rightarrow> real list \<times> real list \<times> real list \<times> real list" where
  "eval3rdEnrichmentFuncs3D pt =
    (let ca = (1 + pt!0) * pt!0 * (1 - pt!0);
         cb = (1 + pt!1) * pt!1 * (1 - pt!1);
         cc = (1 + pt!2) * pt!2 * (1 - pt!2);
         da = 1 - 3 * pt!0 * pt!0;
         db = 1 - 3 * pt!1 * pt!1;
         dc = 1 - 3 * pt!2 * pt!2
     in ([ca, pt!1 * ca, pt!1 * pt!1 * ca, pt!2 * ca, pt!2 * pt!2 * ca,
          cb, pt!0 * cb, pt!0 * pt!0 * cb, pt!2 * cb, pt!2 * pt!2 * cb,
          cc, pt!0 * cc, pt!0 * pt!0 * cc, pt!1 * cc, pt!1 * pt!1 * cc],
         [da, pt!1 * da, pt!1 * pt!1 * da, pt!2 * da, pt!2 * pt!2 * da,
          0, cb, 2 * pt!0 * cb, 0, 0,
          0, cc, 2 * pt!0 * cc, 0, 0],
         [0, ca, 2 * pt!1 * ca, 0, 0,
          db, pt!0 * db, pt!0 * pt!0 * db, pt!2 * db, pt!2 * pt!2 * db,
          0, 0, 0, cc, 2 * pt!1 * cc],
         [0, 0, 0, ca, 2 * pt!2 * ca,
          0, 0, 0, cb, 2 * pt!2 * cb,
          dc, pt!0 * dc, pt!0 * pt!0 * dc, pt!1 * dc, pt!1 * pt!1 * dc]))"

text \<open>The four output arrays of the three-dimensional evaluators by name.\<close>

definition enrN :: "'a \<times> 'b \<times> 'c \<times> 'd \<Rightarrow> 'a" where "enrN r = fst r"
definition enrNa :: "'a \<times> 'b \<times> 'c \<times> 'd \<Rightarrow> 'b" where "enrNa r = fst (snd r)"
definition enrNb :: "'a \<times> 'b \<times> 'c \<times> 'd \<Rightarrow> 'c" where "enrNb r = fst (snd (snd r))"
definition enrNc :: "'a \<times> 'b \<times> 'c \<times> 'd \<Rightarrow> 'd" where "enrNc r = snd (snd (snd r))"

section \<open>Arrays, loops and collaborators\<close>

text \<open>
  A scratch array that the source fills through a pointer (\<^verbatim>\<open>delem\<close>, \<^verbatim>\<open>tmp\<close>,
  \<^verbatim>\<open>ubar\<close>, \<^verbatim>\<open>uref\<close>, ...) is a function from offsets to values; a write is a
  function update. A counted loop \<^verbatim>\<open>for (i = 0; i < n; i++)\<close> is \<open>for_loop n body\<close>,
  which runs \<open>body 0\<close>, \<open>body 1\<close>, ... on the loop state.
\<close>

type_synonym rarr = "nat \<Rightarrow> real"

definition for_loop :: "nat \<Rightarrow> (nat \<Rightarrow> 's \<Rightarrow> 's) \<Rightarrow> 's \<Rightarrow> 's" where
  "for_loop n body s = fold body [0..<n] s"

text \<open>
  The forest (\<^verbatim>\<open>TMRQuadForest\<close>, \<^verbatim>\<open>TMROctForest\<close>) is a collaborator: its mesh order
  and knots (\<^verbatim>\<open>getInterpKnots\<close>) and its Lagrange basis \<^verbatim>\<open>evalInterp(pt, N, Na, Nb, Nc)\<close>,
  which returns \<open>(N, Na, Nb, Nc)\<close> (a quadtree forest leaves \<open>Nc\<close> unused).
\<close>

record forest =
  interp_order :: nat
  interp_knots :: "real list"
  evalInterp :: "real list \<Rightarrow> real list \<times> real list \<times> real list \<times> real list"

text \<open>
  Library routines the source calls: \<^verbatim>\<open>FElibrary::jacobian3d(Xd, J)\<close>, which returns
  the determinant of \<open>Xd\<close> and stores its inverse in \<open>J\<close>; \<^verbatim>\<open>Tensor::normalize3D\<close>
  and \<^verbatim>\<open>Tensor::crossProduct3D\<close>, which returns the product of its second and third argument;
  \<^verbatim>\<open>LAPACKdgelss\<close> called on an \<open>m \<times> n\<close> column-major matrix and \<open>nrhs\<close> right-hand sides
  of leading dimension \<open>m\<close>, returning the right-hand side array as it is on exit;
  \<^verbatim>\<open>FElibrary::getGaussPtsWts\<close>; and \<open>uninit\<close>, the content of memory that the source
  allocates and reads without writing it first.
\<close>

record externals =
  jacobian3d :: "rarr \<Rightarrow> real \<times> rarr"
  normalize3D :: "real \<times> real \<times> real \<Rightarrow> real \<times> real \<times> real"
  crossProduct3D :: "real \<times> real \<times> real \<Rightarrow> real \<times> real \<times> real \<Rightarrow> real \<times> real \<times> real"
  LAPACKdgelss :: "nat \<Rightarrow> nat \<Rightarrow> nat \<Rightarrow> real list \<Rightarrow> real list \<Rightarrow> real list"
  getGaussPtsWts :: "nat \<Rightarrow> nat \<times> real list \<times> real list"
  uninit :: rarr

text \<open>
  One element as \<^verbatim>\<open>TACSAssembler::getElement\<close> hands it out: its node numbers (a
  negative number \<open>-d-1\<close> is the dependent node \<open>d\<close>), its node locations, its state
  variables, and the callbacks of its \<^verbatim>\<open>TACSElement\<close> and constitutive object.
\<close>

record element =
  el_nodes :: "int list"
  el_Xpts :: "real list"
  el_vars :: "real list"
  numNodes :: nat
  computeEnergies :: "real \<Rightarrow> rarr \<Rightarrow> rarr \<Rightarrow> rarr \<Rightarrow> real \<times> real"
  addLocalizedError :: "real \<Rightarrow> rarr \<Rightarrow> rarr \<Rightarrow> rarr \<Rightarrow> rarr \<Rightarrow> rarr"
  failure :: "real list \<Rightarrow> rarr \<Rightarrow> real"

text \<open>
  The mesh of a \<^verbatim>\<open>TACSAssembler\<close> is distributed: every MPI process holds its own
  list of elements. Independent node numbers are global. The table of dependent nodes
  gives, for each dependent node, its independent nodes and their weights. The
  auxiliary elements (\<^verbatim>\<open>TACSAuxElements\<close>) of a process are pairs of an element
  number and an element object; the list is empty when the assembler has none.
\<close>

record assembler =
  varsPerNode :: nat
  procs :: "element list list"
  depNodes :: "(nat \<times> real) list list"
  auxElements :: "(nat \<times> element) list list"

text \<open>
  The elements a process iterates over: all of its elements, or those listed in
  \<^verbatim>\<open>element_nums\<close> when the argument is given.
\<close>

definition loop_elements :: "element list \<Rightarrow> nat list option \<Rightarrow> element list" where
  "loop_elements es element_nums =
     (case element_nums of
        None \<Rightarrow> map (\<lambda>index. es ! index) [0..<length es]
      | Some nums \<Rightarrow> map (\<lambda>index. es ! (nums ! index)) [0..<length nums])"

subsection \<open>The distributed vector\<close>

text \<open>
  \<^verbatim>\<open>TACSBVec\<close> with block size \<open>bs\<close>: the values at the independent nodes (global
  numbering, \<open>bs\<close> values per node) and the buffer of values at the dependent nodes.
  \<^verbatim>\<open>setValues\<close> with \<^verbatim>\<open>TACS_ADD_VALUES\<close> adds into the independent values or, for a
  negative node number, into the dependent buffer; \<^verbatim>\<open>beginSetValues/endSetValues\<close>
  routes the dependent buffer to the independent nodes through the table (the sum over
  processes is the sum of all additions into the one vector of the model);
  \<^verbatim>\<open>beginDistributeValues/endDistributeValues\<close> recomputes the dependent buffer from
  the independent values; \<^verbatim>\<open>getValues\<close> reads either.
\<close>

record bvec =
  bv_x :: rarr
  bv_dep :: rarr

definition zeroEntries :: bvec where
  "zeroEntries = \<lparr>bv_x = (\<lambda>_. 0), bv_dep = (\<lambda>_. 0)\<rparr>"

definition getValues :: "nat \<Rightarrow> bvec \<Rightarrow> int list \<Rightarrow> rarr" where
  "getValues bs v nodes =
     (\<lambda>idx. let i = idx div bs; k = idx mod bs; n = nodes ! i
            in if 0 \<le> n then bv_x v (bs * nat n + k) else bv_dep v (bs * nat (- n - 1) + k))"

definition add_value :: "nat \<Rightarrow> int \<Rightarrow> nat \<Rightarrow> real \<Rightarrow> bvec \<Rightarrow> bvec" where
  "add_value bs n k a v =
     (if 0 \<le> n
      then v\<lparr>bv_x := (bv_x v)(bs * nat n + k := bv_x v (bs * nat n + k) + a)\<rparr>
      else v\<lparr>bv_dep := (bv_dep v)(bs * nat (- n - 1) + k :=
                                    bv_dep v (bs * nat (- n - 1) + k) + a)\<rparr>)"

definition setValues_ADD :: "nat \<Rightarrow> int list \<Rightarrow> rarr \<Rightarrow> bvec \<Rightarrow> bvec" where
  "setValues_ADD bs nodes vals v =
     for_loop (length nodes) (\<lambda>i.
       for_loop bs (\<lambda>k. add_value bs (nodes ! i) k (vals (bs * i + k)))) v"

definition endSetValues_ADD :: "nat \<Rightarrow> (nat \<times> real) list list \<Rightarrow> bvec \<Rightarrow> bvec" where
  "endSetValues_ADD bs dep v =
     for_loop (length dep) (\<lambda>d.
       fold (\<lambda>(c, w). for_loop bs (\<lambda>k u.
               u\<lparr>bv_x := (bv_x u)(bs * c + k := bv_x u (bs * c + k) + w * bv_dep u (bs * d + k))\<rparr>))
            (dep ! d)) v"

definition endDistributeValues :: "nat \<Rightarrow> (nat \<times> real) list list \<Rightarrow> bvec \<Rightarrow> bvec" where
  "endDistributeValues bs dep v =
     for_loop (length dep) (\<lambda>d.
       for_loop bs (\<lambda>k u.
         u\<lparr>bv_dep := (bv_dep u)(bs * d + k := (\<Sum>(c, w)\<leftarrow>dep ! d. w * bv_x u (bs * c + k)))\<rparr>)) v"

subsection \<open>Global reductions\<close>

text \<open>
  \<^verbatim>\<open>MPI_Allreduce\<close> with \<^verbatim>\<open>MPI_SUM\<close> and \<^verbatim>\<open>MPI_MAX\<close>, applied to the list of the
  values that the processes contribute (one per process, at least one process).
\<close>

definition MPI_Allreduce_SUM :: "real list \<Rightarrow> real" where
  "MPI_Allreduce_SUM locals = fold (\<lambda>a s. s + a) locals 0"

definition MPI_Allreduce_MAX :: "real list \<Rightarrow> real" where
  "MPI_Allreduce_MAX locals = fold max (tl locals) (hd locals)"

section \<open>Jacobian kernel\<close>

text \<open>\<^verbatim>\<open>computeJacobianTrans3D\<close>: returns \<open>(detJ, Xd, J)\<close>.\<close>

definition computeJacobianTrans3D ::
  "externals \<Rightarrow> rarr \<Rightarrow> real list \<Rightarrow> real list \<Rightarrow> real list \<Rightarrow> nat \<Rightarrow> real \<times> rarr \<times> rarr" where
  "computeJacobianTrans3D ext Xpts Na Nb Nc num_nodes =
    (let Xd = for_loop num_nodes (\<lambda>i Xd. Xd
           (0 := Xd 0 + Xpts (3 * i) * Na ! i,
            1 := Xd 1 + Xpts (3 * i + 1) * Na ! i,
            2 := Xd 2 + Xpts (3 * i + 2) * Na ! i,
            3 := Xd 3 + Xpts (3 * i) * Nb ! i,
            4 := Xd 4 + Xpts (3 * i + 1) * Nb ! i,
            5 := Xd 5 + Xpts (3 * i + 2) * Nb ! i,
            6 := Xd 6 + Xpts (3 * i) * Nc ! i,
            7 := Xd 7 + Xpts (3 * i + 1) * Nc ! i,
            8 := Xd 8 + Xpts (3 * i + 2) * Nc ! i)) (\<lambda>_. 0);
         (detJ, J) = jacobian3d ext Xd
     in (detJ, Xd, J))"

section \<open>Nodal weights and nodal derivatives\<close>

text \<open>
  \<^verbatim>\<open>computeLocalWeights\<close>: every process adds, for each of its elements, the weight 1
  for an independent node and 0 for a dependent one; then the additions are finalised
  and the vector is distributed. The block size of the weight vector is 1, and
  \<^verbatim>\<open>element_nums\<close> holds the argument of each process.
\<close>

definition computeLocalWeights :: "assembler \<Rightarrow> nat list option list \<Rightarrow> bvec" where
  "computeLocalWeights tacs element_nums =
    (let weights = fold (\<lambda>(es, nums).
           fold (\<lambda>e.
             let nodes = el_nodes e;
                 welem = for_loop (length nodes) (\<lambda>j welem.
                           let welem = welem(j := 1)
                           in if nodes ! j < 0 then welem(j := 0) else welem) (\<lambda>_. 1)
             in setValues_ADD 1 nodes welem) (loop_elements es nums))
           (zip (procs tacs) element_nums) zeroEntries
     in endDistributeValues 1 (depNodes tacs) (endSetValues_ADD 1 (depNodes tacs) weights))"

text \<open>
  The body of the knot loop of \<^verbatim>\<open>computeNodeDeriv3D\<close> up to the physical gradient: the
  shape functions at the knot \<open>(ii, jj, kk)\<close>, the Jacobian, the parametric derivatives
  \<^verbatim>\<open>Ud\<close> of every variable and their product with \<open>J\<close>; entry \<open>3 k + t\<close> is the
  derivative of variable \<open>k\<close> in the direction \<open>t\<close>.
\<close>

definition nodeGradient3D ::
  "externals \<Rightarrow> forest \<Rightarrow> nat \<Rightarrow> rarr \<Rightarrow> rarr \<Rightarrow> nat \<Rightarrow> nat \<Rightarrow> nat \<Rightarrow> rarr" where
  "nodeGradient3D ext forest vars_per_node Xpts uelem ii jj kk =
    (let order = interp_order forest;
         knots = interp_knots forest;
         pt = [knots ! ii, knots ! jj, knots ! kk];
         (N, Na, Nb, Nc) = evalInterp forest pt;
         (detJ, Xd, J) = computeJacobianTrans3D ext Xpts Na Nb Nc (order * order * order);
         Ud = for_loop vars_per_node (\<lambda>k.
                for_loop (order * order * order) (\<lambda>i Ud. Ud
                  (3 * k := Ud (3 * k) + uelem (k + vars_per_node * i) * Na ! i,
                   3 * k + 1 := Ud (3 * k + 1) + uelem (k + vars_per_node * i) * Nb ! i,
                   3 * k + 2 := Ud (3 * k + 2) + uelem (k + vars_per_node * i) * Nc ! i)))
              (\<lambda>_. 0)
     in (\<lambda>idx. let k = idx div 3; t = idx mod 3
               in Ud (3 * k) * J (3 * t) + Ud (3 * k + 1) * J (3 * t + 1) +
                  Ud (3 * k + 2) * J (3 * t + 2)))"

text \<open>
  The element part of \<^verbatim>\<open>computeNodeDeriv3D\<close>: the array \<^verbatim>\<open>delem\<close> filled through the
  running pointer \<^verbatim>\<open>d\<close>, knot by knot; an independent node receives the gradient
  scaled by \<^verbatim>\<open>winv\<close>, a dependent one receives zeros.
\<close>

definition nodeDeriv3D_element ::
  "externals \<Rightarrow> forest \<Rightarrow> nat \<Rightarrow> int list \<Rightarrow> rarr \<Rightarrow> rarr \<Rightarrow> rarr \<Rightarrow> rarr \<Rightarrow> rarr" where
  "nodeDeriv3D_element ext forest vars_per_node nodes welem uelem Xpts delem0 =
    (let order = interp_order forest in
     snd (for_loop order (\<lambda>kk. for_loop order (\<lambda>jj. for_loop order (\<lambda>ii (d, delem).
       let g = nodeGradient3D ext forest vars_per_node Xpts uelem ii jj kk;
           winv = 1 / welem (ii + jj * order + kk * order * order)
       in if 0 \<le> nodes ! (ii + jj * order + kk * order * order)
          then for_loop vars_per_node (\<lambda>k (d, delem).
                 (d + 3, delem(d := winv * g (3 * k),
                               d + 1 := winv * g (3 * k + 1),
                               d + 2 := winv * g (3 * k + 2)))) (d, delem)
          else for_loop vars_per_node (\<lambda>k (d, delem).
                 (d + 3, delem(d := 0, d + 1 := 0, d + 2 := 0))) (d, delem))))
       (0, delem0)))"

text \<open>
  \<^verbatim>\<open>computeNodeDeriv3D\<close>: the derivative vector is zeroed, every process adds the
  contributions of its elements, the additions are finalised and the vector is
  distributed. \<^verbatim>\<open>delem\<close> is allocated without being initialised.
\<close>

definition computeNodeDeriv3D ::
  "externals \<Rightarrow> forest \<Rightarrow> assembler \<Rightarrow> bvec \<Rightarrow> bvec \<Rightarrow> nat list option list \<Rightarrow> bvec" where
  "computeNodeDeriv3D ext forest tacs uvec weights element_nums =
    (let vars_per_node = varsPerNode tacs;
         deriv_per_node = 3 * vars_per_node;
         uderiv = fold (\<lambda>(es, nums).
           fold (\<lambda>e.
             let nodes = el_nodes e;
                 welem = getValues 1 weights nodes;
                 uelem = getValues vars_per_node uvec nodes;
                 Xpts = (!) (el_Xpts e);
                 delem = nodeDeriv3D_element ext forest vars_per_node nodes welem uelem Xpts
                           (uninit ext)
             in setValues_ADD deriv_per_node nodes delem) (loop_elements es nums))
           (zip (procs tacs) element_nums) zeroEntries
     in endDistributeValues deriv_per_node (depNodes tacs)
          (endSetValues_ADD deriv_per_node (depNodes tacs) uderiv))"

section \<open>Patch reconstruction\<close>

text \<open>
  \<^verbatim>\<open>computeElemRecon3D\<close>. The scratch array \<^verbatim>\<open>tmp\<close> holds the matrix \<^verbatim>\<open>A\<close> at offset 0
  and the right-hand sides \<^verbatim>\<open>b\<close> at offset \<open>nenrich * neq\<close>. The trapezoidal weights
  \<^verbatim>\<open>wvals\<close> are set for the orders 2 and 3 only, and the enrichment arrays are filled for
  these orders only; for any other order they keep what the stack held.
\<close>

definition wvals3D :: "externals \<Rightarrow> nat \<Rightarrow> rarr" where
  "wvals3D ext order =
     (if order = 2 then (uninit ext)(0 := 1, 1 := 1)
      else if order = 3 then (uninit ext)(0 := 0.5, 2 := 0.5, 1 := 1)
      else uninit ext)"

definition evalEnrichment3D ::
  "externals \<Rightarrow> nat \<Rightarrow> real list \<Rightarrow> real list \<times> real list \<times> real list \<times> real list" where
  "evalEnrichment3D ext order pt =
     (if order = 2 then eval2ndEnrichmentFuncs3D pt
      else if order = 3 then eval3rdEnrichmentFuncs3D pt
      else (map (uninit ext) [0..<15], map (uninit ext) [0..<15],
            map (uninit ext) [0..<15], map (uninit ext) [0..<15]))"

text \<open>
  The physical derivative of the coarse interpolation of variable \<open>k\<close> at a point, given
  the coarse shape function derivatives and \<open>J\<close>: the array \<^verbatim>\<open>d\<close> of the source.
\<close>

definition interpDeriv3D ::
  "nat \<Rightarrow> nat \<Rightarrow> rarr \<Rightarrow> real list \<Rightarrow> real list \<Rightarrow> real list \<Rightarrow> rarr \<Rightarrow> nat \<Rightarrow> rarr" where
  "interpDeriv3D vars_per_node order uvals Na Nb Nc J k =
    (let (Ua, Ub, Uc) = for_loop (order * order * order) (\<lambda>i (Ua, Ub, Uc).
           (Ua + uvals (vars_per_node * i + k) * Na ! i,
            Ub + uvals (vars_per_node * i + k) * Nb ! i,
            Uc + uvals (vars_per_node * i + k) * Nc ! i)) (0, 0, 0)
     in (!) [Ua * J 0 + Ub * J 1 + Uc * J 2,
             Ua * J 3 + Ub * J 4 + Uc * J 5,
             Ua * J 6 + Ub * J 7 + Uc * J 8])"

text \<open>The body of the knot loop: the rows of \<^verbatim>\<open>b\<close> and \<^verbatim>\<open>A\<close> at the row offset \<open>c\<close>.\<close>

definition elemRecon3D_point ::
  "externals \<Rightarrow> nat \<Rightarrow> forest \<Rightarrow> forest \<Rightarrow> rarr \<Rightarrow> rarr \<Rightarrow> rarr \<Rightarrow>
   nat \<Rightarrow> nat \<Rightarrow> nat \<Rightarrow> nat \<Rightarrow> rarr \<Rightarrow> rarr" where
  "elemRecon3D_point ext vars_per_node forest refined_forest Xpts uvals uderiv ii jj kk c tmp =
    (let knots = interp_knots forest;
         order = interp_order forest;
         refined_order = interp_order refined_forest;
         nenrich = getNum3dEnrich order;
         neq = 3 * order * order * order;
         deriv_per_node = 3 * vars_per_node;
         b = nenrich * neq;
         wvals = wvals3D ext order;
         w = wvals ii * wvals jj * wvals kk;
         pt = [knots ! ii, knots ! jj, knots ! kk];
         (N, Na, Nb, Nc) = evalInterp refined_forest pt;
         (detJ, Xd, J) = computeJacobianTrans3D ext Xpts Na Nb Nc
                           (refined_order * refined_order * refined_order);
         ud = deriv_per_node * (ii + order * jj + order * order * kk);
         tmp = for_loop vars_per_node (\<lambda>k tmp. tmp
                 (b + (neq * k + c) := w * uderiv (ud + 3 * k),
                  b + (neq * k + c + 1) := w * uderiv (ud + 3 * k + 1),
                  b + (neq * k + c + 2) := w * uderiv (ud + 3 * k + 2))) tmp;
         (N, Na, Nb, Nc) = evalInterp forest pt;
         tmp = for_loop vars_per_node (\<lambda>k tmp.
                 let d = interpDeriv3D vars_per_node order uvals Na Nb Nc J k
                 in tmp(b + (neq * k + c) := tmp (b + (neq * k + c)) - w * d 0,
                        b + (neq * k + c + 1) := tmp (b + (neq * k + c + 1)) - w * d 1,
                        b + (neq * k + c + 2) := tmp (b + (neq * k + c + 2)) - w * d 2)) tmp;
         (Nr, Nar, Nbr, Ncr) = evalEnrichment3D ext order pt
     in for_loop nenrich (\<lambda>i tmp. tmp
          (neq * i + c := w * (Nar ! i * J 0 + Nbr ! i * J 1 + Ncr ! i * J 2),
           neq * i + c + 1 := w * (Nar ! i * J 3 + Nbr ! i * J 4 + Ncr ! i * J 5),
           neq * i + c + 2 := w * (Nar ! i * J 6 + Nbr ! i * J 7 + Ncr ! i * J 8))) tmp)"

text \<open>
  The assembly loops of \<^verbatim>\<open>computeElemRecon3D\<close> with the running row offset \<open>c\<close>, and
  the whole function: assembly, the least-squares solve on the \<open>m \<times> n\<close> matrix and the
  \<open>nrhs\<close> right-hand sides, and the copy of the solution into \<^verbatim>\<open>ubar\<close>.
\<close>

definition elemRecon3D_assemble ::
  "externals \<Rightarrow> nat \<Rightarrow> forest \<Rightarrow> forest \<Rightarrow> rarr \<Rightarrow> rarr \<Rightarrow> rarr \<Rightarrow> rarr \<Rightarrow> rarr" where
  "elemRecon3D_assemble ext vars_per_node forest refined_forest Xpts uvals uderiv tmp =
    (let order = interp_order forest in
     snd (for_loop order (\<lambda>kk. for_loop order (\<lambda>jj. for_loop order (\<lambda>ii (c, tmp).
            (c + 3, elemRecon3D_point ext vars_per_node forest refined_forest Xpts uvals uderiv
                      ii jj kk c tmp))))
          (0, tmp)))"

definition computeElemRecon3D ::
  "externals \<Rightarrow> nat \<Rightarrow> forest \<Rightarrow> forest \<Rightarrow> rarr \<Rightarrow> rarr \<Rightarrow> rarr \<Rightarrow> rarr \<Rightarrow> rarr \<Rightarrow> rarr" where
  "computeElemRecon3D ext vars_per_node forest refined_forest Xpts uvals uderiv ubar tmp =
    (let order = interp_order forest;
         nenrich = getNum3dEnrich order;
         neq = 3 * order * order * order;
         nrhs = vars_per_node;
         tmp = elemRecon3D_assemble ext vars_per_node forest refined_forest Xpts uvals uderiv tmp;
         m = neq; n = nenrich;
         b = LAPACKdgelss ext m n nrhs (map tmp [0..<m * n])
               (map (\<lambda>i. tmp (nenrich * neq + i)) [0..<m * nrhs])
     in for_loop nenrich (\<lambda>i. for_loop vars_per_node (\<lambda>j ubar.
          ubar(vars_per_node * i + j := b ! (m * j + i)))) ubar)"

text \<open>
  The entry of the right-hand side that the knot \<open>(ii, jj, kk)\<close> contributes for the
  variable \<open>k\<close> and the direction \<open>t\<close>: the weighted mismatch between the prescribed
  nodal derivative and the derivative of the coarse interpolation. The assembly is
  proved below to store exactly this value in the row \<open>3 p + t\<close> of column \<open>k\<close>.
\<close>

definition recon3D_rhs_entry ::
  "externals \<Rightarrow> nat \<Rightarrow> forest \<Rightarrow> forest \<Rightarrow> rarr \<Rightarrow> rarr \<Rightarrow> rarr \<Rightarrow>
   nat \<Rightarrow> nat \<Rightarrow> nat \<Rightarrow> nat \<Rightarrow> nat \<Rightarrow> real" where
  "recon3D_rhs_entry ext vars_per_node forest refined_forest Xpts uvals uderiv ii jj kk k t =
    (let knots = interp_knots forest;
         order = interp_order forest;
         refined_order = interp_order refined_forest;
         wvals = wvals3D ext order;
         w = wvals ii * wvals jj * wvals kk;
         pt = [knots ! ii, knots ! jj, knots ! kk];
         (N, Na, Nb, Nc) = evalInterp refined_forest pt;
         (detJ, Xd, J) = computeJacobianTrans3D ext Xpts Na Nb Nc
                           (refined_order * refined_order * refined_order);
         ud = 3 * vars_per_node * (ii + order * jj + order * order * kk);
         (N, Na, Nb, Nc) = evalInterp forest pt
     in w * uderiv (ud + 3 * k + t) -
        w * interpDeriv3D vars_per_node order uvals Na Nb Nc J k t)"

subsection \<open>Hypotheses on the collaborators\<close>

text \<open>
  The derivatives of the Lagrange basis returned by \<^verbatim>\<open>evalInterp\<close> sum to zero at every
  point (the basis is a partition of unity), over the \<open>M\<close> nodes of an element.
\<close>

definition derivs_sum_to_zero :: "forest \<Rightarrow> nat \<Rightarrow> bool" where
  "derivs_sum_to_zero forest M \<longleftrightarrow>
     (\<forall>pt. case evalInterp forest pt of (N, Na, Nb, Nc) \<Rightarrow>
        (\<Sum>i<M. Na ! i) = 0 \<and> (\<Sum>i<M. Nb ! i) = 0 \<and> (\<Sum>i<M. Nc ! i) = 0)"

text \<open>
  The least-squares routine returns the zero solution for a zero right-hand side, as
  the minimum-norm solution does.
\<close>

definition zero_rhs_zero_solution :: "externals \<Rightarrow> bool" where
  "zero_rhs_zero_solution ext \<longleftrightarrow>
     (\<forall>m n nrhs A b. length b = m * nrhs \<longrightarrow> (\<forall>x \<in> set b. x = 0) \<longrightarrow>
        (\<forall>idx < m * nrhs. LAPACKdgelss ext m n nrhs A b ! idx = 0))"

section \<open>Refined-field builder\<close>

text \<open>
  The overloads of the enrichment evaluators that fill \<^verbatim>\<open>N\<close> only.
\<close>

definition eval2ndEnrichmentFuncs3D_N :: "real list \<Rightarrow> real list" where
  "eval2ndEnrichmentFuncs3D_N pt =
    (let ca = (1 + pt!0) * (1 - pt!0);
         cb = (1 + pt!1) * (1 - pt!1);
         cc = (1 + pt!2) * (1 - pt!2)
     in [ca, pt!1 * ca, pt!2 * ca, cb, pt!0 * cb, pt!2 * cb, cc, pt!0 * cc, pt!1 * cc])"

definition eval3rdEnrichmentFuncs3D_N :: "real list \<Rightarrow> real list" where
  "eval3rdEnrichmentFuncs3D_N pt =
    (let ca = (1 + pt!0) * pt!0 * (1 - pt!0);
         cb = (1 + pt!1) * pt!1 * (1 - pt!1);
         cc = (1 + pt!2) * pt!2 * (1 - pt!2)
     in [ca, pt!1 * ca, pt!1 * pt!1 * ca, pt!2 * ca, pt!2 * pt!2 * ca,
         cb, pt!0 * cb, pt!0 * pt!0 * cb, pt!2 * cb, pt!2 * pt!2 * cb,
         cc, pt!0 * cc, pt!0 * pt!0 * cc, pt!1 * cc, pt!1 * pt!1 * cc])"

text \<open>
  In \<^verbatim>\<open>addRefinedSolution3D\<close> the array \<^verbatim>\<open>Nr\<close> is filled for the orders 2 and 3 and
  keeps what the stack held for any other order.
\<close>

definition evalEnrichment3D_N :: "externals \<Rightarrow> nat \<Rightarrow> real list \<Rightarrow> real list" where
  "evalEnrichment3D_N ext order pt =
     (if order = 2 then eval2ndEnrichmentFuncs3D_N pt
      else if order = 3 then eval3rdEnrichmentFuncs3D_N pt
      else map (uninit ext) [0..<15])"

subsection \<open>A buffer with checked accesses\<close>

text \<open>
  The scratch buffer \<^verbatim>\<open>uref\<close> of the refined-field builder is embedded with its
  allocated size: it is a list, and an access at an offset beyond its length is the
  error \<open>OutOfBounds offset size\<close>, at which the evaluation stops.
\<close>

datatype error = OutOfBounds nat nat

definition write_at :: "nat \<Rightarrow> real \<Rightarrow> real list \<Rightarrow> error + real list" where
  "write_at i a buf = (if i < length buf then Inr (buf[i := a]) else Inl (OutOfBounds i (length buf)))"

definition add_at :: "nat \<Rightarrow> real \<Rightarrow> real list \<Rightarrow> error + real list" where
  "add_at i a buf =
     (if i < length buf then Inr (buf[i := buf ! i + a]) else Inl (OutOfBounds i (length buf)))"

definition for_loop_chk :: "nat \<Rightarrow> (nat \<Rightarrow> 's \<Rightarrow> error + 's) \<Rightarrow> 's \<Rightarrow> error + 's" where
  "for_loop_chk n body s =
     fold (\<lambda>i r. case r of Inl e \<Rightarrow> Inl e | Inr s \<Rightarrow> body i s) [0..<n] (Inr s)"

definition then_chk :: "error + 'a \<Rightarrow> ('a \<Rightarrow> error + 'b) \<Rightarrow> error + 'b" where
  "then_chk r f = (case r of Inl e \<Rightarrow> Inl e | Inr a \<Rightarrow> f a)"

text \<open>
  The part of the element loop of \<^verbatim>\<open>addRefinedSolution3D\<close> that fills \<^verbatim>\<open>uref\<close>: the
  \<^verbatim>\<open>memset\<close> over \<open>vars_per_node * num_refined_nodes\<close> entries, the loops over the
  refined knots \<open>p, m, n\<close> (the interpolated part is added unless only the difference is
  asked for), and the zeroing of the entries of dependent nodes.
\<close>

definition refinedElement3D ::
  "externals \<Rightarrow> forest \<Rightarrow> forest \<Rightarrow> nat \<Rightarrow> bool \<Rightarrow> rarr \<Rightarrow> rarr \<Rightarrow> int list \<Rightarrow>
   real list \<Rightarrow> error + real list" where
  "refinedElement3D ext forest refined_forest vars_per_node compute_difference uelem ubar
     refined_nodes uref =
    (let order = interp_order forest;
         refined_order = interp_order refined_forest;
         refined_knots = interp_knots refined_forest;
         num_refined_nodes = refined_order * refined_order * refined_order;
         nenrich = getNum3dEnrich order
     in then_chk (for_loop_chk (vars_per_node * num_refined_nodes) (\<lambda>i. write_at i 0) uref) (\<lambda>uref.
        then_chk (for_loop_chk refined_order (\<lambda>p. for_loop_chk refined_order (\<lambda>m.
                  for_loop_chk refined_order (\<lambda>n uref.
           let pt = [refined_knots ! n, refined_knots ! m, refined_knots ! p];
               offset = n + refined_order * m + refined_order * refined_order * p
           in if compute_difference
              then let Nr = evalEnrichment3D_N ext order pt
                   in for_loop_chk vars_per_node (\<lambda>i. for_loop_chk nenrich (\<lambda>k.
                        add_at (vars_per_node * offset + i) (Nr ! k * ubar (i + vars_per_node * k))))
                        uref
              else let N = fst (evalInterp forest pt)
                   in then_chk (for_loop_chk vars_per_node (\<lambda>i.
                                  for_loop_chk (order * order * order) (\<lambda>k.
                        add_at (vars_per_node * offset + i) (N ! k * uelem (i + vars_per_node * k))))
                        uref) (\<lambda>uref.
                      let Nr = evalEnrichment3D_N ext order pt
                      in for_loop_chk vars_per_node (\<lambda>i. for_loop_chk nenrich (\<lambda>k.
                        add_at (vars_per_node * offset + i) (Nr ! k * ubar (i + vars_per_node * k))))
                        uref)))) uref) (\<lambda>uref.
        for_loop_chk num_refined_nodes (\<lambda>i uref.
          if refined_nodes ! i < 0
          then for_loop_chk vars_per_node (\<lambda>j. write_at (vars_per_node * i + j) 0) uref
          else Inr uref) uref)))"

text \<open>
  \<^verbatim>\<open>addRefinedSolution3D\<close>. Every process allocates \<^verbatim>\<open>uref\<close> with
  \<open>vars_per_node * order * order * order\<close> entries, and for each of its elements reads the
  nodal values and derivatives, reconstructs, fills \<^verbatim>\<open>uref\<close> and adds it into the
  refined vector. The elements of the coarse and of the refined assembler correspond by
  their number.
\<close>

definition addRefinedSolution3D ::
  "externals \<Rightarrow> forest \<Rightarrow> assembler \<Rightarrow> forest \<Rightarrow> assembler \<Rightarrow> bvec \<Rightarrow> bvec \<Rightarrow> bvec \<Rightarrow>
   bool \<Rightarrow> nat list option list \<Rightarrow> error + bvec" where
  "addRefinedSolution3D ext forest tacs refined_forest refined_tacs vec vecDeriv vec_refined
     compute_difference element_nums =
    (let vars_per_node = varsPerNode tacs;
         deriv_per_node = 3 * vars_per_node;
         order = interp_order forest
     in fold (\<lambda>((es, res), nums) r.
          then_chk r (\<lambda>vec_refined.
            let uref = map (uninit ext) [0..<vars_per_node * order * order * order];
                elems = (case nums of None \<Rightarrow> [0..<length es] | Some nums \<Rightarrow> nums)
            in then_chk
                 (fold (\<lambda>elem r. then_chk r (\<lambda>(uref, vec_refined).
                    let nodes = el_nodes (es ! elem);
                        uelem = getValues vars_per_node vec nodes;
                        delem = getValues deriv_per_node vecDeriv nodes;
                        Xpts = (!) (el_Xpts (res ! elem));
                        ubar = computeElemRecon3D ext vars_per_node forest refined_forest Xpts
                                 uelem delem (uninit ext) (uninit ext);
                        refined_nodes = el_nodes (res ! elem)
                    in then_chk (refinedElement3D ext forest refined_forest vars_per_node
                                   compute_difference uelem ubar refined_nodes uref) (\<lambda>uref.
                       if vars_per_node * length refined_nodes \<le> length uref
                       then Inr (uref, setValues_ADD vars_per_node refined_nodes ((!) uref)
                                        vec_refined)
                       else Inl (OutOfBounds (length uref) (length uref)))))
                    elems (Inr (uref, vec_refined)))
                 (\<lambda>(uref, vec_refined). Inr vec_refined)))
          (zip (zip (procs tacs) (procs refined_tacs)) element_nums) (Inr vec_refined))"

section \<open>Adjoint-weighted residual estimator\<close>

text \<open>
  A loop \<^verbatim>\<open>for (i = start; i < n; i += step)\<close> whose body may itself not return.
  With \<open>step = 0\<close> and \<open>start < n\<close> the loop never ends: its value is \<open>None\<close>.
\<close>

partial_function (option) stride_loop ::
  "nat \<Rightarrow> nat \<Rightarrow> (nat \<Rightarrow> 's \<Rightarrow> 's option) \<Rightarrow> nat \<Rightarrow> 's \<Rightarrow> 's option" where
  "stride_loop n step body i s =
     (if i < n then Option.bind (body i s) (stride_loop n step body (i + step)) else Some s)"

text \<open>The counted loop around a body that may not return.\<close>

definition for_loop_opt :: "nat \<Rightarrow> (nat \<Rightarrow> 's \<Rightarrow> 's option) \<Rightarrow> 's \<Rightarrow> 's option" where
  "for_loop_opt n body s = fold (\<lambda>i r. Option.bind r (body i)) [0..<n] (Some s)"

text \<open>
  The first element loop of \<^verbatim>\<open>TMR_AdjointErrorEst\<close>, which the quadtree and the octree
  overloads share word for word. \<^verbatim>\<open>localizedError\<close> is the content of \<^verbatim>\<open>err\<close> once the
  element and the auxiliary elements \<open>auxs\<close> have added their localised errors:
  \<^verbatim>\<open>memset\<close> clears the first \<^verbatim>\<open>numNodes()\<close> entries only, the others keep what the
  buffer held. The vectors are read with the block size \<open>bs\<close> of the refined assembler.
\<close>

definition localizedError ::
  "nat \<Rightarrow> bvec \<Rightarrow> bvec \<Rightarrow> element \<Rightarrow> (nat \<times> element) list \<Rightarrow> rarr \<Rightarrow> rarr" where
  "localizedError bs solution_refined adjoint_refined element auxs err =
    (let time = 0;
         refine_nodes = el_nodes element;
         Xpts = (!) (el_Xpts element);
         vars_interp = getValues bs solution_refined refine_nodes;
         adj_interp = getValues bs adjoint_refined refine_nodes;
         err = for_loop (numNodes element) (\<lambda>i err. err(i := 0)) err;
         err = addLocalizedError element time err adj_interp Xpts vars_interp
     in fold (\<lambda>(num, a) err. addLocalizedError a time err adj_interp Xpts vars_interp) auxs err)"

text \<open>
  One pass of the loop. The state is the part of the sorted auxiliary list from
  \<^verbatim>\<open>aux_count\<close> on, \<^verbatim>\<open>total_adjoint_corr\<close>, the buffer \<^verbatim>\<open>err\<close> and the vector
  \<^verbatim>\<open>nodal_error\<close>. The \<^verbatim>\<open>while\<close> loop consumes the leading auxiliary elements whose
  number is \<open>elem\<close>.
\<close>

definition adjointError_element ::
  "nat \<Rightarrow> element list \<Rightarrow> bvec \<Rightarrow> bvec \<Rightarrow> nat \<Rightarrow>
   (nat \<times> element) list \<times> real \<times> rarr \<times> bvec \<Rightarrow> (nat \<times> element) list \<times> real \<times> rarr \<times> bvec" where
  "adjointError_element bs refined solution_refined adjoint_refined elem =
    (\<lambda>(aux, total_adjoint_corr, err, nodal_error).
      let element = refined ! elem;
          err = localizedError bs solution_refined adjoint_refined element
                  (takeWhile (\<lambda>a. fst a = elem) aux) err;
          aux = dropWhile (\<lambda>a. fst a = elem) aux;
          total_adjoint_corr = for_loop (numNodes element) (\<lambda>i c. c + err i) total_adjoint_corr;
          nodal_error = setValues_ADD 1 (el_nodes element) err nodal_error
      in (aux, total_adjoint_corr, err, nodal_error))"

text \<open>
  The loop on one process: \<open>nelems\<close> is the number of elements of the coarse
  assembler, the elements are those of the refined one. The auxiliary elements are
  sorted by element number first; \<^verbatim>\<open>err\<close> is allocated without being initialised.
\<close>

definition adjointError_process ::
  "externals \<Rightarrow> nat \<Rightarrow> nat \<Rightarrow> element list \<Rightarrow> (nat \<times> element) list \<Rightarrow> bvec \<Rightarrow> bvec \<Rightarrow> bvec \<Rightarrow>
   real \<times> rarr \<times> bvec" where
  "adjointError_process ext bs nelems refined aux_elements solution_refined adjoint_refined
     nodal_error =
    (let (aux, total_adjoint_corr, err, nodal_error) =
           for_loop nelems (adjointError_element bs refined solution_refined adjoint_refined)
             (sort_key fst aux_elements, 0, uninit ext, nodal_error)
     in (total_adjoint_corr, err, nodal_error))"

text \<open>
  All processes: the solution and the adjoint are distributed, every process runs the
  loop and adds into the one vector of nodal errors, which is then finalised and
  distributed. The result is that vector with, for each process, its
  \<^verbatim>\<open>total_adjoint_corr\<close> and what its buffer \<^verbatim>\<open>err\<close> holds at the end.
\<close>

definition adjointError_nodal ::
  "externals \<Rightarrow> assembler \<Rightarrow> assembler \<Rightarrow> bvec \<Rightarrow> bvec \<Rightarrow> bvec \<times> (real \<times> rarr) list" where
  "adjointError_nodal ext tacs tacs_refined solution_refined adjoint_refined =
    (let bs = varsPerNode tacs_refined;
         dep = depNodes tacs_refined;
         solution_refined = endDistributeValues bs dep solution_refined;
         adjoint_refined = endDistributeValues bs dep adjoint_refined;
         (nodal_error, locals) = for_loop (length (procs tacs)) (\<lambda>p (nodal_error, locals).
            let (total_adjoint_corr, err, nodal_error) =
                  adjointError_process ext bs (length (procs tacs ! p)) (procs tacs_refined ! p)
                    (auxElements tacs_refined ! p) solution_refined adjoint_refined nodal_error
            in (nodal_error, locals @ [(total_adjoint_corr, err)])) (zeroEntries, [])
     in (endDistributeValues 1 dep (endSetValues_ADD 1 dep nodal_error), locals))"

text \<open>
  The second element loop of the quadtree overload on one process. The corner loops
  advance by \<open>refined_order - 1\<close>. The state is \<^verbatim>\<open>err\<close>, the output array \<^verbatim>\<open>error\<close> and
  \<^verbatim>\<open>total_error_remain\<close>; \<^verbatim>\<open>getValues\<close> overwrites the first \<^verbatim>\<open>refine_len\<close> entries of
  \<^verbatim>\<open>err\<close>.
\<close>

definition quadIndicators ::
  "nat \<Rightarrow> nat \<Rightarrow> element list \<Rightarrow> bvec \<Rightarrow> rarr \<Rightarrow> rarr \<Rightarrow> (rarr \<times> real) option" where
  "quadIndicators refined_order nelems refined nodal_error err error =
    map_option (\<lambda>(err, error, total_error_remain). (error, total_error_remain))
      (for_loop_opt nelems (\<lambda>elem (err, error, total_error_remain).
         let refine_nodes = el_nodes (refined ! elem);
             err = (\<lambda>i. if i < length refine_nodes then getValues 1 nodal_error refine_nodes i
                        else err i);
             error = error(elem := 0)
         in Option.bind
              (stride_loop refined_order (refined_order - 1) (\<lambda>j.
                 stride_loop refined_order (refined_order - 1) (\<lambda>i error.
                   Some (error(elem := error elem + err (i + j * refined_order)))) 0) 0 error)
              (\<lambda>error.
                 let error = error(elem := 0.25 * \<bar>error elem\<bar>)
                 in Some (err, error, total_error_remain + error elem)))
         (err, error, 0))"

text \<open>
  \<^verbatim>\<open>TMR_AdjointErrorEst\<close> for a quadtree forest. \<open>error\<close> holds the output array of
  each process. The value is \<open>None\<close> when some process does not return; otherwise it is
  the returned total, the correction stored through \<^verbatim>\<open>adj_corr\<close>, and the output
  arrays.
\<close>

definition TMR_AdjointErrorEst_quad ::
  "externals \<Rightarrow> forest \<Rightarrow> assembler \<Rightarrow> assembler \<Rightarrow> bvec \<Rightarrow> bvec \<Rightarrow> rarr list \<Rightarrow>
   (real \<times> real \<times> rarr list) option" where
  "TMR_AdjointErrorEst_quad ext forest_refined tacs tacs_refined solution_refined adjoint_refined
     error =
    (let refined_order = interp_order forest_refined;
         (nodal_error, locals) =
           adjointError_nodal ext tacs tacs_refined solution_refined adjoint_refined;
         results = map (\<lambda>p. quadIndicators refined_order (length (procs tacs ! p))
                              (procs tacs_refined ! p) nodal_error (snd (locals ! p)) (error ! p))
                     [0..<length (procs tacs)]
     in if list_all (\<lambda>r. r \<noteq> None) results
        then Some (MPI_Allreduce_SUM (map (\<lambda>r. snd (the r)) results),
                   MPI_Allreduce_SUM (map fst locals),
                   map (\<lambda>r. fst (the r)) results)
        else None)"

text \<open>
  The second element loop of the octree overload: the corner loops run over
  \<open>i, j, k < 2\<close> and address the entry \<open>(refined_order - 1) (i + j refined_order + k
  refined_order\<^sup>2)\<close>.
\<close>

definition octIndicators ::
  "nat \<Rightarrow> nat \<Rightarrow> element list \<Rightarrow> bvec \<Rightarrow> rarr \<Rightarrow> rarr \<Rightarrow> rarr \<times> real" where
  "octIndicators refined_order nelems refined nodal_error err error =
    (let (err, error, total_error_remain) =
       for_loop nelems (\<lambda>elem (err, error, total_error_remain).
         let nodes = el_nodes (refined ! elem);
             err = (\<lambda>i. if i < length nodes then getValues 1 nodal_error nodes i else err i);
             estimate = for_loop 2 (\<lambda>k. for_loop 2 (\<lambda>j. for_loop 2 (\<lambda>i estimate.
                          estimate + err ((refined_order - 1) * i +
                                          (refined_order - 1) * j * refined_order +
                                          (refined_order - 1) * k * refined_order * refined_order))))
                        0;
             error = error(elem := 0.125 * \<bar>estimate\<bar>)
         in (err, error, total_error_remain + error elem))
         (err, error, 0)
     in (error, total_error_remain))"

text \<open>\<^verbatim>\<open>TMR_AdjointErrorEst\<close> for an octree forest: total, correction, output arrays.\<close>

definition TMR_AdjointErrorEst_oct ::
  "externals \<Rightarrow> forest \<Rightarrow> assembler \<Rightarrow> assembler \<Rightarrow> bvec \<Rightarrow> bvec \<Rightarrow> rarr list \<Rightarrow>
   real \<times> real \<times> rarr list" where
  "TMR_AdjointErrorEst_oct ext forest_refined tacs tacs_refined solution_refined adjoint_refined
     error =
    (let refined_order = interp_order forest_refined;
         (nodal_error, locals) =
           adjointError_nodal ext tacs tacs_refined solution_refined adjoint_refined;
         results = map (\<lambda>p. octIndicators refined_order (length (procs tacs ! p))
                              (procs tacs_refined ! p) nodal_error (snd (locals ! p)) (error ! p))
                     [0..<length (procs tacs)]
     in (MPI_Allreduce_SUM (map snd results), MPI_Allreduce_SUM (map fst locals),
         map fst results))"

text \<open>
  The buffers \<^verbatim>\<open>err\<close> that the first loop deposits, element by element, on one process,
  from the auxiliary list and the content of \<^verbatim>\<open>err\<close> at the start.
\<close>

fun depositedErrors ::
  "nat \<Rightarrow> element list \<Rightarrow> bvec \<Rightarrow> bvec \<Rightarrow> nat list \<Rightarrow> (nat \<times> element) list \<Rightarrow> rarr \<Rightarrow> rarr list"
  where
  "depositedErrors bs refined sol adj [] aux err = []"
| "depositedErrors bs refined sol adj (elem # elems) aux err =
     (let err = localizedError bs sol adj (refined ! elem) (takeWhile (\<lambda>a. fst a = elem) aux) err
      in err # depositedErrors bs refined sol adj elems (dropWhile (\<lambda>a. fst a = elem) aux) err)"

text \<open>
  The indicator as the specification words it: the corner weight times the absolute
  value of the sum of the nodal errors at the corners of the refined element, the nodes
  at the tensor-product indices 0 and \<open>refined_order - 1\<close> along each axis.
\<close>

definition corner_indicator2D :: "nat \<Rightarrow> bvec \<Rightarrow> int list \<Rightarrow> real" where
  "corner_indicator2D refined_order nodal_error nodes =
     1 / 4 * \<bar>\<Sum>j\<leftarrow>[0, refined_order - 1]. \<Sum>i\<leftarrow>[0, refined_order - 1].
               getValues 1 nodal_error nodes (i + j * refined_order)\<bar>"

definition corner_indicator3D :: "nat \<Rightarrow> bvec \<Rightarrow> int list \<Rightarrow> real" where
  "corner_indicator3D refined_order nodal_error nodes =
     1 / 8 * \<bar>\<Sum>k\<leftarrow>[0, refined_order - 1]. \<Sum>j\<leftarrow>[0, refined_order - 1].
               \<Sum>i\<leftarrow>[0, refined_order - 1].
                 getValues 1 nodal_error nodes
                   (i + j * refined_order + k * refined_order * refined_order)\<bar>"

text \<open>The sum of the values that one process deposits in the first loop.\<close>

definition deposited_sum ::
  "externals \<Rightarrow> assembler \<Rightarrow> assembler \<Rightarrow> bvec \<Rightarrow> bvec \<Rightarrow> nat \<Rightarrow> real" where
  "deposited_sum ext tacs tacs_refined solution_refined adjoint_refined p =
    (let bs = varsPerNode tacs_refined;
         dep = depNodes tacs_refined;
         elems = [0..<length (procs tacs ! p)]
     in \<Sum>(elem, errbuf)\<leftarrow>zip elems
           (depositedErrors bs (procs tacs_refined ! p)
              (endDistributeValues bs dep solution_refined)
              (endDistributeValues bs dep adjoint_refined) elems
              (sort_key fst (auxElements tacs_refined ! p)) (uninit ext)).
          \<Sum>i<numNodes (procs tacs_refined ! p ! elem). errbuf i)"

section \<open>Strain-energy estimator\<close>

text \<open>
  The refined-knot loops of \<^verbatim>\<open>TMR_StrainEnergyErrorEst\<close> for an octree forest:
  \<^verbatim>\<open>vars_interp\<close> is cleared and receives, at every knot of the refined element, the
  enrichment functions times \<^verbatim>\<open>ubar\<close>. The enrichment evaluator is chosen by
  \<^verbatim>\<open>if (order == 2) ... else ...\<close>.
\<close>

definition strainEnergy_interp3D :: "nat \<Rightarrow> forest \<Rightarrow> forest \<Rightarrow> rarr \<Rightarrow> rarr \<Rightarrow> rarr" where
  "strainEnergy_interp3D vars_per_node forest refined_forest ubar vars_interp =
    (let order = interp_order forest;
         nenrich = getNum3dEnrich order;
         refined_knots = interp_knots refined_forest;
         refined_order = interp_order refined_forest;
         num_refined_nodes = refined_order * refined_order * refined_order;
         vars_interp = for_loop (vars_per_node * num_refined_nodes) (\<lambda>i v. v(i := 0)) vars_interp
     in for_loop refined_order (\<lambda>p. for_loop refined_order (\<lambda>m. for_loop refined_order
          (\<lambda>n vars_interp.
            let pt = [refined_knots ! n, refined_knots ! m, refined_knots ! p];
                Nr = (if order = 2 then eval2ndEnrichmentFuncs3D_N pt
                      else eval3rdEnrichmentFuncs3D_N pt);
                offset = n + m * refined_order + p * refined_order * refined_order
            in for_loop nenrich (\<lambda>k. for_loop vars_per_node (\<lambda>kk v.
                 v(vars_per_node * offset + kk :=
                     v (vars_per_node * offset + kk) + ubar (vars_per_node * k + kk) * Nr ! k)))
                 vars_interp))) vars_interp)"

text \<open>
  One pass of the element loop of the octree overload. The state is \<^verbatim>\<open>ubar\<close>,
  \<^verbatim>\<open>vars_interp\<close>, the output array \<^verbatim>\<open>error\<close> and \<^verbatim>\<open>SE_total_error\<close>. The arrays
  \<^verbatim>\<open>vars_elem\<close> and \<^verbatim>\<open>dvars\<close> are allocated and never written in this overload: it has
  no call \<^verbatim>\<open>tacs->getElement(i, NULL, vars_elem)\<close> and no \<^verbatim>\<open>memset\<close> of \<^verbatim>\<open>dvars\<close>. The
  energies are computed from \<^verbatim>\<open>vars_elem\<close> and \<^verbatim>\<open>dvars\<close>. The scratch array \<^verbatim>\<open>tmp\<close> is
  written by \<^verbatim>\<open>computeElemRecon3D\<close> before it is read, so it is passed as it is
  allocated.
\<close>

definition strainEnergy_element_oct ::
  "externals \<Rightarrow> forest \<Rightarrow> forest \<Rightarrow> nat \<Rightarrow> element list \<Rightarrow> element list \<Rightarrow> bvec \<Rightarrow> nat \<Rightarrow>
   rarr \<times> rarr \<times> rarr \<times> real \<Rightarrow> rarr \<times> rarr \<times> rarr \<times> real" where
  "strainEnergy_element_oct ext forest refined_forest vars_per_node es refined uderiv i =
    (\<lambda>(ubar, vars_interp, error, SE_total_error).
      let time = 0;
          vars_elem = uninit ext;
          dvars = uninit ext;
          nodes = el_nodes (es ! i);
          delem = getValues (3 * vars_per_node) uderiv nodes;
          elem = refined ! i;
          Xpts = (!) (el_Xpts elem);
          ubar = computeElemRecon3D ext vars_per_node forest refined_forest Xpts vars_elem delem
                   ubar (uninit ext);
          vars_interp = strainEnergy_interp3D vars_per_node forest refined_forest ubar vars_interp;
          (Te, Pe) = computeEnergies elem time Xpts vars_elem dvars;
          error = error(i := \<bar>Pe\<bar>)
      in (ubar, vars_interp, error, SE_total_error + error i))"

text \<open>
  \<^verbatim>\<open>TMR_StrainEnergyErrorEst\<close> for an octree forest. \<open>variables\<close> is the state vector
  that \<^verbatim>\<open>tacs->getVariables\<close> copies; \<open>error\<close> holds the output array of each process.
  The result is the returned total and the output arrays.
\<close>

definition TMR_StrainEnergyErrorEst_oct ::
  "externals \<Rightarrow> forest \<Rightarrow> assembler \<Rightarrow> bvec \<Rightarrow> forest \<Rightarrow> assembler \<Rightarrow> rarr list \<Rightarrow>
   real \<times> rarr list" where
  "TMR_StrainEnergyErrorEst_oct ext forest tacs variables refined_forest refined_tacs error =
    (let vars_per_node = varsPerNode tacs;
         all_elements = map (\<lambda>_. None) (procs tacs);
         uvec = endDistributeValues vars_per_node (depNodes tacs) variables;
         weights = computeLocalWeights tacs all_elements;
         uderiv = computeNodeDeriv3D ext forest tacs uvec weights all_elements;
         results = map (\<lambda>p.
           let (ubar, vars_interp, error, SE_total_error) =
                 for_loop (length (procs tacs ! p))
                   (strainEnergy_element_oct ext forest refined_forest vars_per_node
                      (procs tacs ! p) (procs refined_tacs ! p) uderiv)
                   (uninit ext, uninit ext, error ! p, 0)
           in (error, SE_total_error)) [0..<length (procs tacs)]
     in (MPI_Allreduce_SUM (map snd results), map fst results))"

section \<open>TMRStressConstraint\<close>

text \<open>
  \<^verbatim>\<open>TMRStressConstraint::evalStrain\<close>: returns \<open>(detJ, J, e)\<close>. The displacement gradient
  is taken from three variables per node (\<^verbatim>\<open>u += 3\<close>) and three enrichment coefficients
  per enrichment function (\<^verbatim>\<open>ubar += 3\<close>). \<open>Xd\<close> holds the derivatives of the coordinate
  \<open>c\<close> in the entries \<open>3 c\<close>, \<open>3 c + 1\<close>, \<open>3 c + 2\<close>. The enrichment arrays are filled
  for the orders 2 and 3 only.
\<close>

definition evalStrain ::
  "externals \<Rightarrow> forest \<Rightarrow> forest \<Rightarrow> real list \<Rightarrow> rarr \<Rightarrow> rarr \<Rightarrow> rarr \<Rightarrow> real \<times> rarr \<times> rarr" where
  "evalStrain ext forest interp_forest pt Xpts vars ubar =
    (let order = interp_order forest;
         (N, Na, Nb, Nc) = evalInterp forest pt;
         ulen = order * order * order;
         Ud = for_loop ulen (\<lambda>i Ud. Ud
                (0 := Ud 0 + Na ! i * vars (3 * i),
                 1 := Ud 1 + Nb ! i * vars (3 * i),
                 2 := Ud 2 + Nc ! i * vars (3 * i),
                 3 := Ud 3 + Na ! i * vars (3 * i + 1),
                 4 := Ud 4 + Nb ! i * vars (3 * i + 1),
                 5 := Ud 5 + Nc ! i * vars (3 * i + 1),
                 6 := Ud 6 + Na ! i * vars (3 * i + 2),
                 7 := Ud 7 + Nb ! i * vars (3 * i + 2),
                 8 := Ud 8 + Nc ! i * vars (3 * i + 2))) ((\<lambda>_. 0) :: rarr);
         (N, Na, Nb, Nc) = evalInterp interp_forest pt;
         xlen = (order + 1) * (order + 1) * (order + 1);
         Xd = for_loop xlen (\<lambda>i Xd. Xd
                (0 := Xd 0 + Na ! i * Xpts (3 * i),
                 1 := Xd 1 + Nb ! i * Xpts (3 * i),
                 2 := Xd 2 + Nc ! i * Xpts (3 * i),
                 3 := Xd 3 + Na ! i * Xpts (3 * i + 1),
                 4 := Xd 4 + Nb ! i * Xpts (3 * i + 1),
                 5 := Xd 5 + Nc ! i * Xpts (3 * i + 1),
                 6 := Xd 6 + Na ! i * Xpts (3 * i + 2),
                 7 := Xd 7 + Nb ! i * Xpts (3 * i + 2),
                 8 := Xd 8 + Nc ! i * Xpts (3 * i + 2))) (\<lambda>_. 0);
         (detJ, J) = jacobian3d ext Xd;
         (Nr, Nar, Nbr, Ncr) = evalEnrichment3D ext order pt;
         nenrich = getNum3dEnrich order;
         Ud = for_loop nenrich (\<lambda>i Ud. Ud
                (0 := Ud 0 + ubar (3 * i) * Nar ! i,
                 1 := Ud 1 + ubar (3 * i) * Nbr ! i,
                 2 := Ud 2 + ubar (3 * i) * Ncr ! i,
                 3 := Ud 3 + ubar (3 * i + 1) * Nar ! i,
                 4 := Ud 4 + ubar (3 * i + 1) * Nbr ! i,
                 5 := Ud 5 + ubar (3 * i + 1) * Ncr ! i,
                 6 := Ud 6 + ubar (3 * i + 2) * Nar ! i,
                 7 := Ud 7 + ubar (3 * i + 2) * Nbr ! i,
                 8 := Ud 8 + ubar (3 * i + 2) * Ncr ! i)) Ud;
         Ux = (!) [Ud 0 * J 0 + Ud 1 * J 3 + Ud 2 * J 6,
                   Ud 0 * J 1 + Ud 1 * J 4 + Ud 2 * J 7,
                   Ud 0 * J 2 + Ud 1 * J 5 + Ud 2 * J 8,
                   Ud 3 * J 0 + Ud 4 * J 3 + Ud 5 * J 6,
                   Ud 3 * J 1 + Ud 4 * J 4 + Ud 5 * J 7,
                   Ud 3 * J 2 + Ud 4 * J 5 + Ud 5 * J 8,
                   Ud 6 * J 0 + Ud 7 * J 3 + Ud 8 * J 6,
                   Ud 6 * J 1 + Ud 7 * J 4 + Ud 8 * J 7,
                   Ud 6 * J 2 + Ud 7 * J 5 + Ud 8 * J 8];
         e = (!) [Ux 0, Ux 4, Ux 8, Ux 5 + Ux 7, Ux 2 + Ux 6, Ux 1 + Ux 3]
     in (detJ, J, e))"

text \<open>
  The mesh of the order-elevated forest on one process, as \<^verbatim>\<open>getNodeConn\<close>,
  \<^verbatim>\<open>getLocalNodeNumber\<close> and \<^verbatim>\<open>getPoints\<close> hand it out.
\<close>

record octmesh =
  getNodeConn :: "nat list"
  getLocalNodeNumber :: "nat \<Rightarrow> nat"
  getPoints :: "(real \<times> real \<times> real) list"

text \<open>
  The part of the element loop that the two sweeps of \<^verbatim>\<open>evalConstraint\<close> repeat word
  for word: the nodal values and derivatives of element \<open>i\<close>, the node locations of the
  order-elevated element written over the first entries of \<^verbatim>\<open>Xpts\<close>, and the
  reconstruction. The result is \<open>(Xpts, vars, ubar)\<close>. The scratch array \<^verbatim>\<open>tmp\<close> is
  written by \<^verbatim>\<open>computeElemRecon3D\<close> before it is read.
\<close>

definition stressElement ::
  "externals \<Rightarrow> forest \<Rightarrow> forest \<Rightarrow> octmesh \<Rightarrow> nat \<Rightarrow> element list \<Rightarrow> bvec \<Rightarrow> bvec \<Rightarrow> nat \<Rightarrow>
   rarr \<Rightarrow> rarr \<times> rarr \<times> rarr" where
  "stressElement ext forest interp_forest mesh vars_per_node es uvec uderiv i ubar =
    (let order = interp_order forest;
         elem = es ! i;
         nodes = el_nodes elem;
         Xpts = (!) (el_Xpts elem);
         vars = getValues vars_per_node uvec nodes;
         varderiv = getValues (3 * vars_per_node) uderiv nodes;
         interp_elem_size = (order + 1) * (order + 1) * (order + 1);
         Xpts = for_loop interp_elem_size (\<lambda>j Xpts.
                  let c = getNodeConn mesh ! (interp_elem_size * i + j);
                      node = getLocalNodeNumber mesh c;
                      (x, y, z) = getPoints mesh ! node
                  in Xpts(3 * j := x, 3 * j + 1 := y, 3 * j + 2 := z)) Xpts;
         ubar = computeElemRecon3D ext vars_per_node forest interp_forest Xpts vars varderiv ubar
                  (uninit ext)
     in (Xpts, vars, ubar))"

text \<open>
  \<^verbatim>\<open>TMRStressConstraint::evalConstraint\<close>, called on the object as the constructor leaves
  it: \<open>weights\<close> is the member \<^verbatim>\<open>weights\<close>, the scratch arrays are uninitialised. The
  first sweep computes the maximum failure value from the initial value \<open>-10\<^sup>2\<^sup>0\<close>, the
  second the weighted sum. \<open>meshes\<close> holds the order-elevated mesh of each process. The
  result is \<open>(ks_func_val, ks_max_fail, ks_fail_sum)\<close>: the returned value and the two
  members that the call sets. The returned value is \<open>None\<close> when
  \<^verbatim>\<open>log(ks_fail_sum)/ks_weight\<close> is not a real number: the sum is not positive or the
  weight is zero.
\<close>

definition evalConstraint ::
  "externals \<Rightarrow> forest \<Rightarrow> forest \<Rightarrow> octmesh list \<Rightarrow> assembler \<Rightarrow> real \<Rightarrow> bvec \<Rightarrow> bvec \<Rightarrow>
   real option \<times> real \<times> real" where
  "evalConstraint ext forest interp_forest meshes tacs ks_weight weights uvec_in =
    (let vars_per_node = varsPerNode tacs;
         order = interp_order forest;
         uvec = endDistributeValues vars_per_node (depNodes tacs) uvec_in;
         uderiv = computeNodeDeriv3D ext forest tacs uvec weights (map (\<lambda>_. None) (procs tacs));
         (num_quad_pts, gaussPts, gaussWts) = getGaussPtsWts ext (order + 1);
         sweep1 = map (\<lambda>p.
           for_loop (length (procs tacs ! p)) (\<lambda>i (ubar, ks_max_fail).
             let elem = procs tacs ! p ! i;
                 (Xpts, vars, ubar) = stressElement ext forest interp_forest (meshes ! p)
                                        vars_per_node (procs tacs ! p) uvec uderiv i ubar
             in (ubar,
                 for_loop num_quad_pts (\<lambda>kk. for_loop num_quad_pts (\<lambda>jj. for_loop num_quad_pts
                   (\<lambda>ii ks_max_fail.
                     let pt = [gaussPts ! ii, gaussPts ! jj, gaussPts ! kk];
                         (detJ, J, e) = evalStrain ext forest interp_forest pt Xpts vars ubar;
                         fval = failure elem pt e
                     in if fval > ks_max_fail then fval else ks_max_fail))) ks_max_fail))
             (uninit ext, - (10 ^ 20))) [0..<length (procs tacs)];
         ks_max_fail = MPI_Allreduce_MAX (map snd sweep1);
         sweep2 = map (\<lambda>p.
           for_loop (length (procs tacs ! p)) (\<lambda>i (ubar, ks_fail_sum).
             let elem = procs tacs ! p ! i;
                 (Xpts, vars, ubar) = stressElement ext forest interp_forest (meshes ! p)
                                        vars_per_node (procs tacs ! p) uvec uderiv i ubar
             in (ubar,
                 for_loop num_quad_pts (\<lambda>kk. for_loop num_quad_pts (\<lambda>jj. for_loop num_quad_pts
                   (\<lambda>ii ks_fail_sum.
                     let pt = [gaussPts ! ii, gaussPts ! jj, gaussPts ! kk];
                         (detJ, J, e) = evalStrain ext forest interp_forest pt Xpts vars ubar;
                         detJ = detJ * (gaussWts ! ii * gaussWts ! jj * gaussWts ! kk);
                         fval = failure elem pt e
                     in ks_fail_sum + detJ * exp (ks_weight * (fval - ks_max_fail)))))
                   ks_fail_sum))
             (fst (sweep1 ! p), 0)) [0..<length (procs tacs)];
         ks_fail_sum = MPI_Allreduce_SUM (map snd sweep2);
         ks_func_val = do {
           l \<leftarrow> flog ks_fail_sum;
           q \<leftarrow> fdiv l ks_weight;
           Some (ks_max_fail + q)
         }
     in (ks_func_val, ks_max_fail, ks_fail_sum))"

text \<open>
  The quadrature points of the sweep in the order of the loops, over all processes and
  elements: for each point the failure value, the determinant returned by
  \<^verbatim>\<open>evalStrain\<close> and the product of the three weights. The reconstruction of each element
  starts from the scratch array as it is allocated.
\<close>

definition ks_quadrature ::
  "externals \<Rightarrow> forest \<Rightarrow> forest \<Rightarrow> octmesh list \<Rightarrow> assembler \<Rightarrow> bvec \<Rightarrow> bvec \<Rightarrow> nat \<Rightarrow>
   (real \<times> real \<times> real) list" where
  "ks_quadrature ext forest interp_forest meshes tacs weights uvec_in p =
    (let vars_per_node = varsPerNode tacs;
         uvec = endDistributeValues vars_per_node (depNodes tacs) uvec_in;
         uderiv = computeNodeDeriv3D ext forest tacs uvec weights (map (\<lambda>_. None) (procs tacs));
         (num_quad_pts, gaussPts, gaussWts) = getGaussPtsWts ext (interp_order forest + 1)
     in concat (map (\<lambda>i.
          let (Xpts, vars, ubar) = stressElement ext forest interp_forest (meshes ! p)
                                     vars_per_node (procs tacs ! p) uvec uderiv i (uninit ext)
          in map (\<lambda>q.
               let ii = q mod num_quad_pts;
                   jj = (q div num_quad_pts) mod num_quad_pts;
                   kk = q div (num_quad_pts * num_quad_pts);
                   pt = [gaussPts ! ii, gaussPts ! jj, gaussPts ! kk];
                   (detJ, J, e) = evalStrain ext forest interp_forest pt Xpts vars ubar
               in (failure (procs tacs ! p ! i) pt e, detJ,
                   gaussWts ! ii * gaussWts ! jj * gaussWts ! kk))
               [0..<num_quad_pts * num_quad_pts * num_quad_pts])
          [0..<length (procs tacs ! p)]))"

section \<open>The quadtree kernels\<close>

text \<open>
  A quadtree forest: its mesh order and knots (\<^verbatim>\<open>getInterpKnots\<close>) and
  \<^verbatim>\<open>TMRQuadForest::evalInterp(pt, N, Na, Nb)\<close>, which returns \<open>(N, Na, Nb)\<close>.
\<close>

record quadforest =
  quad_order :: nat
  quad_knots :: "real list"
  quad_evalInterp :: "real list \<Rightarrow> real list \<times> real list \<times> real list"

text \<open>
  \<^verbatim>\<open>computeJacobianTrans2D\<close>: the two tangents of the surface in the first two rows of
  \<open>Xd\<close>, their normalised cross product in the third row, and the Jacobian of the
  three rows. Returns \<open>(detJ, Xd, J)\<close>.
\<close>

definition computeJacobianTrans2D ::
  "externals \<Rightarrow> rarr \<Rightarrow> real list \<Rightarrow> real list \<Rightarrow> nat \<Rightarrow> real \<times> rarr \<times> rarr" where
  "computeJacobianTrans2D ext Xpts Na Nb num_nodes =
    (let Xd = for_loop num_nodes (\<lambda>i Xd. Xd
           (0 := Xd 0 + Xpts (3 * i) * Na ! i,
            1 := Xd 1 + Xpts (3 * i + 1) * Na ! i,
            2 := Xd 2 + Xpts (3 * i + 2) * Na ! i,
            3 := Xd 3 + Xpts (3 * i) * Nb ! i,
            4 := Xd 4 + Xpts (3 * i + 1) * Nb ! i,
            5 := Xd 5 + Xpts (3 * i + 2) * Nb ! i)) (\<lambda>_. 0);
         (n0, n1, n2) = normalize3D ext
                          (crossProduct3D ext (Xd 0, Xd 1, Xd 2) (Xd 3, Xd 4, Xd 5));
         Xd = Xd(6 := n0, 7 := n1, 8 := n2);
         (detJ, J) = jacobian3d ext Xd
     in (detJ, Xd, J))"

text \<open>
  The body of the knot loop of \<^verbatim>\<open>computeNodeDeriv2D\<close> up to the physical gradient: the
  shape functions at the knot \<open>(ii, jj)\<close>, the Jacobian, the two parametric derivatives
  \<^verbatim>\<open>Ud\<close> of every variable and their product with \<open>J\<close>; entry \<open>3 k + t\<close> is the
  derivative of variable \<open>k\<close> in the direction \<open>t\<close>.
\<close>

definition nodeGradient2D ::
  "externals \<Rightarrow> quadforest \<Rightarrow> nat \<Rightarrow> rarr \<Rightarrow> rarr \<Rightarrow> nat \<Rightarrow> nat \<Rightarrow> rarr" where
  "nodeGradient2D ext forest vars_per_node Xpts uelem ii jj =
    (let order = quad_order forest;
         knots = quad_knots forest;
         pt = [knots ! ii, knots ! jj];
         (N, Na, Nb) = quad_evalInterp forest pt;
         (detJ, Xd, J) = computeJacobianTrans2D ext Xpts Na Nb (order * order);
         Ud = for_loop vars_per_node (\<lambda>k.
                for_loop (order * order) (\<lambda>i Ud. Ud
                  (2 * k := Ud (2 * k) + uelem (k + vars_per_node * i) * Na ! i,
                   2 * k + 1 := Ud (2 * k + 1) + uelem (k + vars_per_node * i) * Nb ! i)))
              (\<lambda>_. 0)
     in (\<lambda>idx. let k = idx div 3; t = idx mod 3
               in Ud (2 * k) * J (3 * t) + Ud (2 * k + 1) * J (3 * t + 1)))"

text \<open>
  The element part of \<^verbatim>\<open>computeNodeDeriv2D\<close>, with the running pointer \<^verbatim>\<open>d\<close>, and the
  whole function. \<^verbatim>\<open>delem\<close> is allocated without being initialised.
\<close>

definition nodeDeriv2D_element ::
  "externals \<Rightarrow> quadforest \<Rightarrow> nat \<Rightarrow> int list \<Rightarrow> rarr \<Rightarrow> rarr \<Rightarrow> rarr \<Rightarrow> rarr \<Rightarrow> rarr" where
  "nodeDeriv2D_element ext forest vars_per_node nodes welem uelem Xpts delem0 =
    (let order = quad_order forest in
     snd (for_loop order (\<lambda>jj. for_loop order (\<lambda>ii (d, delem).
       let g = nodeGradient2D ext forest vars_per_node Xpts uelem ii jj;
           winv = 1 / welem (ii + jj * order)
       in if 0 \<le> nodes ! (ii + jj * order)
          then for_loop vars_per_node (\<lambda>k (d, delem).
                 (d + 3, delem(d := winv * g (3 * k),
                               d + 1 := winv * g (3 * k + 1),
                               d + 2 := winv * g (3 * k + 2)))) (d, delem)
          else for_loop vars_per_node (\<lambda>k (d, delem).
                 (d + 3, delem(d := 0, d + 1 := 0, d + 2 := 0))) (d, delem)))
       (0, delem0)))"

definition computeNodeDeriv2D ::
  "externals \<Rightarrow> quadforest \<Rightarrow> assembler \<Rightarrow> bvec \<Rightarrow> bvec \<Rightarrow> nat list option list \<Rightarrow> bvec" where
  "computeNodeDeriv2D ext forest tacs uvec weights element_nums =
    (let vars_per_node = varsPerNode tacs;
         deriv_per_node = 3 * vars_per_node;
         uderiv = fold (\<lambda>(es, nums).
           fold (\<lambda>e.
             let nodes = el_nodes e;
                 welem = getValues 1 weights nodes;
                 uelem = getValues vars_per_node uvec nodes;
                 Xpts = (!) (el_Xpts e);
                 delem = nodeDeriv2D_element ext forest vars_per_node nodes welem uelem Xpts
                           (uninit ext)
             in setValues_ADD deriv_per_node nodes delem) (loop_elements es nums))
           (zip (procs tacs) element_nums) zeroEntries
     in endDistributeValues deriv_per_node (depNodes tacs)
          (endSetValues_ADD deriv_per_node (depNodes tacs) uderiv))"

text \<open>
  \<^verbatim>\<open>computeElemRecon2D\<close>. The equations are written in the frame of the two tangent
  directions \<open>d1\<close> (the normalised first tangent) and \<open>d2 = n \<times> d1\<close>, two rows per knot.
  The array \<^verbatim>\<open>wvals\<close> has four entries; its last branch serves every order other than 2
  and 3. The enrichment evaluator receives the knots of the refined forest.
\<close>

definition wvals2D :: "externals \<Rightarrow> nat \<Rightarrow> rarr" where
  "wvals2D ext order =
     (if order = 2 then (uninit ext)(0 := 1, 1 := 1)
      else if order = 3 then (uninit ext)(0 := 0.5, 2 := 0.5, 1 := 1)
      else (uninit ext)(0 := 0.5, 3 := 0.5, 1 := 1, 2 := 1))"

text \<open>
  The two directions of the frame at a knot, from the Jacobian rows \<open>Xd\<close> of the
  refined element: the result is \<open>(d1, d2)\<close>.
\<close>

definition reconFrame2D ::
  "externals \<Rightarrow> rarr \<Rightarrow> (real \<times> real \<times> real) \<times> (real \<times> real \<times> real)" where
  "reconFrame2D ext Xd =
    (let d1 = normalize3D ext (Xd 0, Xd 1, Xd 2);
         d2 = crossProduct3D ext (Xd 6, Xd 7, Xd 8) d1
     in (d1, d2))"

text \<open>
  The physical derivative of the coarse interpolation of variable \<open>k\<close> at a point, given
  the coarse shape function derivatives and \<open>J\<close>: the array \<^verbatim>\<open>d\<close> of the source.
\<close>

definition interpDeriv2D ::
  "nat \<Rightarrow> nat \<Rightarrow> rarr \<Rightarrow> real list \<Rightarrow> real list \<Rightarrow> rarr \<Rightarrow> nat \<Rightarrow> real \<times> real \<times> real" where
  "interpDeriv2D vars_per_node order uvals Na Nb J k =
    (let (Ua, Ub) = for_loop (order * order) (\<lambda>i (Ua, Ub).
           (Ua + uvals (vars_per_node * i + k) * Na ! i,
            Ub + uvals (vars_per_node * i + k) * Nb ! i)) (0, 0)
     in (Ua * J 0 + Ub * J 1, Ua * J 3 + Ub * J 4, Ua * J 6 + Ub * J 7))"

definition dot3 :: "real \<times> real \<times> real \<Rightarrow> real \<times> real \<times> real \<Rightarrow> real" where
  "dot3 a b = (case a of (a0, a1, a2) \<Rightarrow> case b of (b0, b1, b2) \<Rightarrow> a0 * b0 + a1 * b1 + a2 * b2)"

text \<open>The body of the knot loop: the rows of \<^verbatim>\<open>b\<close> and \<^verbatim>\<open>A\<close> at the row offset \<open>c\<close>.\<close>

definition elemRecon2D_point ::
  "externals \<Rightarrow> nat \<Rightarrow> quadforest \<Rightarrow> quadforest \<Rightarrow> rarr \<Rightarrow> rarr \<Rightarrow> rarr \<Rightarrow>
   nat \<Rightarrow> nat \<Rightarrow> nat \<Rightarrow> rarr \<Rightarrow> rarr" where
  "elemRecon2D_point ext vars_per_node forest refined_forest Xpts uvals uderiv ii jj c tmp =
    (let knots = quad_knots forest;
         refined_knots = quad_knots refined_forest;
         order = quad_order forest;
         refined_order = quad_order refined_forest;
         nenrich = getNum2dEnrich order;
         neq = 2 * order * order;
         deriv_per_node = 3 * vars_per_node;
         b = nenrich * neq;
         wvals = wvals2D ext order;
         w = wvals ii * wvals jj;
         pt = [knots ! ii, knots ! jj];
         (N, Na, Nb) = quad_evalInterp refined_forest pt;
         (detJ, Xd, J) = computeJacobianTrans2D ext Xpts Na Nb (refined_order * refined_order);
         (d1, d2) = reconFrame2D ext Xd;
         ud = deriv_per_node * (ii + order * jj);
         tmp = for_loop vars_per_node (\<lambda>k tmp. tmp
                 (b + (neq * k + c) :=
                    w * dot3 d1 (uderiv (ud + 3 * k), uderiv (ud + 3 * k + 1),
                                 uderiv (ud + 3 * k + 2)),
                  b + (neq * k + c + 1) :=
                    w * dot3 d2 (uderiv (ud + 3 * k), uderiv (ud + 3 * k + 1),
                                 uderiv (ud + 3 * k + 2)))) tmp;
         (N, Na, Nb) = quad_evalInterp forest pt;
         tmp = for_loop vars_per_node (\<lambda>k tmp.
                 let d = interpDeriv2D vars_per_node order uvals Na Nb J k
                 in tmp(b + (neq * k + c) := tmp (b + (neq * k + c)) - w * dot3 d1 d,
                        b + (neq * k + c + 1) := tmp (b + (neq * k + c + 1)) - w * dot3 d2 d))
                 tmp;
         (Nr, Nar, Nbr) = evalEnrichmentFuncs2D order pt refined_knots
     in for_loop nenrich (\<lambda>i tmp.
          let d = (Nar ! i * J 0 + Nbr ! i * J 1,
                   Nar ! i * J 3 + Nbr ! i * J 4,
                   Nar ! i * J 6 + Nbr ! i * J 7)
          in tmp(neq * i + c := w * dot3 d1 d,
                 neq * i + c + 1 := w * dot3 d2 d)) tmp)"

text \<open>
  The assembly loops of \<^verbatim>\<open>computeElemRecon2D\<close> with the running row offset \<open>c\<close>, and
  the whole function: assembly, the least-squares solve on the \<open>m \<times> n\<close> matrix and the
  \<open>nrhs\<close> right-hand sides, and the copy of the solution into \<^verbatim>\<open>ubar\<close>.
\<close>

definition elemRecon2D_assemble ::
  "externals \<Rightarrow> nat \<Rightarrow> quadforest \<Rightarrow> quadforest \<Rightarrow> rarr \<Rightarrow> rarr \<Rightarrow> rarr \<Rightarrow> rarr \<Rightarrow> rarr" where
  "elemRecon2D_assemble ext vars_per_node forest refined_forest Xpts uvals uderiv tmp =
    (let order = quad_order forest in
     snd (for_loop order (\<lambda>jj. for_loop order (\<lambda>ii (c, tmp).
            (c + 2, elemRecon2D_point ext vars_per_node forest refined_forest Xpts uvals uderiv
                      ii jj c tmp)))
          (0, tmp)))"

definition computeElemRecon2D ::
  "externals \<Rightarrow> nat \<Rightarrow> quadforest \<Rightarrow> quadforest \<Rightarrow> rarr \<Rightarrow> rarr \<Rightarrow> rarr \<Rightarrow> rarr \<Rightarrow> rarr \<Rightarrow> rarr"
  where
  "computeElemRecon2D ext vars_per_node forest refined_forest Xpts uvals uderiv ubar tmp =
    (let order = quad_order forest;
         nenrich = getNum2dEnrich order;
         neq = 2 * order * order;
         nrhs = vars_per_node;
         tmp = elemRecon2D_assemble ext vars_per_node forest refined_forest Xpts uvals uderiv tmp;
         m = neq; n = nenrich;
         b = LAPACKdgelss ext m n nrhs (map tmp [0..<m * n])
               (map (\<lambda>i. tmp (nenrich * neq + i)) [0..<m * nrhs])
     in for_loop nenrich (\<lambda>i. for_loop vars_per_node (\<lambda>j ubar.
          ubar(vars_per_node * i + j := b ! (m * j + i)))) ubar)"

text \<open>
  The entry of the right-hand side that the knot \<open>(ii, jj)\<close> contributes for the variable
  \<open>k\<close> and the frame direction \<open>t\<close>: the weighted mismatch, along that direction, between
  the prescribed nodal derivative and the derivative of the coarse interpolation. The
  assembly is proved below to store exactly this value in the row \<open>2 p + t\<close> of column
  \<open>k\<close>.
\<close>

definition recon2D_rhs_entry ::
  "externals \<Rightarrow> nat \<Rightarrow> quadforest \<Rightarrow> quadforest \<Rightarrow> rarr \<Rightarrow> rarr \<Rightarrow> rarr \<Rightarrow>
   nat \<Rightarrow> nat \<Rightarrow> nat \<Rightarrow> nat \<Rightarrow> real" where
  "recon2D_rhs_entry ext vars_per_node forest refined_forest Xpts uvals uderiv ii jj k t =
    (let knots = quad_knots forest;
         order = quad_order forest;
         refined_order = quad_order refined_forest;
         wvals = wvals2D ext order;
         w = wvals ii * wvals jj;
         pt = [knots ! ii, knots ! jj];
         (N, Na, Nb) = quad_evalInterp refined_forest pt;
         (detJ, Xd, J) = computeJacobianTrans2D ext Xpts Na Nb (refined_order * refined_order);
         (d1, d2) = reconFrame2D ext Xd;
         dt = (if t = 0 then d1 else d2);
         ud = 3 * vars_per_node * (ii + order * jj);
         (N, Na, Nb) = quad_evalInterp forest pt
     in w * dot3 dt (uderiv (ud + 3 * k), uderiv (ud + 3 * k + 1), uderiv (ud + 3 * k + 2)) -
        w * dot3 dt (interpDeriv2D vars_per_node order uvals Na Nb J k))"

text \<open>
  The derivatives of the Lagrange basis of a quadtree forest sum to zero at every
  point, over the \<open>M\<close> nodes of an element.
\<close>

definition quad_derivs_sum_to_zero :: "quadforest \<Rightarrow> nat \<Rightarrow> bool" where
  "quad_derivs_sum_to_zero forest M \<longleftrightarrow>
     (\<forall>pt. case quad_evalInterp forest pt of (N, Na, Nb) \<Rightarrow>
        (\<Sum>i<M. Na ! i) = 0 \<and> (\<Sum>i<M. Nb ! i) = 0)"

section \<open>The gradient sample of the projector as the specification words it\<close>

text \<open>
  The specification of the nodal-derivative projector: at a knot, evaluate the
  derivatives of the coarse shape functions and the Jacobian, compute
  \<open>Ud = \<Sum>\<^sub>i N\<^sub>i\<^sub>,\<^sub>\<xi> U\<^sub>i\<close>, and multiply by \<open>J\<^sup>T\<close> to obtain the physical-space gradient.
  \<open>physical_gradient3D\<close> is the component \<open>t\<close> of that gradient for the variable \<open>k\<close> on
  an octree element: \<open>Xd\<close> holds the derivative of the coordinate \<open>c\<close> along the
  parametric direction \<open>a\<close> in the entry \<open>3 a + c\<close>, and \<open>J\<close> is the inverse that the
  library returns for it. \<open>physical_gradient2D\<close> is the same on a quadtree element,
  whose third row of \<open>Xd\<close> is the unit normal of the surface.
\<close>

definition physical_gradient3D ::
  "externals \<Rightarrow> forest \<Rightarrow> nat \<Rightarrow> rarr \<Rightarrow> rarr \<Rightarrow> real list \<Rightarrow> nat \<Rightarrow> nat \<Rightarrow> real" where
  "physical_gradient3D ext forest vars_per_node Xpts U pt k t =
    (let M = interp_order forest * interp_order forest * interp_order forest;
         (N, Na, Nb, Nc) = evalInterp forest pt;
         dN = [Na, Nb, Nc];
         Xd = (\<lambda>idx. if idx < 9 then \<Sum>i<M. Xpts (3 * i + idx mod 3) * dN ! (idx div 3) ! i
                      else 0);
         J = snd (jacobian3d ext Xd);
         Ud = (\<lambda>a. \<Sum>i<M. U (k + vars_per_node * i) * dN ! a ! i)
     in \<Sum>a<3. Ud a * J (3 * t + a))"

definition physical_gradient2D ::
  "externals \<Rightarrow> quadforest \<Rightarrow> nat \<Rightarrow> rarr \<Rightarrow> rarr \<Rightarrow> real list \<Rightarrow> nat \<Rightarrow> nat \<Rightarrow> real" where
  "physical_gradient2D ext forest vars_per_node Xpts U pt k t =
    (let M = quad_order forest * quad_order forest;
         (N, Na, Nb) = quad_evalInterp forest pt;
         dN = [Na, Nb];
         tangent = (\<lambda>a c. \<Sum>i<M. Xpts (3 * i + c) * dN ! a ! i);
         (n0, n1, n2) = normalize3D ext
                          (crossProduct3D ext (tangent 0 0, tangent 0 1, tangent 0 2)
                                              (tangent 1 0, tangent 1 1, tangent 1 2));
         Xd = (\<lambda>idx. if idx < 6 then tangent (idx div 3) (idx mod 3)
                      else if idx < 9 then [n0, n1, n2] ! (idx - 6) else 0);
         J = snd (jacobian3d ext Xd);
         Ud = (\<lambda>a. \<Sum>i<M. U (k + vars_per_node * i) * dN ! a ! i)
     in \<Sum>a<2. Ud a * J (3 * t + a))"

section \<open>An octree mesh of one element\<close>

text \<open>
  Modelled from the spec: \<^verbatim>\<open>TMROctForest::evalInterp\<close>, which is not among the sources.
  The specification describes it as the Lagrange basis on the knots with its
  derivatives; for order 2 and the knots \<open>-1, 1\<close> this is the trilinear basis, node
  \<open>i + 2 j + 4 k\<close> sitting at the knots \<open>(i, j, k)\<close>.
\<close>

definition lagrange2 :: "real \<Rightarrow> real list" where
  "lagrange2 x = [(1 - x) / 2, (1 + x) / 2]"

definition dlagrange2 :: "real list" where
  "dlagrange2 = [- 1 / 2, 1 / 2]"

definition evalInterp_order2 ::
  "real list \<Rightarrow> real list \<times> real list \<times> real list \<times> real list" where
  "evalInterp_order2 pt =
    (let na = lagrange2 (pt ! 0); nb = lagrange2 (pt ! 1); nc = lagrange2 (pt ! 2)
     in ([na ! i * nb ! j * nc ! k. k \<leftarrow> [0, 1], j \<leftarrow> [0, 1], i \<leftarrow> [0, 1]],
         [dlagrange2 ! i * nb ! j * nc ! k. k \<leftarrow> [0, 1], j \<leftarrow> [0, 1], i \<leftarrow> [0, 1]],
         [na ! i * dlagrange2 ! j * nc ! k. k \<leftarrow> [0, 1], j \<leftarrow> [0, 1], i \<leftarrow> [0, 1]],
         [na ! i * nb ! j * dlagrange2 ! k. k \<leftarrow> [0, 1], j \<leftarrow> [0, 1], i \<leftarrow> [0, 1]]))"

text \<open>
  Modelled from the spec: \<^verbatim>\<open>FElibrary::jacobian3d\<close>, a routine of the finite-element
  library. The specification gives \<open>J = Xd\<^sup>-\<^sup>1\<close> and \<open>detJ = |Xd|\<close>; the inverse is the
  adjugate over the determinant.
\<close>

definition jacobian3d_exact :: "rarr \<Rightarrow> real \<times> rarr" where
  "jacobian3d_exact Xd =
    (let h = Xd 8 * (Xd 0 * Xd 4 - Xd 3 * Xd 1) - Xd 7 * (Xd 0 * Xd 5 - Xd 3 * Xd 2) +
             Xd 6 * (Xd 1 * Xd 5 - Xd 2 * Xd 4);
         hinv = 1 / h
     in (h, (!) [(Xd 4 * Xd 8 - Xd 5 * Xd 7) * hinv,
                 - (Xd 1 * Xd 8 - Xd 2 * Xd 7) * hinv,
                 (Xd 1 * Xd 5 - Xd 2 * Xd 4) * hinv,
                 - (Xd 3 * Xd 8 - Xd 5 * Xd 6) * hinv,
                 (Xd 0 * Xd 8 - Xd 2 * Xd 6) * hinv,
                 - (Xd 0 * Xd 5 - Xd 2 * Xd 3) * hinv,
                 (Xd 3 * Xd 7 - Xd 4 * Xd 6) * hinv,
                 - (Xd 0 * Xd 7 - Xd 1 * Xd 6) * hinv,
                 (Xd 0 * Xd 4 - Xd 1 * Xd 3) * hinv]))"

text \<open>
  The library routines of the example: the exact Jacobian, the Euclidean
  normalisation, the one-point Gauss rule (point 0, weight 2) and a least-squares
  routine that hands the right-hand side back, which is the minimum-norm solution for
  the zero right-hand side.
\<close>

definition example_ext :: externals where
  "example_ext =
    \<lparr>jacobian3d = jacobian3d_exact,
     normalize3D = (\<lambda>(x, y, z). (x / sqrt (x * x + y * y + z * z),
                                 y / sqrt (x * x + y * y + z * z),
                                 z / sqrt (x * x + y * y + z * z))),
     crossProduct3D = (\<lambda>(a0, a1, a2) (b0, b1, b2).
                        (a1 * b2 - a2 * b1, a2 * b0 - a0 * b2, a0 * b1 - a1 * b0)),
     LAPACKdgelss = (\<lambda>m n nrhs A b. b),
     getGaussPtsWts = (\<lambda>n. (1, [0], [2])),
     uninit = (\<lambda>_. 0)\<rparr>"

definition example_forest :: forest where
  "example_forest = \<lparr>interp_order = 2, interp_knots = [- 1, 1], evalInterp = evalInterp_order2\<rparr>"

text \<open>
  The unit cube \<open>[0, 1]\<^sup>3\<close> as one element of order 2 with one variable per node; its
  last node is the dependent node 0, which hangs on the nodes 5 and 6.
\<close>

definition example_element :: element where
  "example_element =
    \<lparr>el_nodes = [0, 1, 2, 3, 4, 5, 6, - 1],
     el_Xpts = [0, 0, 0,  1, 0, 0,  0, 1, 0,  1, 1, 0,  0, 0, 1,  1, 0, 1,  0, 1, 1,  1, 1, 1],
     el_vars = [1, 1, 1, 1, 1, 1, 1, 1],
     numNodes = 8,
     computeEnergies = (\<lambda>time Xpts vars dvars. (0, vars 0)),
     addLocalizedError = (\<lambda>time err adj Xpts vars. err),
     failure = (\<lambda>pt e. e 0)\<rparr>"

definition example_tacs :: assembler where
  "example_tacs =
    \<lparr>varsPerNode = 1, procs = [[example_element]], depNodes = [[(5, 1 / 2), (6, 1 / 2)]],
     auxElements = [[]]\<rparr>"

definition unit_weights :: bvec where
  "unit_weights = \<lparr>bv_x = (\<lambda>_. 1), bv_dep = (\<lambda>_. 1)\<rparr>"

definition constant_field :: "real \<Rightarrow> bvec" where
  "constant_field c = \<lparr>bv_x = (\<lambda>_. c), bv_dep = (\<lambda>_. c)\<rparr>"

text \<open>
  Modelled from the spec: \<^verbatim>\<open>TMROctForest::evalInterp\<close> for order 3 and the knots
  \<open>-1, 0, 1\<close>, the triquadratic Lagrange basis, node \<open>i + 3 j + 9 k\<close> at the knots
  \<open>(i, j, k)\<close>; and the same cube as one element of the order-elevated mesh.
\<close>

definition lagrange3 :: "real \<Rightarrow> real list" where
  "lagrange3 x = [x * (x - 1) / 2, (1 + x) * (1 - x), x * (x + 1) / 2]"

definition dlagrange3 :: "real \<Rightarrow> real list" where
  "dlagrange3 x = [x - 1 / 2, - 2 * x, x + 1 / 2]"

definition evalInterp_order3 ::
  "real list \<Rightarrow> real list \<times> real list \<times> real list \<times> real list" where
  "evalInterp_order3 pt =
    (let na = lagrange3 (pt ! 0); nb = lagrange3 (pt ! 1); nc = lagrange3 (pt ! 2);
         da = dlagrange3 (pt ! 0); db = dlagrange3 (pt ! 1); dc = dlagrange3 (pt ! 2)
     in ([na ! i * nb ! j * nc ! k. k \<leftarrow> [0, 1, 2], j \<leftarrow> [0, 1, 2], i \<leftarrow> [0, 1, 2]],
         [da ! i * nb ! j * nc ! k. k \<leftarrow> [0, 1, 2], j \<leftarrow> [0, 1, 2], i \<leftarrow> [0, 1, 2]],
         [na ! i * db ! j * nc ! k. k \<leftarrow> [0, 1, 2], j \<leftarrow> [0, 1, 2], i \<leftarrow> [0, 1, 2]],
         [na ! i * nb ! j * dc ! k. k \<leftarrow> [0, 1, 2], j \<leftarrow> [0, 1, 2], i \<leftarrow> [0, 1, 2]]))"

definition example_refined_forest :: forest where
  "example_refined_forest =
     \<lparr>interp_order = 3, interp_knots = [- 1, 0, 1], evalInterp = evalInterp_order3\<rparr>"

definition example_refined_element :: element where
  "example_refined_element =
    \<lparr>el_nodes = map int [0..<27],
     el_Xpts = concat [[i / 2, j / 2, k / 2]. k \<leftarrow> [0, 1, 2], j \<leftarrow> [0, 1, 2], i \<leftarrow> [0, 1, 2]],
     el_vars = replicate 27 1,
     numNodes = 27,
     computeEnergies = (\<lambda>time Xpts vars dvars. (0, vars 0)),
     addLocalizedError = (\<lambda>time err adj Xpts vars. err),
     failure = (\<lambda>pt e. e 0)\<rparr>"

definition example_refined_tacs :: assembler where
  "example_refined_tacs =
    \<lparr>varsPerNode = 1, procs = [[example_refined_element]], depNodes = [],
     auxElements = [[]]\<rparr>"

text \<open>
  Two meshes for the adjoint estimator. The element adds the product of the adjoint
  and the solution at each of its nodes to \<^verbatim>\<open>err\<close>. The quadtree mesh has two
  processes with one element of order 2 each, which share the nodes 1 and 3. The octree
  mesh has one element of order 2 and one auxiliary element on it, which adds 1 to the
  first entry of \<^verbatim>\<open>err\<close>.
\<close>

definition adjoint_element :: "int list \<Rightarrow> element" where
  "adjoint_element nodes =
    \<lparr>el_nodes = nodes,
     el_Xpts = replicate (3 * length nodes) 0,
     el_vars = replicate (length nodes) 0,
     numNodes = length nodes,
     computeEnergies = (\<lambda>time Xpts vars dvars. (0, 0)),
     addLocalizedError = (\<lambda>time err adj Xpts vars i. err i + adj i * vars i),
     failure = (\<lambda>pt e. 0)\<rparr>"

definition adjoint_quad_tacs :: assembler where
  "adjoint_quad_tacs =
    \<lparr>varsPerNode = 1,
     procs = [[adjoint_element [0, 1, 2, 3]], [adjoint_element [1, 4, 3, 5]]],
     depNodes = [],
     auxElements = [[], []]\<rparr>"

definition adjoint_aux_element :: element where
  "adjoint_aux_element =
    \<lparr>el_nodes = [],
     el_Xpts = [],
     el_vars = [],
     numNodes = 0,
     computeEnergies = (\<lambda>time Xpts vars dvars. (0, 0)),
     addLocalizedError = (\<lambda>time err adj Xpts vars. err(0 := err 0 + 1)),
     failure = (\<lambda>pt e. 0)\<rparr>"

definition adjoint_oct_tacs :: assembler where
  "adjoint_oct_tacs =
    \<lparr>varsPerNode = 1,
     procs = [[adjoint_element [0, 1, 2, 3, 4, 5, 6, 7]]],
     depNodes = [],
     auxElements = [[(0, adjoint_aux_element)]]\<rparr>"

text \<open>The library routines of the example with memory that holds \<open>g\<close> when allocated.\<close>

definition garbage_ext :: "real \<Rightarrow> externals" where
  "garbage_ext g = example_ext\<lparr>uninit := (\<lambda>_. g)\<rparr>"

text \<open>
  A mesh for the stress constraint: one element of order 2 with three variables per
  node, whose failure value is 2 plus the first strain component, and the
  order-elevated mesh of the cube \<open>[0, 1]\<^sup>3\<close> with its 27 nodes; \<open>cube_mesh (- 1)\<close> is
  the cube mirrored in the first coordinate, whose Jacobian determinant is negative.
\<close>

definition ks_element :: element where
  "ks_element =
    \<lparr>el_nodes = [0, 1, 2, 3, 4, 5, 6, 7],
     el_Xpts = [0, 0, 0,  1, 0, 0,  0, 1, 0,  1, 1, 0,  0, 0, 1,  1, 0, 1,  0, 1, 1,  1, 1, 1],
     el_vars = replicate 24 0,
     numNodes = 8,
     computeEnergies = (\<lambda>time Xpts vars dvars. (0, 0)),
     addLocalizedError = (\<lambda>time err adj Xpts vars. err),
     failure = (\<lambda>pt e. 2 + e 0)\<rparr>"

definition ks_tacs :: assembler where
  "ks_tacs = \<lparr>varsPerNode = 3, procs = [[ks_element]], depNodes = [], auxElements = [[]]\<rparr>"

text \<open>The same mesh with another failure criterion.\<close>

definition ks_tacs_with :: "(real list \<Rightarrow> rarr \<Rightarrow> real) \<Rightarrow> assembler" where
  "ks_tacs_with F =
     \<lparr>varsPerNode = 3, procs = [[ks_element\<lparr>failure := F\<rparr>]], depNodes = [],
      auxElements = [[]]\<rparr>"

definition cube_mesh :: "real \<Rightarrow> octmesh" where
  "cube_mesh s =
    \<lparr>getNodeConn = [0..<27],
     getLocalNodeNumber = (\<lambda>c. c),
     getPoints = [(s * i / 2, j / 2, k / 2). k \<leftarrow> [0, 1, 2], j \<leftarrow> [0, 1, 2], i \<leftarrow> [0, 1, 2]]\<rparr>"

text \<open>What \<^verbatim>\<open>Xpts\<close> holds for the element of the cube mesh after the copy loop.\<close>

definition cube_Xpts :: "real \<Rightarrow> rarr" where
  "cube_Xpts s =
    (\<lambda>idx. if idx < 81
           then (case getPoints (cube_mesh s) ! (idx div 3) of (x, y, z) \<Rightarrow> [x, y, z] ! (idx mod 3))
           else el_Xpts ks_element ! idx)"

section \<open>Two elements that share a face\<close>

text \<open>
  Two cubes of order 2 with three variables per node, one on each of two processes:
  \<open>[0, 1]\<^sup>3\<close> and its neighbour \<open>[0, 1] \<times> [-1, 0] \<times> [0, 1]\<close>, which share the four nodes
  0, 1, 4, 5 of the face \<open>y = 0\<close>. The failure value of an element is a constant plus
  the shear strain \<open>e\<^sub>5\<close>. The first variable of the field is 3 at \<open>y = -1\<close>, 0 at
  \<open>y = 0\<close> and 1 at \<open>y = 1\<close>; the other two variables are zero. The weights are the
  ones that \<^verbatim>\<open>computeLocalWeights\<close> produces on this mesh.
\<close>

definition pair_element :: "int list \<Rightarrow> real \<Rightarrow> real \<Rightarrow> element" where
  "pair_element nodes y0 f0 =
    \<lparr>el_nodes = nodes,
     el_Xpts = concat [[i, y0 + j, k]. k \<leftarrow> [0, 1], j \<leftarrow> [0, 1], i \<leftarrow> [0, 1]],
     el_vars = replicate 24 0,
     numNodes = 8,
     computeEnergies = (\<lambda>time Xpts vars dvars. (0, 0)),
     addLocalizedError = (\<lambda>time err adj Xpts vars. err),
     failure = (\<lambda>pt e. f0 + e 5)\<rparr>"

definition pair_tacs :: assembler where
  "pair_tacs =
    \<lparr>varsPerNode = 3,
     procs = [[pair_element [0, 1, 2, 3, 4, 5, 6, 7] 0 2],
              [pair_element [8, 9, 0, 1, 10, 11, 4, 5] (- 1) 1]],
     depNodes = [],
     auxElements = [[], []]\<rparr>"

definition pair_field :: bvec where
  "pair_field =
    \<lparr>bv_x = (\<lambda>idx. if idx < 36 \<and> idx mod 3 = 0
                     then [0, 0, 1, 1, 0, 0, 1, 1, 3, 3, 3, 3] ! (idx div 3) else 0),
     bv_dep = (\<lambda>_. 0)\<rparr>"

definition pair_weights :: bvec where
  "pair_weights = computeLocalWeights pair_tacs [None, None]"

section \<open>A quadtree mesh of two elements\<close>

text \<open>
  Modelled from the spec: \<^verbatim>\<open>TMRQuadForest::evalInterp\<close>, which is not among the sources.
  The specification describes it as the Lagrange basis on the knots with its
  derivatives; for order 2 and the knots \<open>-1, 1\<close> this is the bilinear basis, node
  \<open>i + 2 j\<close> sitting at the knots \<open>(i, j)\<close>.
\<close>

definition quad_evalInterp_order2 :: "real list \<Rightarrow> real list \<times> real list \<times> real list" where
  "quad_evalInterp_order2 pt =
    (let na = lagrange2 (pt ! 0); nb = lagrange2 (pt ! 1)
     in ([na ! i * nb ! j. j \<leftarrow> [0, 1], i \<leftarrow> [0, 1]],
         [dlagrange2 ! i * nb ! j. j \<leftarrow> [0, 1], i \<leftarrow> [0, 1]],
         [na ! i * dlagrange2 ! j. j \<leftarrow> [0, 1], i \<leftarrow> [0, 1]]))"

definition quad_example_forest :: quadforest where
  "quad_example_forest =
     \<lparr>quad_order = 2, quad_knots = [- 1, 1], quad_evalInterp = quad_evalInterp_order2\<rparr>"

text \<open>
  Two squares of order 2 in the plane \<open>z = 0\<close> with two variables per node, one on each
  of two processes: \<open>[0, 1]\<^sup>2\<close> and its neighbour \<open>[0, 1] \<times> [-1, 0]\<close>, which share the
  nodes 0 and 1 of the edge \<open>y = 0\<close>. The second variable of the field is 3 at
  \<open>y = -1\<close>, 0 at \<open>y = 0\<close> and 1 at \<open>y = 1\<close>; the first variable is zero.
\<close>

definition quad_pair_element :: "int list \<Rightarrow> real \<Rightarrow> element" where
  "quad_pair_element nodes y0 =
    \<lparr>el_nodes = nodes,
     el_Xpts = concat [[i, y0 + j, 0]. j \<leftarrow> [0, 1], i \<leftarrow> [0, 1]],
     el_vars = replicate 8 0,
     numNodes = 4,
     computeEnergies = (\<lambda>time Xpts vars dvars. (0, 0)),
     addLocalizedError = (\<lambda>time err adj Xpts vars. err),
     failure = (\<lambda>pt e. 0)\<rparr>"

definition quad_pair_tacs :: assembler where
  "quad_pair_tacs =
    \<lparr>varsPerNode = 2,
     procs = [[quad_pair_element [0, 1, 2, 3] 0], [quad_pair_element [4, 5, 0, 1] (- 1)]],
     depNodes = [],
     auxElements = [[], []]\<rparr>"

definition quad_pair_field :: bvec where
  "quad_pair_field =
    \<lparr>bv_x = (\<lambda>idx. if idx < 12 \<and> idx mod 2 = 1 then [0, 0, 1, 1, 3, 3] ! (idx div 2) else 0),
     bv_dep = (\<lambda>_. 0)\<rparr>"

definition quad_pair_weights :: bvec where
  "quad_pair_weights = computeLocalWeights quad_pair_tacs [None, None]"

section \<open>Properties of the curvature kernel\<close>

lemma norm2_eq: "norm2 g = g!0 * g!0 + g!1 * g!1 + g!2 * g!2"
  by (simp add: norm2_def lessThan_Suc eval_nat_numeral)


lemma curvature_KG_KM_zero_gradient:
  "norm2 g = 0 \<Longrightarrow> curvature_KG_KM g H = Some (0, 0)"
  by (simp add: curvature_KG_KM_def norm2_eq fsqrt_def Let_def)


lemma sum_upto_three: "(\<Sum>i<(3::nat). f i) = f 0 + f 1 + (f 2 :: real)"
  by (simp add: lessThan_Suc eval_nat_numeral)








lemma factor_eq: "1 - 16 * (x - 0.5) * (x - 0.5) * (x - 0.5) * (x - 0.5) = spec_b (x::real)"
  unfolding spec_b_def power4_eq_xxxx by (simp add: mult.assoc)

text \<open>
  Claim C10. At a zero gradient (\<open>\<parallel>g\<parallel>\<^sup>2 = 0\<close>) the two divisions by powers of the
  gradient norm are not evaluated: the Gaussian and the mean curvature are both
  exactly \<open>0\<close>, and \<^verbatim>\<open>evalCurvature\<close> returns a value, namely
  \<open>factor * (kmax + log (1 + exp (k * kdiff)) / k)\<close> with \<open>kmax = 0\<close> and \<open>kdiff = 0\<close>.
  The aggregation weight \<open>k\<close>, a field of the object by which the formula divides,
  is taken nonzero.
\<close>

theorem evalCurvature_zero_gradient_total:
  assumes "g!0 * g!0 + g!1 * g!1 + g!2 * g!2 = 0" and "k \<noteq> 0"
  shows "curvature_KG_KM g H = Some (0, 0) \<and>
         evalCurvature k x g H =
           Some ((1 - 16 * (x - 1/2) ^ 4) * (0 + ln (1 + exp (k * 0)) / k))"
proof -
  have n: "norm2 g = 0" using assms(1) by (simp add: norm2_eq)
  have 1: "curvature_KG_KM g H = Some (0, 0)" by (rule curvature_KG_KM_zero_gradient[OF n])
  have 2: "evalCurvature k x g H = Some (spec_b x * (0 + ln (1 + exp (k * 0)) / k))"
    unfolding evalCurvature_def 1 factor_eq fsqrt_def flog_def fdiv_def
    using assms(2) by simp
  show ?thesis using 1 2 by (simp add: spec_b_def)
qed

text \<open>The theorem of C10 at the zero gradient, a Hessian with six entries and \<open>k = 10\<close>.\<close>

theorem evalCurvature_zero_gradient_total_witness:
  "curvature_KG_KM [0, 0, 0] [1, 2, 3, 4, 5, 6] = Some (0, 0) \<and>
   evalCurvature 10 (1/4) [0, 0, 0] [1, 2, 3, 4, 5, 6] = Some (15 / 16 * (ln 2 / 10))"
  using evalCurvature_zero_gradient_total [of "[0, 0, 0]" 10 "[1, 2, 3, 4, 5, 6]" "1/4"]
  by (simp add: power4_eq_xxxx)




section \<open>Properties of the enrichment basis\<close>


lemma enrich2D_order2_deriv:
  assumes "i < 5"
  shows "((\<lambda>x. fst (evalEnrichmentFuncs2D 2 [x, b] knots) ! i) has_real_derivative
           fst (snd (evalEnrichmentFuncs2D 2 [a, b] knots)) ! i) (at a)"
    and "((\<lambda>y. fst (evalEnrichmentFuncs2D 2 [a, y] knots) ! i) has_real_derivative
           snd (snd (evalEnrichmentFuncs2D 2 [a, b] knots)) ! i) (at b)"
  using assms unfolding evalEnrichmentFuncs2D_def Let_def
  by (auto simp: less_Suc_eq eval_nat_numeral algebra_simps intro!: derivative_eq_intros)

lemma enrich2D_order3_deriv:
  assumes "i < 7"
  shows "((\<lambda>x. fst (evalEnrichmentFuncs2D 3 [x, b] knots) ! i) has_real_derivative
           fst (snd (evalEnrichmentFuncs2D 3 [a, b] knots)) ! i) (at a)"
    and "((\<lambda>y. fst (evalEnrichmentFuncs2D 3 [a, y] knots) ! i) has_real_derivative
           snd (snd (evalEnrichmentFuncs2D 3 [a, b] knots)) ! i) (at b)"
  using assms unfolding evalEnrichmentFuncs2D_def Let_def
  by (auto simp: less_Suc_eq eval_nat_numeral algebra_simps intro!: derivative_eq_intros)

lemma enrich2D_order4_deriv:
  assumes "i < 9" "order \<noteq> 2" "order \<noteq> 3"
  shows "((\<lambda>x. fst (evalEnrichmentFuncs2D order [x, b] knots) ! i) has_real_derivative
           fst (snd (evalEnrichmentFuncs2D order [a, b] knots)) ! i) (at a)"
    and "((\<lambda>y. fst (evalEnrichmentFuncs2D order [a, y] knots) ! i) has_real_derivative
           snd (snd (evalEnrichmentFuncs2D order [a, b] knots)) ! i) (at b)"
  using assms unfolding evalEnrichmentFuncs2D_def Let_def
  by (auto simp: less_Suc_eq eval_nat_numeral algebra_simps intro!: derivative_eq_intros)

lemma enrich3D_2nd_deriv:
  assumes "i < 9"
  shows "((\<lambda>x. enrN (eval2ndEnrichmentFuncs3D [x, b, c]) ! i) has_real_derivative
           enrNa (eval2ndEnrichmentFuncs3D [a, b, c]) ! i) (at a)"
    and "((\<lambda>y. enrN (eval2ndEnrichmentFuncs3D [a, y, c]) ! i) has_real_derivative
           enrNb (eval2ndEnrichmentFuncs3D [a, b, c]) ! i) (at b)"
    and "((\<lambda>z. enrN (eval2ndEnrichmentFuncs3D [a, b, z]) ! i) has_real_derivative
           enrNc (eval2ndEnrichmentFuncs3D [a, b, c]) ! i) (at c)"
  using assms unfolding eval2ndEnrichmentFuncs3D_def Let_def enrN_def enrNa_def enrNb_def enrNc_def
  by (auto simp: less_Suc_eq eval_nat_numeral algebra_simps intro!: derivative_eq_intros)

lemma enrich3D_3rd_deriv:
  assumes "i < 15"
  shows "((\<lambda>x. enrN (eval3rdEnrichmentFuncs3D [x, b, c]) ! i) has_real_derivative
           enrNa (eval3rdEnrichmentFuncs3D [a, b, c]) ! i) (at a)"
    and "((\<lambda>y. enrN (eval3rdEnrichmentFuncs3D [a, y, c]) ! i) has_real_derivative
           enrNb (eval3rdEnrichmentFuncs3D [a, b, c]) ! i) (at b)"
    and "((\<lambda>z. enrN (eval3rdEnrichmentFuncs3D [a, b, z]) ! i) has_real_derivative
           enrNc (eval3rdEnrichmentFuncs3D [a, b, c]) ! i) (at c)"
  using assms unfolding eval3rdEnrichmentFuncs3D_def Let_def enrN_def enrNa_def enrNb_def enrNc_def
  by (auto simp: less_Suc_eq eval_nat_numeral algebra_simps intro!: derivative_eq_intros)

text \<open>
  Claim C9. For every order (2 and 3 by their own branches, 4 and any other order by
  the last branch) and every parametric point \<open>(a, b)\<close>, each entry of the arrays
  \<^verbatim>\<open>Na\<close> and \<^verbatim>\<open>Nb\<close> emitted by \<^verbatim>\<open>evalEnrichmentFuncs2D\<close> is the partial derivative,
  with respect to the first and the second parametric coordinate, of the same entry of
  \<^verbatim>\<open>N\<close>; and for every point \<open>(a, b, c)\<close> each entry of \<^verbatim>\<open>Na\<close>, \<^verbatim>\<open>Nb\<close>, \<^verbatim>\<open>Nc\<close>
  emitted by the second-order and the third-order evaluator in three dimensions is
  the partial derivative of the same entry of \<^verbatim>\<open>N\<close>.
\<close>

theorem enrichment_derivatives_analytic:
  "(\<forall>i < getNum2dEnrich order.
      ((\<lambda>x. fst (evalEnrichmentFuncs2D order [x, b] knots) ! i) has_real_derivative
         fst (snd (evalEnrichmentFuncs2D order [a, b] knots)) ! i) (at a) \<and>
      ((\<lambda>y. fst (evalEnrichmentFuncs2D order [a, y] knots) ! i) has_real_derivative
         snd (snd (evalEnrichmentFuncs2D order [a, b] knots)) ! i) (at b)) \<and>
   (\<forall>i < getNum3dEnrich 2.
      ((\<lambda>x. enrN (eval2ndEnrichmentFuncs3D [x, b, c]) ! i) has_real_derivative
         enrNa (eval2ndEnrichmentFuncs3D [a, b, c]) ! i) (at a) \<and>
      ((\<lambda>y. enrN (eval2ndEnrichmentFuncs3D [a, y, c]) ! i) has_real_derivative
         enrNb (eval2ndEnrichmentFuncs3D [a, b, c]) ! i) (at b) \<and>
      ((\<lambda>z. enrN (eval2ndEnrichmentFuncs3D [a, b, z]) ! i) has_real_derivative
         enrNc (eval2ndEnrichmentFuncs3D [a, b, c]) ! i) (at c)) \<and>
   (\<forall>i < getNum3dEnrich 3.
      ((\<lambda>x. enrN (eval3rdEnrichmentFuncs3D [x, b, c]) ! i) has_real_derivative
         enrNa (eval3rdEnrichmentFuncs3D [a, b, c]) ! i) (at a) \<and>
      ((\<lambda>y. enrN (eval3rdEnrichmentFuncs3D [a, y, c]) ! i) has_real_derivative
         enrNb (eval3rdEnrichmentFuncs3D [a, b, c]) ! i) (at b) \<and>
      ((\<lambda>z. enrN (eval3rdEnrichmentFuncs3D [a, b, z]) ! i) has_real_derivative
         enrNc (eval3rdEnrichmentFuncs3D [a, b, c]) ! i) (at c))"
proof (intro conjI allI impI)
  fix i assume i: "i < getNum2dEnrich order"
  consider "order = 2" | "order = 3" | "order \<noteq> 2" "order \<noteq> 3" by blast
  then show "((\<lambda>x. fst (evalEnrichmentFuncs2D order [x, b] knots) ! i) has_real_derivative
         fst (snd (evalEnrichmentFuncs2D order [a, b] knots)) ! i) (at a)"
  proof cases
    case 1 with i show ?thesis using enrich2D_order2_deriv(1)[of i] by (simp add: getNum2dEnrich_def)
  next
    case 2 with i show ?thesis using enrich2D_order3_deriv(1)[of i] by (simp add: getNum2dEnrich_def)
  next
    case 3 with i show ?thesis using enrich2D_order4_deriv(1)[of i order] by (simp add: getNum2dEnrich_def)
  qed
  consider "order = 2" | "order = 3" | "order \<noteq> 2" "order \<noteq> 3" by blast
  then show "((\<lambda>y. fst (evalEnrichmentFuncs2D order [a, y] knots) ! i) has_real_derivative
         snd (snd (evalEnrichmentFuncs2D order [a, b] knots)) ! i) (at b)"
  proof cases
    case 1 with i show ?thesis using enrich2D_order2_deriv(2)[of i] by (simp add: getNum2dEnrich_def)
  next
    case 2 with i show ?thesis using enrich2D_order3_deriv(2)[of i] by (simp add: getNum2dEnrich_def)
  next
    case 3 with i show ?thesis using enrich2D_order4_deriv(2)[of i order] by (simp add: getNum2dEnrich_def)
  qed
next
  fix i assume "i < getNum3dEnrich 2"
  then have i: "i < 9" by (simp add: getNum3dEnrich_def)
  show "((\<lambda>x. enrN (eval2ndEnrichmentFuncs3D [x, b, c]) ! i) has_real_derivative
         enrNa (eval2ndEnrichmentFuncs3D [a, b, c]) ! i) (at a)"
    by (rule enrich3D_2nd_deriv(1)[OF i])
  show "((\<lambda>y. enrN (eval2ndEnrichmentFuncs3D [a, y, c]) ! i) has_real_derivative
         enrNb (eval2ndEnrichmentFuncs3D [a, b, c]) ! i) (at b)"
    by (rule enrich3D_2nd_deriv(2)[OF i])
  show "((\<lambda>z. enrN (eval2ndEnrichmentFuncs3D [a, b, z]) ! i) has_real_derivative
         enrNc (eval2ndEnrichmentFuncs3D [a, b, c]) ! i) (at c)"
    by (rule enrich3D_2nd_deriv(3)[OF i])
next
  fix i assume "i < getNum3dEnrich 3"
  then have i: "i < 15" by (simp add: getNum3dEnrich_def)
  show "((\<lambda>x. enrN (eval3rdEnrichmentFuncs3D [x, b, c]) ! i) has_real_derivative
         enrNa (eval3rdEnrichmentFuncs3D [a, b, c]) ! i) (at a)"
    by (rule enrich3D_3rd_deriv(1)[OF i])
  show "((\<lambda>y. enrN (eval3rdEnrichmentFuncs3D [a, y, c]) ! i) has_real_derivative
         enrNb (eval3rdEnrichmentFuncs3D [a, b, c]) ! i) (at b)"
    by (rule enrich3D_3rd_deriv(2)[OF i])
  show "((\<lambda>z. enrN (eval3rdEnrichmentFuncs3D [a, b, z]) ! i) has_real_derivative
         enrNc (eval3rdEnrichmentFuncs3D [a, b, c]) ! i) (at c)"
    by (rule enrich3D_3rd_deriv(3)[OF i])
qed

text \<open>
  The theorem of C9 at order 4 with the knots \<open>-1, -1/2, 1/2, 1\<close>, the point
  \<open>(1/2, 1/3)\<close> and the coupling function (index 8); at the second-order evaluator, the
  point \<open>(1/2, 1/3, 1/4)\<close> and index 7; at the third-order one and index 14.
\<close>

theorem enrichment_derivatives_analytic_witness:
  "(8::nat) < getNum2dEnrich 4 \<and>
   ((\<lambda>x. fst (evalEnrichmentFuncs2D 4 [x, 1/3] [-1, -1/2, 1/2, 1]) ! 8) has_real_derivative
      fst (snd (evalEnrichmentFuncs2D 4 [1/2, 1/3] [-1, -1/2, 1/2, 1])) ! 8) (at (1/2)) \<and>
   (7::nat) < getNum3dEnrich 2 \<and>
   ((\<lambda>z. enrN (eval2ndEnrichmentFuncs3D [1/2, 1/3, z]) ! 7) has_real_derivative
      enrNc (eval2ndEnrichmentFuncs3D [1/2, 1/3, 1/4]) ! 7) (at (1/4)) \<and>
   (14::nat) < getNum3dEnrich 3 \<and>
   ((\<lambda>y. enrN (eval3rdEnrichmentFuncs3D [1/2, y, 1/4]) ! 14) has_real_derivative
      enrNb (eval3rdEnrichmentFuncs3D [1/2, 1/3, 1/4]) ! 14) (at (1/3))"
proof -
  have h1: "(8::nat) < getNum2dEnrich 4" by (simp add: getNum2dEnrich_def)
  have h2: "(7::nat) < getNum3dEnrich 2" by (simp add: getNum3dEnrich_def)
  have h3: "(14::nat) < getNum3dEnrich 3" by (simp add: getNum3dEnrich_def)
  note t = enrichment_derivatives_analytic
    [of 4 "1/3" "[-1, -1/2, 1/2, 1]" "1/2" "1/4"]
  show ?thesis using h1 h2 h3 t by blast
qed

section \<open>Loops and the distributed vector: closed forms\<close>

lemma for_loop_0 [simp]: "for_loop 0 f s = s"
  by (simp add: for_loop_def)

lemma for_loop_Suc [simp]: "for_loop (Suc n) f s = f n (for_loop n f s)"
  by (simp add: for_loop_def)

lemma for_loop_cong:
  assumes "\<And>i s. i < n \<Longrightarrow> f i s = g i s"
  shows "for_loop n f s = for_loop n g s"
  using assms by (induction n) auto

lemma for_loop_add:
  "for_loop (m + n) f s = for_loop n (\<lambda>i. f (m + i)) (for_loop m f s)"
  by (induction n) simp_all

lemma for_loop_nest:
  "for_loop m (\<lambda>j. for_loop n (\<lambda>i. f i j)) s =
   for_loop (m * n) (\<lambda>q. f (q mod n) (q div n)) s"
proof (induction m)
  case 0
  show ?case by simp
next
  case (Suc m)
  have "for_loop (Suc m * n) (\<lambda>q. f (q mod n) (q div n)) s =
        for_loop n (\<lambda>i. f ((m * n + i) mod n) ((m * n + i) div n))
          (for_loop (m * n) (\<lambda>q. f (q mod n) (q div n)) s)"
    using for_loop_add[of "m * n" n "\<lambda>q. f (q mod n) (q div n)" s] by (simp add: add.commute)
  also have "\<dots> = for_loop n (\<lambda>i. f i m) (for_loop (m * n) (\<lambda>q. f (q mod n) (q div n)) s)"
    by (rule for_loop_cong) simp
  finally show ?case using Suc by simp
qed

lemma for_loop_if:
  "(if c then for_loop n f s else for_loop n g s) = for_loop n (\<lambda>i s. if c then f i s else g i s) s"
  by (cases c) simp_all

lemma for_loop_sum:
  "for_loop n (\<lambda>i (a::real). a + f i) a0 = a0 + (\<Sum>i<n. f i)"
  by (induction n) auto

lemma for_loop_write3:
  "for_loop M (\<lambda>q (d, a :: rarr). (d + 3, a(d := V q 0, d + 1 := V q 1, d + 2 := V q 2))) (0, a0)
   = (3 * M, \<lambda>idx. if idx < 3 * M then V (idx div 3) (idx mod 3) else a0 idx)"
proof (induction M)
  case 0
  show ?case by simp
next
  case (Suc M)
  let ?A = "\<lambda>idx. if idx < 3 * M then V (idx div 3) (idx mod 3) else a0 idx"
  have eq: "?A(3 * M := V M 0, 3 * M + 1 := V M 1, 3 * M + 2 := V M 2)
        = (\<lambda>idx. if idx < 3 * M + 3 then V (idx div 3) (idx mod 3) else a0 idx)"
  proof
    fix idx
    consider "idx < 3 * M" | "idx = 3 * M" | "idx = 3 * M + 1" | "idx = 3 * M + 2" | "idx \<ge> 3 * M + 3"
      by linarith
    then show "(?A(3 * M := V M 0, 3 * M + 1 := V M 1, 3 * M + 2 := V M 2)) idx
        = (if idx < 3 * M + 3 then V (idx div 3) (idx mod 3) else a0 idx)"
    proof cases
      case 1 then show ?thesis by simp
    next
      case 2 then show ?thesis by simp
    next
      case 3
      have "(3 * M + 1) div 3 = M" "(3 * M + 1) mod 3 = 1" by presburger+
      with 3 show ?thesis by simp
    next
      case 4
      have "(3 * M + 2) div 3 = M" "(3 * M + 2) mod 3 = 2" by presburger+
      with 4 show ?thesis by simp
    next
      case 5 then show ?thesis by simp
    qed
  qed
  have m: "3 * Suc M = 3 * M + 3" by simp
  show ?case
    unfolding for_loop_Suc Suc m by (simp only: split_conv eq)
qed

lemma mod_mult_div: "(p mod (o1 * o2)) div o1 = (p div o1) mod (o2::nat)"
  by (metis div_mult2_eq mod_mult2_eq div_mult_self1_is_m mod_div_trivial add.commute
        div_mult_self2 mult.commute mult_zero_left mult_zero_right mod_by_0 div_by_0 gr0I)

lemma for_loop_nest3:
  "for_loop o1 (\<lambda>kk. for_loop o1 (\<lambda>jj. for_loop o1 (\<lambda>ii. B ii jj kk))) s =
   for_loop (o1 * o1 * o1) (\<lambda>p. B (p mod o1) ((p div o1) mod o1) (p div (o1 * o1))) s"
proof -
  have "for_loop o1 (\<lambda>kk. for_loop o1 (\<lambda>jj. for_loop o1 (\<lambda>ii. B ii jj kk))) s =
        for_loop o1 (\<lambda>kk. for_loop (o1 * o1) (\<lambda>q. B (q mod o1) (q div o1) kk)) s"
    by (rule for_loop_cong) (rule for_loop_nest)
  also have "\<dots> = for_loop (o1 * (o1 * o1))
      (\<lambda>p. B ((p mod (o1 * o1)) mod o1) ((p mod (o1 * o1)) div o1) (p div (o1 * o1))) s"
    by (rule for_loop_nest)
  also have "\<dots> = for_loop (o1 * o1 * o1) (\<lambda>p. B (p mod o1) ((p div o1) mod o1) (p div (o1 * o1))) s"
  proof -
    have a: "(p mod (o1 * o1)) mod o1 = p mod o1" for p by (simp add: mod_mod_cancel)
    show ?thesis by (simp only: a mod_mult_div mult.assoc)
  qed
  finally show ?thesis .
qed

lemma slot_decode: "p mod o1 + (p div o1) mod o1 * o1 + p div (o1 * o1) * o1 * o1 = (p::nat)"
proof -
  have "p div (o1 * o1) = (p div o1) div o1" by (simp add: div_mult2_eq)
  then have "(p div o1) mod o1 * o1 + p div (o1 * o1) * o1 * o1 = (p div o1) * o1"
    by (metis add.commute distrib_right div_mult_mod_eq mult.assoc mult.commute)
  then show ?thesis by (metis add.assoc add.commute div_mult_mod_eq mult.commute)
qed

lemma nodeDeriv3D_body:
  "(\<lambda>(d, delem :: rarr).
       let g = G; winv = Wv
       in if c
          then for_loop vpn (\<lambda>k (d, delem).
                 (d + 3, delem(d := winv * g (3 * k),
                               d + 1 := winv * g (3 * k + 1),
                               d + 2 := winv * g (3 * k + 2)))) (d, delem)
          else for_loop vpn (\<lambda>k (d, delem).
                 (d + 3, delem(d := 0, d + 1 := 0, d + 2 := 0))) (d, delem))
   = for_loop vpn (\<lambda>k (d, delem).
        (d + 3, delem(d := (if c then Wv * G (3 * k + 0) else 0),
                      d + 1 := (if c then Wv * G (3 * k + 1) else 0),
                      d + 2 := (if c then Wv * G (3 * k + 2) else 0))))"
  by (rule ext) (auto simp: Let_def)

lemma nodeDeriv3D_element_closed:
  "nodeDeriv3D_element ext forest vpn nodes welem uelem Xpts delem0 =
    (\<lambda>idx. if idx < 3 * (interp_order forest * interp_order forest * interp_order forest * vpn)
       then (let p = (idx div 3) div vpn; k = (idx div 3) mod vpn; t = idx mod 3; o1 = interp_order forest
             in if 0 \<le> nodes ! p
                then 1 / welem p *
                     nodeGradient3D ext forest vpn Xpts uelem (p mod o1) ((p div o1) mod o1) (p div (o1 * o1)) (3 * k + t)
                else 0)
       else delem0 idx)"
  unfolding nodeDeriv3D_element_def Let_def[of "interp_order forest"] nodeDeriv3D_body
  apply (subst for_loop_nest3)
  apply (subst for_loop_nest)
  apply (simp only: slot_decode)
  apply (subst for_loop_write3[where V = "\<lambda>q t. if 0 \<le> nodes ! (q div vpn) then 1 / welem (q div vpn) *
                     nodeGradient3D ext forest vpn Xpts uelem ((q div vpn) mod interp_order forest) 
          (((q div vpn) div interp_order forest) mod interp_order forest) ((q div vpn) div (interp_order forest * interp_order forest)) (3 * (q mod vpn) + t)
                else 0"])
  apply (unfold Let_def)
  apply simp
  done

lemma for_loop_additive:
  fixes h :: "'s \<Rightarrow> real"
  assumes "\<And>i u. i < n \<Longrightarrow> I u \<Longrightarrow> h (F i u) = h u + c i \<and> I (F i u)" and "I v"
  shows "h (for_loop n F v) = h v + (\<Sum>i<n. c i) \<and> I (for_loop n F v)"
  using assms by (induction n) (auto simp: add.assoc)

lemma fold_additive:
  fixes h :: "'s \<Rightarrow> real"
  assumes "\<And>x u. x \<in> set xs \<Longrightarrow> I u \<Longrightarrow> h (F x u) = h u + c x \<and> I (F x u)" and "I v"
  shows "h (fold F xs v) = h v + (\<Sum>x\<leftarrow>xs. c x) \<and> I (fold F xs v)"
  using assms
proof (induction xs arbitrary: v)
  case Nil
  then show ?case by simp
next
  case (Cons x xs)
  have 1: "h (F x v) = h v + c x" "I (F x v)" using Cons.prems by auto
  have "h (fold F xs (F x v)) = h (F x v) + (\<Sum>x\<leftarrow>xs. c x) \<and> I (fold F xs (F x v))"
    by (rule Cons.IH) (use Cons.prems 1 in auto)
  then show ?case using 1 by (simp add: add.assoc)
qed

lemma add_value_x:
  "bv_x (add_value bs n k a v) idx =
     bv_x v idx + (if 0 \<le> n \<and> bs * nat n + k = idx then a else 0)"
  by (simp add: add_value_def)

lemma add_value_dep:
  "bv_dep (add_value bs n k a v) idx =
     bv_dep v idx + (if n < 0 \<and> bs * nat (- n - 1) + k = idx then a else 0)"
  by (auto simp: add_value_def)

lemma setValues_ADD_x:
  "bv_x (setValues_ADD bs nodes vals v) idx =
     bv_x v idx + (\<Sum>i<length nodes. \<Sum>k<bs.
        if 0 \<le> nodes ! i \<and> bs * nat (nodes ! i) + k = idx then vals (bs * i + k) else 0)"
proof -
  have inner: "bv_x (for_loop bs (\<lambda>k. add_value bs n k (f k)) u) idx =
     bv_x u idx + (\<Sum>k<bs. if 0 \<le> n \<and> bs * nat n + k = idx then f k else 0)" for n f u
    using for_loop_additive[where h = "\<lambda>v. bv_x v idx" and I = "\<lambda>_. True" and n = bs
        and F = "\<lambda>k. add_value bs n k (f k)" and v = u
        and c = "\<lambda>k. if 0 \<le> n \<and> bs * nat n + k = idx then f k else 0"]
    by (simp add: add_value_x)
  show ?thesis
    unfolding setValues_ADD_def
    using for_loop_additive[where h = "\<lambda>v. bv_x v idx" and I = "\<lambda>_. True" and n = "length nodes"
        and F = "\<lambda>i. for_loop bs (\<lambda>k. add_value bs (nodes ! i) k (vals (bs * i + k)))" and v = v
        and c = "\<lambda>i. \<Sum>k<bs. if 0 \<le> nodes ! i \<and> bs * nat (nodes ! i) + k = idx then vals (bs * i + k) else 0"]
    by (simp add: inner)
qed

lemma setValues_ADD_dep:
  "bv_dep (setValues_ADD bs nodes vals v) idx =
     bv_dep v idx + (\<Sum>i<length nodes. \<Sum>k<bs.
        if nodes ! i < 0 \<and> bs * nat (- nodes ! i - 1) + k = idx then vals (bs * i + k) else 0)"
proof -
  have inner: "bv_dep (for_loop bs (\<lambda>k. add_value bs n k (f k)) u) idx =
     bv_dep u idx + (\<Sum>k<bs. if n < 0 \<and> bs * nat (- n - 1) + k = idx then f k else 0)" for n f u
    using for_loop_additive[where h = "\<lambda>v. bv_dep v idx" and I = "\<lambda>_. True" and n = bs
        and F = "\<lambda>k. add_value bs n k (f k)" and v = u
        and c = "\<lambda>k. if n < 0 \<and> bs * nat (- n - 1) + k = idx then f k else 0"]
    by (simp add: add_value_dep)
  show ?thesis
    unfolding setValues_ADD_def
    using for_loop_additive[where h = "\<lambda>v. bv_dep v idx" and I = "\<lambda>_. True" and n = "length nodes"
        and F = "\<lambda>i. for_loop bs (\<lambda>k. add_value bs (nodes ! i) k (vals (bs * i + k)))" and v = v
        and c = "\<lambda>i. \<Sum>k<bs. if nodes ! i < 0 \<and> bs * nat (- nodes ! i - 1) + k = idx then vals (bs * i + k) else 0"]
    by (simp add: inner)
qed

lemma endSetValues_ADD_x:
  "bv_x (endSetValues_ADD bs dep v) idx =
     bv_x v idx + (\<Sum>d<length dep. \<Sum>(c, w)\<leftarrow>dep ! d. \<Sum>k<bs.
        if bs * c + k = idx then w * bv_dep v (bs * d + k) else 0)"
  and endSetValues_ADD_dep: "bv_dep (endSetValues_ADD bs dep v) = bv_dep v"
proof -
  let ?I = "\<lambda>u. bv_dep u = bv_dep v"
  have inner: "bv_x (for_loop bs (\<lambda>k u. u\<lparr>bv_x := (bv_x u)(bs * c + k := bv_x u (bs * c + k) + w * bv_dep u (bs * d + k))\<rparr>) u) idx
       = bv_x u idx + (\<Sum>k<bs. if bs * c + k = idx then w * bv_dep v (bs * d + k) else 0)
      \<and> ?I (for_loop bs (\<lambda>k u. u\<lparr>bv_x := (bv_x u)(bs * c + k := bv_x u (bs * c + k) + w * bv_dep u (bs * d + k))\<rparr>) u)"
    if "?I u" for c w d u
    by (rule for_loop_additive[where h = "\<lambda>v. bv_x v idx" and I = ?I]) (use that in auto)
  have mid: "bv_x (fold (\<lambda>(c, w). for_loop bs (\<lambda>k u.
               u\<lparr>bv_x := (bv_x u)(bs * c + k := bv_x u (bs * c + k) + w * bv_dep u (bs * d + k))\<rparr>)) cs u) idx
       = bv_x u idx + (\<Sum>(c, w)\<leftarrow>cs. \<Sum>k<bs. if bs * c + k = idx then w * bv_dep v (bs * d + k) else 0)
      \<and> ?I (fold (\<lambda>(c, w). for_loop bs (\<lambda>k u.
               u\<lparr>bv_x := (bv_x u)(bs * c + k := bv_x u (bs * c + k) + w * bv_dep u (bs * d + k))\<rparr>)) cs u)"
    if "?I u" for cs d u
    by (rule fold_additive[where h = "\<lambda>v. bv_x v idx" and I = ?I]) (use that inner in auto)
  have outer: "bv_x (endSetValues_ADD bs dep v) idx =
     bv_x v idx + (\<Sum>d<length dep. \<Sum>(c, w)\<leftarrow>dep ! d. \<Sum>k<bs.
        if bs * c + k = idx then w * bv_dep v (bs * d + k) else 0) \<and> ?I (endSetValues_ADD bs dep v)"
    unfolding endSetValues_ADD_def
    by (rule for_loop_additive[where h = "\<lambda>v. bv_x v idx" and I = ?I]) (use mid in auto)
  show "bv_x (endSetValues_ADD bs dep v) idx =
     bv_x v idx + (\<Sum>d<length dep. \<Sum>(c, w)\<leftarrow>dep ! d. \<Sum>k<bs.
        if bs * c + k = idx then w * bv_dep v (bs * d + k) else 0)"
    using outer by blast
  show "bv_dep (endSetValues_ADD bs dep v) = bv_dep v" using outer by blast
qed

lemma for_loop_preserve:
  assumes "\<And>i u. i < n \<Longrightarrow> h (F i u) = h u"
  shows "h (for_loop n F v) = h v"
  using assms by (induction n) auto

lemma endDistributeValues_x: "bv_x (endDistributeValues bs dep v) = bv_x v"
  unfolding endDistributeValues_def
  by (rule for_loop_preserve, rule for_loop_preserve) simp

section \<open>The nodal-derivative projector\<close>

lemma block_index_eq:
  fixes bs :: nat
  assumes "k < bs" "j < bs"
  shows "bs * a + k = bs * n + j \<longleftrightarrow> a = n \<and> k = j"
proof
  assume e: "bs * a + k = bs * n + j"
  have "(bs * a + k) div bs = a" "(bs * n + j) div bs = n" using assms by simp_all
  then have "a = n" using e by simp
  then show "a = n \<and> k = j" using e by simp
qed simp

lemma sum_block_index:
  fixes f :: "nat \<Rightarrow> real"
  assumes "j < bs"
  shows "(\<Sum>k<bs. if A \<and> bs * a + k = bs * n + j then f k else 0) = (if A \<and> a = n then f j else 0)"
proof -
  have "(\<Sum>k<bs. if A \<and> bs * a + k = bs * n + j then f k else 0)
      = (\<Sum>k<bs. if k = j then (if A \<and> a = n then f k else 0) else 0)"
    by (rule sum.cong) (use assms block_index_eq[of _ bs j a n] in auto)
  also have "\<dots> = (if A \<and> a = n then f j else 0)"
    using assms by (simp add: sum.delta')
  finally show ?thesis .
qed

lemma deriv_index:
  fixes vpn :: nat
  assumes "k < 3 * vpn"
  shows "(3 * vpn * i + k) div 3 div vpn = i" "(3 * vpn * i + k) div 3 mod vpn = k div 3"
    "(3 * vpn * i + k) mod 3 = k mod 3" "3 * (k div 3) + k mod 3 = k"
proof -
  have a: "(3 * vpn * i + k) div 3 = vpn * i + k div 3"
    by (simp add: mult.assoc)
  have b: "k div 3 < vpn" using assms by (simp add: less_mult_imp_div_less mult.commute)
  show "(3 * vpn * i + k) div 3 div vpn = i" using a b by simp
  show "(3 * vpn * i + k) div 3 mod vpn = k div 3" using a b by simp
  show "(3 * vpn * i + k) mod 3 = k mod 3" by (simp add: mult.assoc)
  show "3 * (k div 3) + k mod 3 = k" by simp
qed

lemma nodeDeriv3D_element_at:
  assumes "i < interp_order forest * interp_order forest * interp_order forest" and "k < 3 * vpn"
  shows "nodeDeriv3D_element ext forest vpn nodes welem uelem Xpts delem0 (3 * vpn * i + k) =
    (if 0 \<le> nodes ! i
     then 1 / welem i *
          nodeGradient3D ext forest vpn Xpts uelem (i mod interp_order forest)
            ((i div interp_order forest) mod interp_order forest)
            (i div (interp_order forest * interp_order forest)) k
     else 0)"
proof -
  let ?M = "interp_order forest * interp_order forest * interp_order forest"
  have "3 * vpn * i + k < 3 * vpn * i + 3 * vpn" using assms(2) by simp
  also have "\<dots> = 3 * vpn * (i + 1)" by simp
  also have "\<dots> \<le> 3 * vpn * ?M" using assms(1) by (intro mult_le_mono2) simp
  finally have lt: "3 * vpn * i + k < 3 * (?M * vpn)" by (simp add: mult.commute mult.left_commute)
  show ?thesis
    unfolding nodeDeriv3D_element_closed Let_def
    using lt by (simp only: if_True deriv_index[OF assms(2)])
qed

lemma sum_if_mult:
  fixes a :: real
  shows "(\<Sum>p<M. if c p then a * g p else 0) = a * (\<Sum>p<M. if c p then g p else 0)"
  unfolding sum_distrib_left by (rule sum.cong) auto

lemma fold_procs_additive:
  fixes h :: "'s \<Rightarrow> real"
  assumes "\<And>es nums e u. (es, nums) \<in> set zs \<Longrightarrow> e \<in> set (loop_elements es nums) \<Longrightarrow>
             h (G e u) = h u + c e"
  shows "h (fold (\<lambda>(es, nums). fold G (loop_elements es nums)) zs v) =
         h v + (\<Sum>(es, nums)\<leftarrow>zs. \<Sum>e\<leftarrow>loop_elements es nums. c e)"
proof -
  have inner: "h (fold G (loop_elements es nums) u) = h u + (\<Sum>e\<leftarrow>loop_elements es nums. c e)"
    if "(es, nums) \<in> set zs" for es nums u
    using fold_additive[where h = h and I = "\<lambda>_. True" and F = G and c = c
        and xs = "loop_elements es nums" and v = u] assms[OF that]
    by simp
  show ?thesis
    using fold_additive[where h = h and I = "\<lambda>_. True" and xs = zs and v = v
        and F = "\<lambda>(es, nums). fold G (loop_elements es nums)"
        and c = "\<lambda>(es, nums). \<Sum>e\<leftarrow>loop_elements es nums. c e"] inner
    by (auto simp: case_prod_unfold)
qed

lemma computeNodeDeriv3D_unfold:
  "computeNodeDeriv3D ext forest tacs uvec weights element_nums =
     endDistributeValues (3 * varsPerNode tacs) (depNodes tacs)
       (endSetValues_ADD (3 * varsPerNode tacs) (depNodes tacs)
         (fold (\<lambda>(es, nums). fold (\<lambda>e. setValues_ADD (3 * varsPerNode tacs) (el_nodes e)
              (nodeDeriv3D_element ext forest (varsPerNode tacs) (el_nodes e)
                 (getValues 1 weights (el_nodes e)) (getValues (varsPerNode tacs) uvec (el_nodes e))
                 ((!) (el_Xpts e)) (uninit ext))) (loop_elements es nums))
            (zip (procs tacs) element_nums) zeroEntries))"
  by (simp add: computeNodeDeriv3D_def Let_def)

lemma computeNodeDeriv3D_sum:
  fixes forest tacs ext uvec weights element_nums
  defines "o1 \<equiv> interp_order forest"
  defines "vpn \<equiv> varsPerNode tacs"
  defines "grad \<equiv> \<lambda>e p. nodeGradient3D ext forest vpn ((!) (el_Xpts e))
                      (getValues vpn uvec (el_nodes e)) (p mod o1) ((p div o1) mod o1) (p div (o1 * o1))"
  assumes len: "\<forall>(es, nums) \<in> set (zip (procs tacs) element_nums).
                  \<forall>e \<in> set (loop_elements es nums). length (el_nodes e) = o1 * o1 * o1"
    and k: "k < vpn" and t: "t < 3" and w: "0 < bv_x weights n"
  shows "bv_x (computeNodeDeriv3D ext forest tacs uvec weights element_nums) (3 * vpn * n + (3 * k + t)) =
           1 / bv_x weights n *
           (\<Sum>(es, nums)\<leftarrow>zip (procs tacs) element_nums. \<Sum>e\<leftarrow>loop_elements es nums.
              \<Sum>p<o1 * o1 * o1. if el_nodes e ! p = int n then grad e p (3 * k + t) else 0)"
    and "\<forall>(es, nums) \<in> set (zip (procs tacs) element_nums). \<forall>e \<in> set (loop_elements es nums).
           \<forall>p < o1 * o1 * o1. \<forall>j < 3 * vpn. el_nodes e ! p < 0 \<longrightarrow>
             nodeDeriv3D_element ext forest vpn (el_nodes e) (getValues 1 weights (el_nodes e))
               (getValues vpn uvec (el_nodes e)) ((!) (el_Xpts e)) (uninit ext) (3 * vpn * p + j) = 0"
proof -
  let ?bs = "3 * vpn"
  let ?zs = "zip (procs tacs) element_nums"
  let ?delem = "\<lambda>e. nodeDeriv3D_element ext forest vpn (el_nodes e) (getValues 1 weights (el_nodes e))
               (getValues vpn uvec (el_nodes e)) ((!) (el_Xpts e)) (uninit ext)"
  let ?U = "fold (\<lambda>(es, nums). fold (\<lambda>e. setValues_ADD ?bs (el_nodes e) (?delem e)) (loop_elements es nums))
            ?zs zeroEntries"
  have j: "3 * k + t < ?bs" using k t by linarith
  have at: "?delem e (?bs * p + j) =
      (if 0 \<le> el_nodes e ! p then 1 / getValues 1 weights (el_nodes e) p * grad e p j else 0)"
    if "p < o1 * o1 * o1" "j < ?bs" for e p j
    using nodeDeriv3D_element_at[of p forest j vpn] that unfolding o1_def grad_def by simp
  show dep0: "\<forall>(es, nums) \<in> set ?zs. \<forall>e \<in> set (loop_elements es nums).
           \<forall>p < o1 * o1 * o1. \<forall>j < 3 * vpn. el_nodes e ! p < 0 \<longrightarrow> ?delem e (3 * vpn * p + j) = 0"
    using at by auto
  have U_dep: "bv_dep ?U idx = 0" for idx
  proof -
    have "bv_dep ?U idx = bv_dep zeroEntries idx + (\<Sum>(es, nums)\<leftarrow>?zs. \<Sum>e\<leftarrow>loop_elements es nums. 0)"
    proof (rule fold_procs_additive)
      fix es nums e u
      assume in1: "(es, nums) \<in> set ?zs" and in2: "e \<in> set (loop_elements es nums)"
      have l: "length (el_nodes e) = o1 * o1 * o1" using len in1 in2 by blast
      have "(\<Sum>i<length (el_nodes e). \<Sum>k<?bs.
              if el_nodes e ! i < 0 \<and> ?bs * nat (- el_nodes e ! i - 1) + k = idx
              then ?delem e (?bs * i + k) else 0) = 0"
        by (intro sum.neutral ballI) (use at l in auto)
      then show "bv_dep (setValues_ADD ?bs (el_nodes e) (?delem e) u) idx = bv_dep u idx + 0"
        by (simp only: setValues_ADD_dep)
    qed
    moreover have "(\<Sum>(es, nums)\<leftarrow>?zs. \<Sum>e\<leftarrow>loop_elements es nums. (0::real)) = 0"
      by (simp add: case_prod_unfold)
    ultimately show ?thesis by (simp only: zeroEntries_def bvec.simps add_0_right)
  qed
  have U_x: "bv_x ?U (?bs * n + (3 * k + t)) =
      (\<Sum>(es, nums)\<leftarrow>?zs. \<Sum>e\<leftarrow>loop_elements es nums.
         \<Sum>p<o1 * o1 * o1. if el_nodes e ! p = int n then 1 / bv_x weights n * grad e p (3 * k + t) else 0)"
  proof -
    have "bv_x ?U (?bs * n + (3 * k + t)) = bv_x zeroEntries (?bs * n + (3 * k + t)) +
      (\<Sum>(es, nums)\<leftarrow>?zs. \<Sum>e\<leftarrow>loop_elements es nums.
         \<Sum>p<o1 * o1 * o1. if el_nodes e ! p = int n then 1 / bv_x weights n * grad e p (3 * k + t) else 0)"
    proof (rule fold_procs_additive)
      fix es nums e u
      assume in1: "(es, nums) \<in> set ?zs" and in2: "e \<in> set (loop_elements es nums)"
      have l: "length (el_nodes e) = o1 * o1 * o1" using len in1 in2 by blast
      have "(\<Sum>i<length (el_nodes e). \<Sum>k'<?bs.
              if 0 \<le> el_nodes e ! i \<and> ?bs * nat (el_nodes e ! i) + k' = ?bs * n + (3 * k + t)
              then ?delem e (?bs * i + k') else 0)
          = (\<Sum>i<o1 * o1 * o1. if 0 \<le> el_nodes e ! i \<and> nat (el_nodes e ! i) = n
              then ?delem e (?bs * i + (3 * k + t)) else 0)"
        unfolding l by (rule sum.cong[OF refl]) (rule sum_block_index[OF j])
      also have "\<dots> = (\<Sum>p<o1 * o1 * o1. if el_nodes e ! p = int n
              then 1 / bv_x weights n * grad e p (3 * k + t) else 0)"
      proof (rule sum.cong[OF refl])
        fix p assume "p \<in> {..<o1 * o1 * o1}"
        then have p: "p < o1 * o1 * o1" by simp
        have c: "(0 \<le> el_nodes e ! p \<and> nat (el_nodes e ! p) = n) \<longleftrightarrow> el_nodes e ! p = int n"
          by auto
        show "(if 0 \<le> el_nodes e ! p \<and> nat (el_nodes e ! p) = n
                then ?delem e (?bs * p + (3 * k + t)) else 0) =
              (if el_nodes e ! p = int n then 1 / bv_x weights n * grad e p (3 * k + t) else 0)"
          unfolding c at[OF p j] by (simp add: getValues_def)
      qed
      finally show "bv_x (setValues_ADD ?bs (el_nodes e) (?delem e) u) (?bs * n + (3 * k + t)) =
          bv_x u (?bs * n + (3 * k + t)) +
          (\<Sum>p<o1 * o1 * o1. if el_nodes e ! p = int n then 1 / bv_x weights n * grad e p (3 * k + t) else 0)"
        by (simp only: setValues_ADD_x)
    qed
    then show ?thesis by (simp add: zeroEntries_def)
  qed
  have "bv_x (computeNodeDeriv3D ext forest tacs uvec weights element_nums) (?bs * n + (3 * k + t))
      = bv_x ?U (?bs * n + (3 * k + t))"
    unfolding computeNodeDeriv3D_unfold vpn_def[symmetric] endDistributeValues_x
      endSetValues_ADD_x U_dep
    by (simp add: case_prod_unfold cong: if_cong)
  also have "\<dots> = 1 / bv_x weights n *
           (\<Sum>(es, nums)\<leftarrow>?zs. \<Sum>e\<leftarrow>loop_elements es nums.
              \<Sum>p<o1 * o1 * o1. if el_nodes e ! p = int n then grad e p (3 * k + t) else 0)"
  proof -
    have "(\<Sum>(es, nums)\<leftarrow>?zs. \<Sum>e\<leftarrow>loop_elements es nums.
         \<Sum>p<o1 * o1 * o1. if el_nodes e ! p = int n then 1 / bv_x weights n * grad e p (3 * k + t) else 0)
       = 1 / bv_x weights n *
           (\<Sum>(es, nums)\<leftarrow>?zs. \<Sum>e\<leftarrow>loop_elements es nums.
              \<Sum>p<o1 * o1 * o1. if el_nodes e ! p = int n then grad e p (3 * k + t) else 0)"
      unfolding sum_if_mult case_prod_unfold sum_list_const_mult ..
    then show ?thesis by (simp only: U_x)
  qed
  finally show "bv_x (computeNodeDeriv3D ext forest tacs uvec weights element_nums) (3 * vpn * n + (3 * k + t)) =
           1 / bv_x weights n *
           (\<Sum>(es, nums)\<leftarrow>?zs. \<Sum>e\<leftarrow>loop_elements es nums.
              \<Sum>p<o1 * o1 * o1. if el_nodes e ! p = int n then grad e p (3 * k + t) else 0)" .
qed

section \<open>Loops that write cells\<close>

lemma for_loop_counter3:
  "for_loop n (\<lambda>p (c, a). (c + 3, G p c a)) (0, a0) = (3 * n, for_loop n (\<lambda>p. G p (3 * p)) a0)"
  by (induction n) simp_all

lemma loop_cell_value:
  assumes "p < n"
    and "\<And>a. body p a idx = v"
    and "\<And>q a. p < q \<Longrightarrow> q < n \<Longrightarrow> body q a idx = a idx"
  shows "for_loop n body a0 idx = v"
  using assms
proof (induction n)
  case 0
  then show ?case by simp
next
  case (Suc n)
  show ?case
  proof (cases "p = n")
    case True
    then show ?thesis using Suc.prems(2) by simp
  next
    case False
    then have pn: "p < n" using Suc.prems(1) by simp
    have "body n (for_loop n body a0) idx = for_loop n body a0 idx"
      using Suc.prems(3)[OF pn] by simp
    also have "\<dots> = v" using Suc.IH[OF pn Suc.prems(2)] Suc.prems(3) by simp
    finally show ?thesis by simp
  qed
qed

lemma for_loop_upd3_other:
  fixes c :: "nat \<Rightarrow> nat" and a0 :: rarr
  assumes "\<forall>k<n. idx < c k \<or> c k + 3 \<le> idx"
  shows "for_loop n (\<lambda>k a. a(c k := F k 0 (a (c k)), c k + 1 := F k 1 (a (c k + 1)),
                             c k + 2 := F k 2 (a (c k + 2)))) a0 idx = a0 idx"
  using assms
proof (induction n)
  case 0
  show ?case by simp
next
  case (Suc n)
  have "idx < c n \<or> c n + 3 \<le> idx" using Suc.prems by simp
  then have "idx \<noteq> c n" "idx \<noteq> c n + 1" "idx \<noteq> c n + 2" by auto
  then show ?case using Suc by simp
qed

lemma for_loop_upd3_cell:
  fixes c :: "nat \<Rightarrow> nat" and a0 :: rarr
  assumes "k < n" "t < 3"
    and "\<forall>k'<n. k' \<noteq> k \<longrightarrow> c k + t < c k' \<or> c k' + 3 \<le> c k + t"
  shows "for_loop n (\<lambda>k a. a(c k := F k 0 (a (c k)), c k + 1 := F k 1 (a (c k + 1)),
                             c k + 2 := F k 2 (a (c k + 2)))) a0 (c k + t) = F k t (a0 (c k + t))"
  using assms
proof (induction n)
  case 0
  then show ?case by simp
next
  case (Suc n)
  define L where "L = for_loop n (\<lambda>k a. a(c k := F k 0 (a (c k)), c k + 1 := F k 1 (a (c k + 1)),
                             c k + 2 := F k 2 (a (c k + 2)))) a0"
  have step: "for_loop (Suc n) (\<lambda>k a. a(c k := F k 0 (a (c k)), c k + 1 := F k 1 (a (c k + 1)),
                             c k + 2 := F k 2 (a (c k + 2)))) a0
      = L(c n := F n 0 (L (c n)), c n + 1 := F n 1 (L (c n + 1)), c n + 2 := F n 2 (L (c n + 2)))"
    by (simp only: for_loop_Suc L_def)
  show ?case
  proof (cases "k = n")
    case True
    have old: "L (c n + t) = a0 (c n + t)"
      unfolding L_def
    proof (rule for_loop_upd3_other, intro allI impI)
      fix k' assume k': "k' < n"
      show "c n + t < c k' \<or> c k' + 3 \<le> c n + t"
        using Suc.prems(3)[rule_format, of k'] k' True by auto
    qed
    consider "t = 0" | "t = 1" | "t = 2" using Suc.prems(2) by linarith
    then show ?thesis
    proof cases
      case 1 then show ?thesis unfolding step using True old by simp
    next
      case 2 then show ?thesis unfolding step using True old by simp
    next
      case 3 then show ?thesis unfolding step using True old by simp
    qed
  next
    case False
    then have kn: "k < n" using Suc.prems(1) by simp
    have "c k + t < c n \<or> c n + 3 \<le> c k + t" using Suc.prems(3) False by simp
    then have ne: "c k + t \<noteq> c n" "c k + t \<noteq> c n + 1" "c k + t \<noteq> c n + 2" by auto
    have "L (c k + t) = F k t (a0 (c k + t))"
      unfolding L_def
      by (rule Suc.IH[OF kn Suc.prems(2)]) (use Suc.prems(3) in auto)
    then show ?thesis unfolding step using ne by simp
  qed
qed

lemma for_loop_accum3:
  fixes a0 :: rarr
  shows "for_loop M (\<lambda>i a. a(c := a c + f0 i, c + 1 := a (c + 1) + f1 i, c + 2 := a (c + 2) + f2 i)) a0
     = a0(c := a0 c + (\<Sum>i<M. f0 i), c + 1 := a0 (c + 1) + (\<Sum>i<M. f1 i), c + 2 := a0 (c + 2) + (\<Sum>i<M. f2 i))"
  by (induction M) (auto simp: fun_eq_iff)

lemma for_loop_accum9:
  fixes a0 :: rarr
  shows "for_loop n (\<lambda>i a. a
           (0 := a 0 + f0 i, 1 := a 1 + f1 i, 2 := a 2 + f2 i,
            3 := a 3 + f3 i, 4 := a 4 + f4 i, 5 := a 5 + f5 i,
            6 := a 6 + f6 i, 7 := a 7 + f7 i, 8 := a 8 + f8 i)) a0 =
         a0(0 := a0 0 + (\<Sum>i<n. f0 i), 1 := a0 1 + (\<Sum>i<n. f1 i), 2 := a0 2 + (\<Sum>i<n. f2 i),
            3 := a0 3 + (\<Sum>i<n. f3 i), 4 := a0 4 + (\<Sum>i<n. f4 i), 5 := a0 5 + (\<Sum>i<n. f5 i),
            6 := a0 6 + (\<Sum>i<n. f6 i), 7 := a0 7 + (\<Sum>i<n. f7 i), 8 := a0 8 + (\<Sum>i<n. f8 i))"
  by (induction n) (auto simp: fun_eq_iff)

lemma for_loop_triple_sum:
  fixes a0 b0 c0 :: real
  shows "for_loop M (\<lambda>i (a, b, c). (a + f i, b + g i, c + h i)) (a0, b0, c0)
     = (a0 + (\<Sum>i<M. f i), b0 + (\<Sum>i<M. g i), c0 + (\<Sum>i<M. h i))"
  by (induction M) auto

lemma block_step:
  fixes k k' neq :: nat
  assumes "k < k'"
  shows "neq * k + neq \<le> neq * k'"
proof -
  have "neq * Suc k \<le> neq * k'" using assms by (intro mult_le_mono2) simp
  then show ?thesis by simp
qed

lemma recon_point_rows:
  fixes B neq c vpn nenrich :: nat and tmp :: rarr and f g h :: "nat \<Rightarrow> nat \<Rightarrow> real"
  assumes c: "c + 3 \<le> neq" and B: "B = nenrich * neq"
  defines "tmp1 \<equiv> for_loop vpn (\<lambda>k tmp. tmp
                 (B + (neq * k + c) := f k 0,
                  B + (neq * k + c + 1) := f k 1,
                  B + (neq * k + c + 2) := f k 2)) tmp"
  defines "tmp2 \<equiv> for_loop vpn (\<lambda>k tmp.
                 tmp(B + (neq * k + c) := tmp (B + (neq * k + c)) - g k 0,
                     B + (neq * k + c + 1) := tmp (B + (neq * k + c + 1)) - g k 1,
                     B + (neq * k + c + 2) := tmp (B + (neq * k + c + 2)) - g k 2)) tmp1"
  defines "tmp3 \<equiv> for_loop nenrich (\<lambda>i tmp. tmp
          (neq * i + c := h i 0,
           neq * i + c + 1 := h i 1,
           neq * i + c + 2 := h i 2)) tmp2"
  shows "k < vpn \<Longrightarrow> t < 3 \<Longrightarrow> tmp3 (B + (neq * k + c + t)) = f k t - g k t"
    and "B \<le> idx \<Longrightarrow> (\<forall>k<vpn. idx < B + (neq * k + c) \<or> B + (neq * k + c) + 3 \<le> idx) \<Longrightarrow>
         tmp3 idx = tmp idx"
proof -
  define cc where "cc = (\<lambda>k. B + (neq * k + c))"
  have e1: "tmp1 = for_loop vpn (\<lambda>k a. a(cc k := (\<lambda>_. f k 0) (a (cc k)),
       cc k + 1 := (\<lambda>_. f k 1) (a (cc k + 1)), cc k + 2 := (\<lambda>_. f k 2) (a (cc k + 2)))) tmp"
    unfolding tmp1_def cc_def by (simp add: add.assoc)
  have e2: "tmp2 = for_loop vpn (\<lambda>k a. a(cc k := (\<lambda>x. x - g k 0) (a (cc k)),
       cc k + 1 := (\<lambda>x. x - g k 1) (a (cc k + 1)), cc k + 2 := (\<lambda>x. x - g k 2) (a (cc k + 2)))) tmp1"
    unfolding tmp2_def cc_def by (simp add: add.assoc)
  have e3: "tmp3 = for_loop nenrich (\<lambda>i a. a(neq * i + c := (\<lambda>_. h i 0) (a (neq * i + c)),
       neq * i + c + 1 := (\<lambda>_. h i 1) (a (neq * i + c + 1)),
       neq * i + c + 2 := (\<lambda>_. h i 2) (a (neq * i + c + 2)))) tmp2"
    unfolding tmp3_def by simp
  have A_below: "neq * i + c + 3 \<le> B" if "i < nenrich" for i
  proof -
    have "neq * i + neq \<le> neq * nenrich" using that by (rule block_step)
    then show ?thesis using c B by (simp add: mult.commute)
  qed
  have t3: "tmp3 idx = tmp2 idx" if "B \<le> idx" for idx
    unfolding e3
    by (rule for_loop_upd3_other) (use A_below that in fastforce)
  have sep: "cc k + t < cc k' \<or> cc k' + 3 \<le> cc k + t" if "k' \<noteq> k" "t < 3" for k k' t
  proof (cases "k < k'")
    case True
    from block_step[OF this, of neq] show ?thesis using c that unfolding cc_def by linarith
  next
    case False
    then have "k' < k" using that by simp
    from block_step[OF this, of neq] show ?thesis using c that unfolding cc_def by linarith
  qed
  {
    assume k: "k < vpn" and t: "t < 3"
    have idx: "B + (neq * k + c + t) = cc k + t" by (simp add: cc_def)
    have "tmp3 (cc k + t) = tmp2 (cc k + t)" by (rule t3) (simp add: cc_def)
    also have "\<dots> = tmp1 (cc k + t) - g k t"
      unfolding e2 by (rule for_loop_upd3_cell[OF k t]) (use sep t in blast)
    also have "tmp1 (cc k + t) = f k t"
      unfolding e1 by (rule for_loop_upd3_cell[OF k t]) (use sep t in blast)
    finally show "tmp3 (B + (neq * k + c + t)) = f k t - g k t" unfolding idx .
  }
  {
    assume i: "B \<le> idx" and o: "\<forall>k<vpn. idx < B + (neq * k + c) \<or> B + (neq * k + c) + 3 \<le> idx"
    have "tmp3 idx = tmp2 idx" by (rule t3[OF i])
    also have "\<dots> = tmp1 idx" unfolding e2 by (rule for_loop_upd3_other) (use o in \<open>simp add: cc_def\<close>)
    also have "\<dots> = tmp idx" unfolding e1 by (rule for_loop_upd3_other) (use o in \<open>simp add: cc_def\<close>)
    finally show "tmp3 idx = tmp idx" .
  }
qed

lemma elemRecon3D_point_rows:
  fixes forest refined_forest ext vpn
  defines "o1 \<equiv> interp_order forest"
  defines "neq \<equiv> 3 * o1 * o1 * o1"
  defines "B \<equiv> getNum3dEnrich o1 * neq"
  assumes c: "c + 3 \<le> neq"
  shows "k < vpn \<Longrightarrow> t < 3 \<Longrightarrow>
         elemRecon3D_point ext vpn forest refined_forest Xpts uvals uderiv ii jj kk c tmp
           (B + (neq * k + c + t)) =
         recon3D_rhs_entry ext vpn forest refined_forest Xpts uvals uderiv ii jj kk k t"
    and "B \<le> idx \<Longrightarrow> (\<forall>k<vpn. idx < B + (neq * k + c) \<or> B + (neq * k + c) + 3 \<le> idx) \<Longrightarrow>
         elemRecon3D_point ext vpn forest refined_forest Xpts uvals uderiv ii jj kk c tmp idx = tmp idx"
proof -
  obtain N Na Nb Nc where r: "evalInterp refined_forest
      [interp_knots forest ! ii, interp_knots forest ! jj, interp_knots forest ! kk] = (N, Na, Nb, Nc)"
    by (metis prod_cases4)
  obtain detJ Xd J where jac: "computeJacobianTrans3D ext Xpts Na Nb Nc
      (interp_order refined_forest * interp_order refined_forest * interp_order refined_forest) = (detJ, Xd, J)"
    by (metis prod_cases3)
  obtain N' Na' Nb' Nc' where f: "evalInterp forest
      [interp_knots forest ! ii, interp_knots forest ! jj, interp_knots forest ! kk] = (N', Na', Nb', Nc')"
    by (metis prod_cases4)
  obtain Nr Nar Nbr Ncr where e: "evalEnrichment3D ext o1
      [interp_knots forest ! ii, interp_knots forest ! jj, interp_knots forest ! kk] = (Nr, Nar, Nbr, Ncr)"
    by (metis prod_cases4)
  define w where "w = wvals3D ext o1 ii * wvals3D ext o1 jj * wvals3D ext o1 kk"
  define ud where "ud = 3 * vpn * (ii + o1 * jj + o1 * o1 * kk)"
  define fu where "fu = (\<lambda>k t. w * uderiv (ud + 3 * k + t))"
  define g where "g = (\<lambda>k t. w * interpDeriv3D vpn o1 uvals Na' Nb' Nc' J k t)"
  define h where "h = (\<lambda>i (t::nat).
      if t = 0 then w * (Nar ! i * J 0 + Nbr ! i * J 1 + Ncr ! i * J 2)
      else if t = 1 then w * (Nar ! i * J 3 + Nbr ! i * J 4 + Ncr ! i * J 5)
      else w * (Nar ! i * J 6 + Nbr ! i * J 7 + Ncr ! i * J 8))"
  have P: "elemRecon3D_point ext vpn forest refined_forest Xpts uvals uderiv ii jj kk c tmp =
      for_loop (getNum3dEnrich o1) (\<lambda>i tmp. tmp
          (neq * i + c := h i 0, neq * i + c + 1 := h i 1, neq * i + c + 2 := h i 2))
       (for_loop vpn (\<lambda>k tmp.
                 tmp(B + (neq * k + c) := tmp (B + (neq * k + c)) - g k 0,
                     B + (neq * k + c + 1) := tmp (B + (neq * k + c + 1)) - g k 1,
                     B + (neq * k + c + 2) := tmp (B + (neq * k + c + 2)) - g k 2))
         (for_loop vpn (\<lambda>k tmp. tmp
                 (B + (neq * k + c) := fu k 0,
                  B + (neq * k + c + 1) := fu k 1,
                  B + (neq * k + c + 2) := fu k 2)) tmp))"
    unfolding elemRecon3D_point_def Let_def o1_def[symmetric] r jac f e split_conv
      neq_def[symmetric] B_def[symmetric] w_def[symmetric] ud_def[symmetric]
    by (simp add: fu_def g_def h_def)
  have R: "recon3D_rhs_entry ext vpn forest refined_forest Xpts uvals uderiv ii jj kk k t = fu k t - g k t"
    for k t
    unfolding recon3D_rhs_entry_def Let_def o1_def[symmetric] r jac f split_conv
      w_def[symmetric] ud_def[symmetric]
    by (simp add: fu_def g_def)
  show "k < vpn \<Longrightarrow> t < 3 \<Longrightarrow>
         elemRecon3D_point ext vpn forest refined_forest Xpts uvals uderiv ii jj kk c tmp
           (B + (neq * k + c + t)) =
         recon3D_rhs_entry ext vpn forest refined_forest Xpts uvals uderiv ii jj kk k t"
    unfolding P R by (rule recon_point_rows(1)[OF c]) (simp_all add: B_def)
  show "B \<le> idx \<Longrightarrow> (\<forall>k<vpn. idx < B + (neq * k + c) \<or> B + (neq * k + c) + 3 \<le> idx) \<Longrightarrow>
         elemRecon3D_point ext vpn forest refined_forest Xpts uvals uderiv ii jj kk c tmp idx = tmp idx"
    unfolding P by (rule recon_point_rows(2)[OF c]) (simp_all add: B_def)
qed

lemma elemRecon3D_assemble_unfold:
  "elemRecon3D_assemble ext vpn forest refined_forest Xpts uvals uderiv tmp =
     for_loop (interp_order forest * interp_order forest * interp_order forest)
       (\<lambda>p. elemRecon3D_point ext vpn forest refined_forest Xpts uvals uderiv
              (p mod interp_order forest) ((p div interp_order forest) mod interp_order forest)
              (p div (interp_order forest * interp_order forest)) (3 * p)) tmp"
  unfolding elemRecon3D_assemble_def Let_def
  by (subst for_loop_nest3) (simp add: for_loop_counter3)

lemma elemRecon3D_assemble_rhs:
  fixes forest refined_forest ext vpn
  defines "o1 \<equiv> interp_order forest"
  defines "neq \<equiv> 3 * o1 * o1 * o1"
  defines "B \<equiv> getNum3dEnrich o1 * neq"
  assumes p: "p < o1 * o1 * o1" and k: "k < vpn" and t: "t < 3"
  shows "elemRecon3D_assemble ext vpn forest refined_forest Xpts uvals uderiv tmp
           (B + (neq * k + 3 * p + t)) =
         recon3D_rhs_entry ext vpn forest refined_forest Xpts uvals uderiv
           (p mod o1) ((p div o1) mod o1) (p div (o1 * o1)) k t"
proof -
  have neq3: "neq = 3 * (o1 * o1 * o1)" by (simp add: neq_def mult.assoc)
  have c3: "3 * q + 3 \<le> neq" if "q < o1 * o1 * o1" for q using that unfolding neq3 by simp
  have r: "3 * p + t < neq" using c3[OF p] t by simp
  show ?thesis
    unfolding elemRecon3D_assemble_unfold o1_def[symmetric]
  proof (rule loop_cell_value[OF p])
    fix a
    show "elemRecon3D_point ext vpn forest refined_forest Xpts uvals uderiv (p mod o1)
       (p div o1 mod o1) (p div (o1 * o1)) (3 * p) a (B + (neq * k + 3 * p + t)) =
      recon3D_rhs_entry ext vpn forest refined_forest Xpts uvals uderiv (p mod o1)
       (p div o1 mod o1) (p div (o1 * o1)) k t"
      using elemRecon3D_point_rows(1)[of "3 * p" forest k vpn t ext refined_forest Xpts uvals uderiv]
        c3[OF p] k t
      unfolding o1_def neq_def B_def by simp
  next
    fix q a
    assume pq: "p < q" and q: "q < o1 * o1 * o1"
    have sep: "\<forall>k'<vpn. B + (neq * k + 3 * p + t) < B + (neq * k' + 3 * q) \<or>
                B + (neq * k' + 3 * q) + 3 \<le> B + (neq * k + 3 * p + t)"
    proof (intro allI impI)
      fix k' assume "k' < vpn"
      consider "k' = k" | "k < k'" | "k' < k" by linarith
      then show "B + (neq * k + 3 * p + t) < B + (neq * k' + 3 * q) \<or>
                B + (neq * k' + 3 * q) + 3 \<le> B + (neq * k + 3 * p + t)"
      proof cases
        case 1 then show ?thesis using pq t by simp
      next
        case 2
        from block_step[OF this, of neq] show ?thesis using r by linarith
      next
        case 3
        from block_step[OF this, of neq] show ?thesis using c3[OF q] by linarith
      qed
    qed
    show "elemRecon3D_point ext vpn forest refined_forest Xpts uvals uderiv (q mod o1)
          (q div o1 mod o1) (q div (o1 * o1)) (3 * q) a (B + (neq * k + 3 * p + t)) =
         a (B + (neq * k + 3 * p + t))"
      using elemRecon3D_point_rows(2)[of "3 * q" forest "B + (neq * k + 3 * p + t)" vpn ext
          refined_forest Xpts uvals uderiv] c3[OF q] sep
      unfolding o1_def neq_def B_def by simp
  qed
qed

lemma for_loop_id:
  assumes "\<And>i u. i < n \<Longrightarrow> F i u = u"
  shows "for_loop n F v = v"
  using assms by (induction n) auto

lemma add_value_zero: "add_value bs n k 0 v = v"
  by (simp add: add_value_def)

lemma setValues_ADD_zero:
  assumes "\<And>i k. i < length nodes \<Longrightarrow> k < bs \<Longrightarrow> vals (bs * i + k) = 0"
  shows "setValues_ADD bs nodes vals v = v"
  unfolding setValues_ADD_def
  by (rule for_loop_id, rule for_loop_id) (simp add: assms add_value_zero)

lemma for_loop_invariant:
  assumes "P v" and "\<And>i u. i < n \<Longrightarrow> P u \<Longrightarrow> P (F i u)"
  shows "P (for_loop n F v)"
  using assms by (induction n) auto

lemma fold_invariant:
  assumes "P v" and "\<And>x u. x \<in> set xs \<Longrightarrow> P u \<Longrightarrow> P (F x u)"
  shows "P (fold F xs v)"
  using assms by (induction xs arbitrary: v) auto

lemma endSetValues_ADD_zero: "endSetValues_ADD bs dep zeroEntries = zeroEntries"
  unfolding endSetValues_ADD_def
  by (rule for_loop_invariant[where P = "\<lambda>u. u = zeroEntries"], simp,
      rule fold_invariant[where P = "\<lambda>u. u = zeroEntries"], simp, clarify,
      rule for_loop_invariant[where P = "\<lambda>u. u = zeroEntries"])
     (auto simp: zeroEntries_def)

lemma endDistributeValues_zero: "endDistributeValues bs dep zeroEntries = zeroEntries"
  unfolding endDistributeValues_def
  by (rule for_loop_invariant[where P = "\<lambda>u. u = zeroEntries"], simp,
      rule for_loop_invariant[where P = "\<lambda>u. u = zeroEntries"])
     (auto simp: zeroEntries_def case_prod_unfold)

lemma nodeGradient3D_constant:
  assumes s: "derivs_sum_to_zero forest (interp_order forest * interp_order forest * interp_order forest)"
    and u: "\<And>idx. uelem idx = c"
  shows "nodeGradient3D ext forest vpn Xpts uelem ii jj kk idx = 0"
proof -
  let ?M = "interp_order forest * interp_order forest * interp_order forest"
  obtain N Na Nb Nc where e: "evalInterp forest
      [interp_knots forest ! ii, interp_knots forest ! jj, interp_knots forest ! kk] = (N, Na, Nb, Nc)"
    by (metis prod_cases4)
  obtain detJ Xd J where j: "computeJacobianTrans3D ext Xpts Na Nb Nc ?M = (detJ, Xd, J)"
    by (metis prod_cases3)
  have z: "(\<Sum>i<?M. Na ! i) = 0" "(\<Sum>i<?M. Nb ! i) = 0" "(\<Sum>i<?M. Nc ! i) = 0"
    using s[unfolded derivs_sum_to_zero_def, rule_format, of "[interp_knots forest ! ii,
        interp_knots forest ! jj, interp_knots forest ! kk]"] unfolding e by simp_all
  have zs: "(\<Sum>i<?M. c * Na ! i) = 0" "(\<Sum>i<?M. c * Nb ! i) = 0" "(\<Sum>i<?M. c * Nc ! i) = 0"
    using z by (simp_all flip: sum_distrib_left)
  have Ud: "for_loop vpn (\<lambda>k.
                for_loop ?M (\<lambda>i (Ud::rarr). Ud
                  (3 * k := Ud (3 * k) + uelem (k + vpn * i) * Na ! i,
                   3 * k + 1 := Ud (3 * k + 1) + uelem (k + vpn * i) * Nb ! i,
                   3 * k + 2 := Ud (3 * k + 2) + uelem (k + vpn * i) * Nc ! i)))
              (\<lambda>_. 0) = (\<lambda>_. 0)"
  proof (rule for_loop_invariant[where P = "\<lambda>u. u = (\<lambda>_. 0)"])
    fix k and Ud :: rarr
    assume "Ud = (\<lambda>_. 0)"
    then show "for_loop ?M (\<lambda>i (Ud::rarr). Ud
                  (3 * k := Ud (3 * k) + uelem (k + vpn * i) * Na ! i,
                   3 * k + 1 := Ud (3 * k + 1) + uelem (k + vpn * i) * Nb ! i,
                   3 * k + 2 := Ud (3 * k + 2) + uelem (k + vpn * i) * Nc ! i)) Ud = (\<lambda>_. 0)"
      unfolding u for_loop_accum3 zs by (simp add: fun_eq_iff)
  qed simp
  show ?thesis
    unfolding nodeGradient3D_def Let_def e j split_conv Ud by simp
qed

lemma getValues_constant_field [simp]: "getValues bs (constant_field c) nodes idx = c"
  by (simp add: getValues_def constant_field_def Let_def)

lemma getValues_zeroEntries [simp]: "getValues bs zeroEntries nodes idx = 0"
  by (simp add: getValues_def zeroEntries_def Let_def)

lemma computeNodeDeriv3D_constant:
  assumes s: "derivs_sum_to_zero forest (interp_order forest * interp_order forest * interp_order forest)"
    and len: "\<forall>(es, nums) \<in> set (zip (procs tacs) element_nums).
                \<forall>e \<in> set (loop_elements es nums).
                  length (el_nodes e) = interp_order forest * interp_order forest * interp_order forest"
  shows "computeNodeDeriv3D ext forest tacs (constant_field c) weights element_nums = zeroEntries"
proof -
  let ?vpn = "varsPerNode tacs"
  let ?M = "interp_order forest * interp_order forest * interp_order forest"
  have el: "setValues_ADD (3 * ?vpn) (el_nodes e)
              (nodeDeriv3D_element ext forest ?vpn (el_nodes e)
                 (getValues 1 weights (el_nodes e)) (getValues ?vpn (constant_field c) (el_nodes e))
                 ((!) (el_Xpts e)) (uninit ext)) u = u"
    if "length (el_nodes e) = ?M" for e u
  proof (rule setValues_ADD_zero)
    fix i k assume "i < length (el_nodes e)" "k < 3 * ?vpn"
    then have i: "i < ?M" and k: "k < 3 * ?vpn" using that by simp_all
    show "nodeDeriv3D_element ext forest ?vpn (el_nodes e)
                 (getValues 1 weights (el_nodes e)) (getValues ?vpn (constant_field c) (el_nodes e))
                 ((!) (el_Xpts e)) (uninit ext) (3 * ?vpn * i + k) = 0"
      unfolding nodeDeriv3D_element_at[OF i k]
      using nodeGradient3D_constant[OF s, where uelem = "getValues ?vpn (constant_field c) (el_nodes e)"
          and c = c]
      by simp
  qed
  have "fold (\<lambda>(es, nums). fold (\<lambda>e. setValues_ADD (3 * ?vpn) (el_nodes e)
              (nodeDeriv3D_element ext forest ?vpn (el_nodes e)
                 (getValues 1 weights (el_nodes e)) (getValues ?vpn (constant_field c) (el_nodes e))
                 ((!) (el_Xpts e)) (uninit ext))) (loop_elements es nums))
            (zip (procs tacs) element_nums) zeroEntries = zeroEntries"
  proof (rule fold_invariant[where P = "\<lambda>u. u = zeroEntries"])
    fix x u assume x: "x \<in> set (zip (procs tacs) element_nums)" and u: "u = zeroEntries"
    obtain es nums where xe: "x = (es, nums)" by (cases x)
    have "fold (\<lambda>e. setValues_ADD (3 * ?vpn) (el_nodes e)
              (nodeDeriv3D_element ext forest ?vpn (el_nodes e)
                 (getValues 1 weights (el_nodes e)) (getValues ?vpn (constant_field c) (el_nodes e))
                 ((!) (el_Xpts e)) (uninit ext))) (loop_elements es nums) u = zeroEntries"
    proof (rule fold_invariant[where P = "\<lambda>u. u = zeroEntries"])
      show "u = zeroEntries" by fact
    next
      fix e v assume e: "e \<in> set (loop_elements es nums)" and v: "v = zeroEntries"
      have "length (el_nodes e) = ?M" using len x xe e by blast
      from el[OF this, of v] show "setValues_ADD (3 * ?vpn) (el_nodes e)
              (nodeDeriv3D_element ext forest ?vpn (el_nodes e)
                 (getValues 1 weights (el_nodes e)) (getValues ?vpn (constant_field c) (el_nodes e))
                 ((!) (el_Xpts e)) (uninit ext)) v = zeroEntries"
        using v by (simp only:)
    qed
    then show "(case x of (es, nums) \<Rightarrow> fold (\<lambda>e. setValues_ADD (3 * ?vpn) (el_nodes e)
              (nodeDeriv3D_element ext forest ?vpn (el_nodes e)
                 (getValues 1 weights (el_nodes e)) (getValues ?vpn (constant_field c) (el_nodes e))
                 ((!) (el_Xpts e)) (uninit ext))) (loop_elements es nums)) u = zeroEntries"
      by (simp add: xe)
  qed simp
  then show ?thesis
    unfolding computeNodeDeriv3D_unfold
    by (simp only: endSetValues_ADD_zero endDistributeValues_zero)
qed

lemma interpDeriv3D_constant:
  assumes z: "(\<Sum>i<order * order * order. Na ! i) = 0" "(\<Sum>i<order * order * order. Nb ! i) = 0"
      "(\<Sum>i<order * order * order. Nc ! i) = 0"
    and u: "\<And>idx. uvals idx = c" and t: "t < 3"
  shows "interpDeriv3D vpn order uvals Na Nb Nc J k t = 0"
proof -
  have zs: "(\<Sum>i<order * order * order. c * Na ! i) = 0" "(\<Sum>i<order * order * order. c * Nb ! i) = 0"
    "(\<Sum>i<order * order * order. c * Nc ! i) = 0"
    using z by (simp_all flip: sum_distrib_left)
  have "interpDeriv3D vpn order uvals Na Nb Nc J k = (!) [0, 0, 0]"
    unfolding interpDeriv3D_def u for_loop_triple_sum zs by simp
  then show ?thesis using t by (auto simp: less_Suc_eq eval_nat_numeral)
qed

lemma recon3D_rhs_entry_constant:
  assumes s: "derivs_sum_to_zero forest (interp_order forest * interp_order forest * interp_order forest)"
    and u: "\<And>idx. uvals idx = c" and d: "\<And>idx. uderiv idx = 0" and t: "t < 3"
  shows "recon3D_rhs_entry ext vpn forest refined_forest Xpts uvals uderiv ii jj kk k t = 0"
proof -
  let ?M = "interp_order forest * interp_order forest * interp_order forest"
  obtain N Na Nb Nc where e: "evalInterp forest
      [interp_knots forest ! ii, interp_knots forest ! jj, interp_knots forest ! kk] = (N, Na, Nb, Nc)"
    by (metis prod_cases4)
  have z: "(\<Sum>i<?M. Na ! i) = 0" "(\<Sum>i<?M. Nb ! i) = 0" "(\<Sum>i<?M. Nc ! i) = 0"
    using s[unfolded derivs_sum_to_zero_def, rule_format, of "[interp_knots forest ! ii,
        interp_knots forest ! jj, interp_knots forest ! kk]"] unfolding e by simp_all
  show ?thesis
    unfolding recon3D_rhs_entry_def Let_def e split_conv d
    by (simp add: case_prod_unfold interpDeriv3D_constant[OF z u t])
qed

lemma for_loop_write1:
  fixes a0 :: "nat \<Rightarrow> 'a"
  shows "for_loop N (\<lambda>q a. a(q := V q)) a0 = (\<lambda>idx. if idx < N then V idx else a0 idx)"
  by (induction N) (auto simp: fun_eq_iff less_Suc_eq)

lemma for_loop_copy2:
  fixes a0 :: "nat \<Rightarrow> 'a"
  assumes "i < n1" "j < n2"
  shows "for_loop n1 (\<lambda>i. for_loop n2 (\<lambda>j a. a(n2 * i + j := V i j))) a0 (n2 * i + j) = V i j"
proof -
  have q: "n2 * i + j < n1 * n2"
  proof -
    have "n2 * i + n2 \<le> n2 * n1" using assms(1) by (rule block_step)
    then show ?thesis using assms(2) by (simp add: mult.commute)
  qed
  have "for_loop n1 (\<lambda>i. for_loop n2 (\<lambda>j a. a(n2 * i + j := V i j))) a0
        = for_loop (n1 * n2) (\<lambda>q a. a(q := V (q div n2) (q mod n2))) a0"
    by (subst for_loop_nest) simp
  then show ?thesis using q assms by (simp add: for_loop_write1)
qed

lemma computeElemRecon3D_constant:
  fixes forest refined_forest ext vpn
  defines "o1 \<equiv> interp_order forest"
  assumes s: "derivs_sum_to_zero forest (o1 * o1 * o1)"
    and z: "zero_rhs_zero_solution ext"
    and o: "o1 = 2 \<or> o1 = 3"
    and u: "\<And>idx. uvals idx = c" and d: "\<And>idx. uderiv idx = 0"
    and i: "i < getNum3dEnrich o1" and j: "j < vpn"
  shows "computeElemRecon3D ext vpn forest refined_forest Xpts uvals uderiv ubar tmp (vpn * i + j) = 0"
proof -
  define neq where "neq = 3 * o1 * o1 * o1"
  define B where "B = getNum3dEnrich o1 * neq"
  define T where "T = elemRecon3D_assemble ext vpn forest refined_forest Xpts uvals uderiv tmp"
  have neq3: "neq = 3 * (o1 * o1 * o1)" by (simp add: neq_def mult.assoc)
  have Tz: "T (B + i') = 0" if "i' < neq * vpn" for i'
  proof -
    define k where "k = i' div neq"
    define r where "r = i' mod neq"
    define p where "p = r div 3"
    define t where "t = r mod 3"
    have neq0: "0 < neq" using that by (cases "neq = 0") simp_all
    have k: "k < vpn" unfolding k_def using that by (simp add: less_mult_imp_div_less mult.commute)
    have r: "r < neq" unfolding r_def using neq0 by simp
    have p: "p < o1 * o1 * o1" unfolding p_def using r neq3 by (simp add: less_mult_imp_div_less mult.commute)
    have t: "t < 3" unfolding t_def by simp
    have "i' = neq * k + 3 * p + t" unfolding k_def r_def p_def t_def by (simp add: add.assoc)
    then show ?thesis
      unfolding T_def B_def neq_def o1_def
      using elemRecon3D_assemble_rhs[OF p[unfolded o1_def] k t, of ext refined_forest Xpts uvals uderiv tmp]
        recon3D_rhs_entry_constant[OF s[unfolded o1_def] u d t]
      by (simp add: neq_def o1_def)
  qed
  define bl where "bl = map (\<lambda>i. T (B + i)) [0..<neq * vpn]"
  have bl0: "\<forall>x \<in> set bl. x = 0" unfolding bl_def using Tz by auto
  have bll: "length bl = neq * vpn" by (simp add: bl_def)
  have sol: "LAPACKdgelss ext neq (getNum3dEnrich o1) vpn (map T [0..<neq * getNum3dEnrich o1]) bl ! idx = 0"
    if "idx < neq * vpn" for idx
    using z bll bl0 that unfolding zero_rhs_zero_solution_def by blast
  have le: "getNum3dEnrich o1 \<le> neq" using o by (auto simp: getNum3dEnrich_def neq_def)
  have ix: "neq * j + i < neq * vpn"
  proof -
    have "neq * j + neq \<le> neq * vpn" using j by (rule block_step)
    then show ?thesis using i le by linarith
  qed
  have "computeElemRecon3D ext vpn forest refined_forest Xpts uvals uderiv ubar tmp (vpn * i + j)
      = LAPACKdgelss ext neq (getNum3dEnrich o1) vpn (map T [0..<neq * getNum3dEnrich o1]) bl ! (neq * j + i)"
    unfolding computeElemRecon3D_def Let_def o1_def[symmetric] neq_def[symmetric] T_def[symmetric]
      B_def[symmetric] bl_def[symmetric]
    by (rule for_loop_copy2[OF i j])
  then show ?thesis using sol[OF ix] by simp
qed

section \<open>Exactness for a constant field\<close>

lemma example_forest_derivs: "derivs_sum_to_zero example_forest 8"
  unfolding derivs_sum_to_zero_def example_forest_def evalInterp_order2_def Let_def
  by (simp add: lessThan_Suc eval_nat_numeral lagrange2_def dlagrange2_def field_simps)

lemma example_ext_solver: "zero_rhs_zero_solution example_ext"
  by (simp add: zero_rhs_zero_solution_def example_ext_def)

section \<open>The nodal-derivative projector on a quadtree\<close>

lemma slot_decode2: "p mod o1 + p div o1 * o1 = (p::nat)"
  by simp

lemma nodeDeriv2D_element_closed:
  "nodeDeriv2D_element ext forest vpn nodes welem uelem Xpts delem0 =
    (\<lambda>idx. if idx < 3 * (quad_order forest * quad_order forest * vpn)
       then (let p = (idx div 3) div vpn; k = (idx div 3) mod vpn; t = idx mod 3; o1 = quad_order forest
             in if 0 \<le> nodes ! p
                then 1 / welem p *
                     nodeGradient2D ext forest vpn Xpts uelem (p mod o1) (p div o1) (3 * k + t)
                else 0)
       else delem0 idx)"
  unfolding nodeDeriv2D_element_def Let_def[of "quad_order forest"] nodeDeriv3D_body
  apply (subst for_loop_nest)
  apply (subst for_loop_nest)
  apply (simp only: slot_decode2)
  apply (subst for_loop_write3[where V = "\<lambda>q t. if 0 \<le> nodes ! (q div vpn) then 1 / welem (q div vpn) *
                     nodeGradient2D ext forest vpn Xpts uelem ((q div vpn) mod quad_order forest)
          ((q div vpn) div quad_order forest) (3 * (q mod vpn) + t)
                else 0"])
  apply (unfold Let_def)
  apply simp
  done

lemma nodeDeriv2D_element_at:
  assumes "i < quad_order forest * quad_order forest" and "k < 3 * vpn"
  shows "nodeDeriv2D_element ext forest vpn nodes welem uelem Xpts delem0 (3 * vpn * i + k) =
    (if 0 \<le> nodes ! i
     then 1 / welem i *
          nodeGradient2D ext forest vpn Xpts uelem (i mod quad_order forest)
            (i div quad_order forest) k
     else 0)"
proof -
  let ?M = "quad_order forest * quad_order forest"
  have "3 * vpn * i + k < 3 * vpn * i + 3 * vpn" using assms(2) by simp
  also have "\<dots> = 3 * vpn * (i + 1)" by simp
  also have "\<dots> \<le> 3 * vpn * ?M" using assms(1) by (intro mult_le_mono2) simp
  finally have lt: "3 * vpn * i + k < 3 * (?M * vpn)" by (simp add: mult.commute mult.left_commute)
  show ?thesis
    unfolding nodeDeriv2D_element_closed Let_def
    using lt by (simp only: if_True deriv_index[OF assms(2)])
qed

lemma nodal_assembly_sum:
  fixes delem :: "element \<Rightarrow> rarr" and grad :: "element \<Rightarrow> nat \<Rightarrow> nat \<Rightarrow> real"
    and zs :: "(element list \<times> nat list option) list"
  assumes len: "\<forall>(es, nums) \<in> set zs. \<forall>e \<in> set (loop_elements es nums). length (el_nodes e) = M"
    and at: "\<And>e p j. p < M \<Longrightarrow> j < bs \<Longrightarrow> delem e (bs * p + j) =
               (if 0 \<le> el_nodes e ! p
                then 1 / getValues 1 weights (el_nodes e) p * grad e p j else 0)"
    and j: "j < bs"
  shows "bv_x (endDistributeValues bs dep (endSetValues_ADD bs dep
           (fold (\<lambda>(es, nums). fold (\<lambda>e. setValues_ADD bs (el_nodes e) (delem e))
                    (loop_elements es nums)) zs zeroEntries))) (bs * n + j) =
         1 / bv_x weights n *
           (\<Sum>(es, nums)\<leftarrow>zs. \<Sum>e\<leftarrow>loop_elements es nums.
              \<Sum>p<M. if el_nodes e ! p = int n then grad e p j else 0)"
proof -
  let ?U = "fold (\<lambda>(es, nums). fold (\<lambda>e. setValues_ADD bs (el_nodes e) (delem e))
                    (loop_elements es nums)) zs zeroEntries"
  have U_dep: "bv_dep ?U idx = 0" for idx
  proof -
    have "bv_dep ?U idx = bv_dep zeroEntries idx + (\<Sum>(es, nums)\<leftarrow>zs. \<Sum>e\<leftarrow>loop_elements es nums. 0)"
    proof (rule fold_procs_additive)
      fix es nums e u
      assume in1: "(es, nums) \<in> set zs" and in2: "e \<in> set (loop_elements es nums)"
      have l: "length (el_nodes e) = M" using len in1 in2 by blast
      have "(\<Sum>i<length (el_nodes e). \<Sum>k<bs.
              if el_nodes e ! i < 0 \<and> bs * nat (- el_nodes e ! i - 1) + k = idx
              then delem e (bs * i + k) else 0) = 0"
        by (intro sum.neutral ballI) (use at l in auto)
      then show "bv_dep (setValues_ADD bs (el_nodes e) (delem e) u) idx = bv_dep u idx + 0"
        by (simp only: setValues_ADD_dep)
    qed
    moreover have "(\<Sum>(es, nums)\<leftarrow>zs. \<Sum>e\<leftarrow>loop_elements es nums. (0::real)) = 0"
      by (simp add: case_prod_unfold)
    ultimately show ?thesis by (simp only: zeroEntries_def bvec.simps add_0_right)
  qed
  have U_x: "bv_x ?U (bs * n + j) =
      (\<Sum>(es, nums)\<leftarrow>zs. \<Sum>e\<leftarrow>loop_elements es nums.
         \<Sum>p<M. if el_nodes e ! p = int n then 1 / bv_x weights n * grad e p j else 0)"
  proof -
    have "bv_x ?U (bs * n + j) = bv_x zeroEntries (bs * n + j) +
      (\<Sum>(es, nums)\<leftarrow>zs. \<Sum>e\<leftarrow>loop_elements es nums.
         \<Sum>p<M. if el_nodes e ! p = int n then 1 / bv_x weights n * grad e p j else 0)"
    proof (rule fold_procs_additive)
      fix es nums e u
      assume in1: "(es, nums) \<in> set zs" and in2: "e \<in> set (loop_elements es nums)"
      have l: "length (el_nodes e) = M" using len in1 in2 by blast
      have "(\<Sum>i<length (el_nodes e). \<Sum>k'<bs.
              if 0 \<le> el_nodes e ! i \<and> bs * nat (el_nodes e ! i) + k' = bs * n + j
              then delem e (bs * i + k') else 0)
          = (\<Sum>i<M. if 0 \<le> el_nodes e ! i \<and> nat (el_nodes e ! i) = n
              then delem e (bs * i + j) else 0)"
        unfolding l by (rule sum.cong[OF refl]) (rule sum_block_index[OF j])
      also have "\<dots> = (\<Sum>p<M. if el_nodes e ! p = int n
              then 1 / bv_x weights n * grad e p j else 0)"
      proof (rule sum.cong[OF refl])
        fix p assume "p \<in> {..<M}"
        then have p: "p < M" by simp
        have c: "(0 \<le> el_nodes e ! p \<and> nat (el_nodes e ! p) = n) \<longleftrightarrow> el_nodes e ! p = int n"
          by auto
        show "(if 0 \<le> el_nodes e ! p \<and> nat (el_nodes e ! p) = n
                then delem e (bs * p + j) else 0) =
              (if el_nodes e ! p = int n then 1 / bv_x weights n * grad e p j else 0)"
          unfolding c at[OF p j] by (simp add: getValues_def)
      qed
      finally show "bv_x (setValues_ADD bs (el_nodes e) (delem e) u) (bs * n + j) =
          bv_x u (bs * n + j) +
          (\<Sum>p<M. if el_nodes e ! p = int n then 1 / bv_x weights n * grad e p j else 0)"
        by (simp only: setValues_ADD_x)
    qed
    then show ?thesis by (simp add: zeroEntries_def)
  qed
  have "bv_x (endDistributeValues bs dep (endSetValues_ADD bs dep ?U)) (bs * n + j)
      = bv_x ?U (bs * n + j)"
    unfolding endDistributeValues_x endSetValues_ADD_x U_dep
    by (simp add: case_prod_unfold cong: if_cong)
  also have "\<dots> = 1 / bv_x weights n *
           (\<Sum>(es, nums)\<leftarrow>zs. \<Sum>e\<leftarrow>loop_elements es nums.
              \<Sum>p<M. if el_nodes e ! p = int n then grad e p j else 0)"
  proof -
    have "(\<Sum>(es, nums)\<leftarrow>zs. \<Sum>e\<leftarrow>loop_elements es nums.
         \<Sum>p<M. if el_nodes e ! p = int n then 1 / bv_x weights n * grad e p j else 0)
       = 1 / bv_x weights n *
           (\<Sum>(es, nums)\<leftarrow>zs. \<Sum>e\<leftarrow>loop_elements es nums.
              \<Sum>p<M. if el_nodes e ! p = int n then grad e p j else 0)"
      unfolding sum_if_mult case_prod_unfold sum_list_const_mult ..
    then show ?thesis by (simp only: U_x)
  qed
  finally show ?thesis .
qed

lemma computeNodeDeriv2D_unfold:
  "computeNodeDeriv2D ext forest tacs uvec weights element_nums =
     endDistributeValues (3 * varsPerNode tacs) (depNodes tacs)
       (endSetValues_ADD (3 * varsPerNode tacs) (depNodes tacs)
         (fold (\<lambda>(es, nums). fold (\<lambda>e. setValues_ADD (3 * varsPerNode tacs) (el_nodes e)
              (nodeDeriv2D_element ext forest (varsPerNode tacs) (el_nodes e)
                 (getValues 1 weights (el_nodes e)) (getValues (varsPerNode tacs) uvec (el_nodes e))
                 ((!) (el_Xpts e)) (uninit ext))) (loop_elements es nums))
            (zip (procs tacs) element_nums) zeroEntries))"
  by (simp add: computeNodeDeriv2D_def Let_def)

lemma computeNodeDeriv2D_sum:
  fixes forest tacs ext uvec weights element_nums
  defines "o1 \<equiv> quad_order forest"
  defines "vpn \<equiv> varsPerNode tacs"
  defines "grad \<equiv> \<lambda>e p. nodeGradient2D ext forest vpn ((!) (el_Xpts e))
                      (getValues vpn uvec (el_nodes e)) (p mod o1) (p div o1)"
  assumes len: "\<forall>(es, nums) \<in> set (zip (procs tacs) element_nums).
                  \<forall>e \<in> set (loop_elements es nums). length (el_nodes e) = o1 * o1"
    and k: "k < vpn" and t: "t < 3"
  shows "bv_x (computeNodeDeriv2D ext forest tacs uvec weights element_nums) (3 * vpn * n + (3 * k + t)) =
           1 / bv_x weights n *
           (\<Sum>(es, nums)\<leftarrow>zip (procs tacs) element_nums. \<Sum>e\<leftarrow>loop_elements es nums.
              \<Sum>p<o1 * o1. if el_nodes e ! p = int n then grad e p (3 * k + t) else 0)"
proof -
  have j: "3 * k + t < 3 * vpn" using k t by linarith
  show ?thesis
    unfolding computeNodeDeriv2D_unfold vpn_def[symmetric]
  proof (rule nodal_assembly_sum[OF len _ j])
    fix e p j assume "p < o1 * o1" "j < 3 * vpn"
    then show "nodeDeriv2D_element ext forest vpn (el_nodes e) (getValues 1 weights (el_nodes e))
        (getValues vpn uvec (el_nodes e)) ((!) (el_Xpts e)) (uninit ext) (3 * vpn * p + j) =
       (if 0 \<le> el_nodes e ! p then 1 / getValues 1 weights (el_nodes e) p * grad e p j else 0)"
      using nodeDeriv2D_element_at[of p forest j vpn] unfolding o1_def grad_def by simp
  qed
qed

section \<open>The gradient sample in closed form\<close>

lemma tabulate9:
  fixes s0 :: real
  shows "(\<lambda>_. 0)(0 := s0, 1 := s1, 2 := s2, 3 := s3, 4 := s4, 5 := s5, 6 := s6, 7 := s7, 8 := s8) =
         (\<lambda>idx::nat. if idx < 9 then [s0, s1, s2, s3, s4, s5, s6, s7, s8] ! idx else 0)"
proof
  fix idx :: nat
  consider "idx = 0" | "idx = 1" | "idx = 2" | "idx = 3" | "idx = 4" | "idx = 5" | "idx = 6"
    | "idx = 7" | "idx = 8" | "9 \<le> idx" by linarith
  then show "((\<lambda>_. 0)(0 := s0, 1 := s1, 2 := s2, 3 := s3, 4 := s4, 5 := s5, 6 := s6, 7 := s7,
                8 := s8)) idx =
        (if idx < 9 then [s0, s1, s2, s3, s4, s5, s6, s7, s8] ! idx else 0)"
    by cases simp_all
qed

lemma computeJacobianTrans3D_closed:
  "computeJacobianTrans3D ext Xpts Na Nb Nc M =
    (let Xd = (\<lambda>idx. if idx < 9 then \<Sum>i<M. Xpts (3 * i + idx mod 3) * [Na, Nb, Nc] ! (idx div 3) ! i
                      else 0)
     in (fst (jacobian3d ext Xd), Xd, snd (jacobian3d ext Xd)))"
proof -
  have "(\<lambda>_. 0)
       (0 := \<Sum>i<M. Xpts (3 * i) * Na ! i, 1 := \<Sum>i<M. Xpts (3 * i + 1) * Na ! i,
        2 := \<Sum>i<M. Xpts (3 * i + 2) * Na ! i, 3 := \<Sum>i<M. Xpts (3 * i) * Nb ! i,
        4 := \<Sum>i<M. Xpts (3 * i + 1) * Nb ! i, 5 := \<Sum>i<M. Xpts (3 * i + 2) * Nb ! i,
        6 := \<Sum>i<M. Xpts (3 * i) * Nc ! i, 7 := \<Sum>i<M. Xpts (3 * i + 1) * Nc ! i,
        8 := \<Sum>i<M. Xpts (3 * i + 2) * Nc ! i) =
      (\<lambda>idx. if idx < 9 then \<Sum>i<M. Xpts (3 * i + idx mod 3) * [Na, Nb, Nc] ! (idx div 3) ! i
              else 0)"
    unfolding tabulate9
  proof
    fix idx :: nat
    consider "idx = 0" | "idx = 1" | "idx = 2" | "idx = 3" | "idx = 4" | "idx = 5" | "idx = 6"
      | "idx = 7" | "idx = 8" | "9 \<le> idx" by linarith
    then show "(if idx < 9
          then [\<Sum>i<M. Xpts (3 * i) * Na ! i, \<Sum>i<M. Xpts (3 * i + 1) * Na ! i,
                \<Sum>i<M. Xpts (3 * i + 2) * Na ! i, \<Sum>i<M. Xpts (3 * i) * Nb ! i,
                \<Sum>i<M. Xpts (3 * i + 1) * Nb ! i, \<Sum>i<M. Xpts (3 * i + 2) * Nb ! i,
                \<Sum>i<M. Xpts (3 * i) * Nc ! i, \<Sum>i<M. Xpts (3 * i + 1) * Nc ! i,
                \<Sum>i<M. Xpts (3 * i + 2) * Nc ! i] ! idx
          else 0) =
         (if idx < 9 then \<Sum>i<M. Xpts (3 * i + idx mod 3) * [Na, Nb, Nc] ! (idx div 3) ! i else 0)"
      by cases simp_all
  qed
  then show ?thesis
    unfolding computeJacobianTrans3D_def for_loop_accum9 Let_def
    by (simp add: split_def)
qed

lemma nodeGradient3D_Ud:
  fixes uelem :: rarr
  assumes k: "k < vpn" and a: "a < 3"
  shows "for_loop vpn (\<lambda>k.
                for_loop M (\<lambda>i (Ud::rarr). Ud
                  (3 * k := Ud (3 * k) + uelem (k + vpn * i) * Na ! i,
                   3 * k + 1 := Ud (3 * k + 1) + uelem (k + vpn * i) * Nb ! i,
                   3 * k + 2 := Ud (3 * k + 2) + uelem (k + vpn * i) * Nc ! i)))
              (\<lambda>_. 0) (3 * k + a) = (\<Sum>i<M. uelem (k + vpn * i) * [Na, Nb, Nc] ! a ! i)"
proof -
  define S where "S = (\<lambda>k (a::nat). \<Sum>i<M. uelem (k + vpn * i) * [Na, Nb, Nc] ! a ! i)"
  have in1: "for_loop M (\<lambda>i (Ud::rarr). Ud
                  (3 * k := Ud (3 * k) + uelem (k + vpn * i) * Na ! i,
                   3 * k + 1 := Ud (3 * k + 1) + uelem (k + vpn * i) * Nb ! i,
                   3 * k + 2 := Ud (3 * k + 2) + uelem (k + vpn * i) * Nc ! i)) =
             (\<lambda>Ud. Ud(3 * k := (\<lambda>x. x + S k 0) (Ud (3 * k)),
                      3 * k + 1 := (\<lambda>x. x + S k 1) (Ud (3 * k + 1)),
                      3 * k + 2 := (\<lambda>x. x + S k 2) (Ud (3 * k + 2))))" for k
    by (rule ext, subst for_loop_accum3) (simp add: S_def)
  have "for_loop vpn (\<lambda>k Ud. Ud(3 * k := (\<lambda>x. x + S k 0) (Ud (3 * k)),
                      3 * k + 1 := (\<lambda>x. x + S k 1) (Ud (3 * k + 1)),
                      3 * k + 2 := (\<lambda>x. x + S k 2) (Ud (3 * k + 2)))) (\<lambda>_. 0) (3 * k + a) =
        (\<lambda>x. x + S k a) ((\<lambda>_. 0) (3 * k + a))"
    by (rule for_loop_upd3_cell[where c = "\<lambda>k. 3 * k" and F = "\<lambda>k t x. x + S k t", OF k a])
       (use a in auto)
  then show ?thesis unfolding in1 by (simp add: S_def)
qed

lemma nodeGradient3D_physical:
  assumes k: "k < vpn" and t: "t < 3"
  shows "nodeGradient3D ext forest vpn Xpts uelem ii jj kk (3 * k + t) =
         physical_gradient3D ext forest vpn Xpts uelem
           [interp_knots forest ! ii, interp_knots forest ! jj, interp_knots forest ! kk] k t"
proof -
  obtain N Na Nb Nc where e: "evalInterp forest
      [interp_knots forest ! ii, interp_knots forest ! jj, interp_knots forest ! kk] = (N, Na, Nb, Nc)"
    by (metis prod_cases4)
  have d: "(3 * k + t) div 3 = k" "(3 * k + t) mod 3 = t" using t by simp_all
  have u: "for_loop vpn (\<lambda>k.
                for_loop M (\<lambda>i (Ud::rarr). Ud
                  (3 * k := Ud (3 * k) + uelem (k + vpn * i) * Na ! i,
                   3 * k + 1 := Ud (3 * k + 1) + uelem (k + vpn * i) * Nb ! i,
                   3 * k + 2 := Ud (3 * k + 2) + uelem (k + vpn * i) * Nc ! i)))
              (\<lambda>_. 0) (3 * k + a) = (\<Sum>i<M. uelem (k + vpn * i) * [Na, Nb, Nc] ! a ! i)"
    if "a < 3" for a M
    by (rule nodeGradient3D_Ud[OF k that])
  show ?thesis
    unfolding nodeGradient3D_def physical_gradient3D_def Let_def e split_conv
      computeJacobianTrans3D_closed d
    using u[of 0] u[of 1] u[of 2]
    by (simp add: sum_upto_three)
qed

lemma for_loop_upd2_other:
  fixes c :: "nat \<Rightarrow> nat" and a0 :: rarr
  assumes "\<forall>k<n. idx < c k \<or> c k + 2 \<le> idx"
  shows "for_loop n (\<lambda>k a. a(c k := F k 0 (a (c k)), c k + 1 := F k 1 (a (c k + 1)))) a0 idx
         = a0 idx"
  using assms
proof (induction n)
  case 0
  show ?case by simp
next
  case (Suc n)
  have "idx < c n \<or> c n + 2 \<le> idx" using Suc.prems by simp
  then have "idx \<noteq> c n" "idx \<noteq> c n + 1" by auto
  then show ?case using Suc by simp
qed

lemma for_loop_upd2_cell:
  fixes c :: "nat \<Rightarrow> nat" and a0 :: rarr
  assumes "k < n" "t < 2"
    and "\<forall>k'<n. k' \<noteq> k \<longrightarrow> c k + t < c k' \<or> c k' + 2 \<le> c k + t"
  shows "for_loop n (\<lambda>k a. a(c k := F k 0 (a (c k)), c k + 1 := F k 1 (a (c k + 1)))) a0 (c k + t)
         = F k t (a0 (c k + t))"
  using assms
proof (induction n)
  case 0
  then show ?case by simp
next
  case (Suc n)
  define L where "L = for_loop n (\<lambda>k a. a(c k := F k 0 (a (c k)), c k + 1 := F k 1 (a (c k + 1)))) a0"
  have step: "for_loop (Suc n) (\<lambda>k a. a(c k := F k 0 (a (c k)), c k + 1 := F k 1 (a (c k + 1)))) a0
      = L(c n := F n 0 (L (c n)), c n + 1 := F n 1 (L (c n + 1)))"
    by (simp only: for_loop_Suc L_def)
  show ?case
  proof (cases "k = n")
    case True
    have old: "L (c n + t) = a0 (c n + t)"
      unfolding L_def
    proof (rule for_loop_upd2_other, intro allI impI)
      fix k' assume k': "k' < n"
      show "c n + t < c k' \<or> c k' + 2 \<le> c n + t"
        using Suc.prems(3)[rule_format, of k'] k' True by auto
    qed
    consider "t = 0" | "t = 1" using Suc.prems(2) by linarith
    then show ?thesis
    proof cases
      case 1 then show ?thesis unfolding step using True old by simp
    next
      case 2 then show ?thesis unfolding step using True old by simp
    qed
  next
    case False
    then have kn: "k < n" using Suc.prems(1) by simp
    have "c k + t < c n \<or> c n + 2 \<le> c k + t" using Suc.prems(3) False by simp
    then have ne: "c k + t \<noteq> c n" "c k + t \<noteq> c n + 1" by auto
    have "L (c k + t) = F k t (a0 (c k + t))"
      unfolding L_def
      by (rule Suc.IH[OF kn Suc.prems(2)]) (use Suc.prems(3) in auto)
    then show ?thesis unfolding step using ne by simp
  qed
qed

lemma for_loop_accum2:
  fixes a0 :: rarr
  shows "for_loop M (\<lambda>i a. a(c := a c + f0 i, c + 1 := a (c + 1) + f1 i)) a0
     = a0(c := a0 c + (\<Sum>i<M. f0 i), c + 1 := a0 (c + 1) + (\<Sum>i<M. f1 i))"
  by (induction M) (auto simp: fun_eq_iff)

lemma for_loop_accum6:
  fixes a0 :: rarr
  shows "for_loop n (\<lambda>i a. a
           (0 := a 0 + f0 i, 1 := a 1 + f1 i, 2 := a 2 + f2 i,
            3 := a 3 + f3 i, 4 := a 4 + f4 i, 5 := a 5 + f5 i)) a0 =
         a0(0 := a0 0 + (\<Sum>i<n. f0 i), 1 := a0 1 + (\<Sum>i<n. f1 i), 2 := a0 2 + (\<Sum>i<n. f2 i),
            3 := a0 3 + (\<Sum>i<n. f3 i), 4 := a0 4 + (\<Sum>i<n. f4 i), 5 := a0 5 + (\<Sum>i<n. f5 i))"
  by (induction n) (auto simp: fun_eq_iff)

lemma computeJacobianTrans2D_closed:
  "computeJacobianTrans2D ext Xpts Na Nb M =
    (let tangent = (\<lambda>a c. \<Sum>i<M. Xpts (3 * i + c) * [Na, Nb] ! a ! i);
         n = normalize3D ext
               (crossProduct3D ext (tangent 0 0, tangent 0 1, tangent 0 2)
                                   (tangent 1 0, tangent 1 1, tangent 1 2));
         Xd = (\<lambda>idx. if idx < 6 then tangent (idx div 3) (idx mod 3)
                      else if idx < 9 then (case n of (n0, n1, n2) \<Rightarrow> [n0, n1, n2] ! (idx - 6))
                      else 0)
     in (fst (jacobian3d ext Xd), Xd, snd (jacobian3d ext Xd)))"
proof -
  define tg where "tg = (\<lambda>(a::nat) (c::nat). \<Sum>i<M. Xpts (3 * i + c) * [Na, Nb] ! a ! i)"
  obtain n0 n1 n2 where n: "normalize3D ext
               (crossProduct3D ext (tg 0 0, tg 0 1, tg 0 2) (tg 1 0, tg 1 1, tg 1 2)) = (n0, n1, n2)"
    by (metis prod_cases3)
  have x: "for_loop M (\<lambda>i Xd. Xd
           (0 := Xd 0 + Xpts (3 * i) * Na ! i,
            1 := Xd 1 + Xpts (3 * i + 1) * Na ! i,
            2 := Xd 2 + Xpts (3 * i + 2) * Na ! i,
            3 := Xd 3 + Xpts (3 * i) * Nb ! i,
            4 := Xd 4 + Xpts (3 * i + 1) * Nb ! i,
            5 := Xd 5 + Xpts (3 * i + 2) * Nb ! i)) ((\<lambda>_. 0) :: rarr) =
        (\<lambda>_. 0)(0 := tg 0 0, 1 := tg 0 1, 2 := tg 0 2, 3 := tg 1 0, 4 := tg 1 1, 5 := tg 1 2)"
    unfolding for_loop_accum6 tg_def by simp
  have y: "(((\<lambda>_. 0) :: rarr)(0 := tg 0 0, 1 := tg 0 1, 2 := tg 0 2, 3 := tg 1 0, 4 := tg 1 1, 5 := tg 1 2))
             (6 := n0, 7 := n1, 8 := n2) =
           (\<lambda>idx. if idx < 6 then tg (idx div 3) (idx mod 3)
                      else if idx < 9 then [n0, n1, n2] ! (idx - 6) else 0)"
  proof
    fix idx :: nat
    consider "idx = 0" | "idx = 1" | "idx = 2" | "idx = 3" | "idx = 4" | "idx = 5" | "idx = 6"
      | "idx = 7" | "idx = 8" | "9 \<le> idx" by linarith
    then show "((((\<lambda>_. 0) :: rarr)(0 := tg 0 0, 1 := tg 0 1, 2 := tg 0 2, 3 := tg 1 0, 4 := tg 1 1,
                  5 := tg 1 2))(6 := n0, 7 := n1, 8 := n2)) idx =
           (if idx < 6 then tg (idx div 3) (idx mod 3)
                      else if idx < 9 then [n0, n1, n2] ! (idx - 6) else 0)"
      by cases simp_all
  qed
  have x0: "(((\<lambda>_. 0) :: rarr)(0 := tg 0 0, 1 := tg 0 1, 2 := tg 0 2, 3 := tg 1 0, 4 := tg 1 1,
                5 := tg 1 2)) 0 = tg 0 0"
    and x1: "(((\<lambda>_. 0) :: rarr)(0 := tg 0 0, 1 := tg 0 1, 2 := tg 0 2, 3 := tg 1 0, 4 := tg 1 1,
                5 := tg 1 2)) 1 = tg 0 1"
    and x2: "(((\<lambda>_. 0) :: rarr)(0 := tg 0 0, 1 := tg 0 1, 2 := tg 0 2, 3 := tg 1 0, 4 := tg 1 1,
                5 := tg 1 2)) 2 = tg 0 2"
    and x3: "(((\<lambda>_. 0) :: rarr)(0 := tg 0 0, 1 := tg 0 1, 2 := tg 0 2, 3 := tg 1 0, 4 := tg 1 1,
                5 := tg 1 2)) 3 = tg 1 0"
    and x4: "(((\<lambda>_. 0) :: rarr)(0 := tg 0 0, 1 := tg 0 1, 2 := tg 0 2, 3 := tg 1 0, 4 := tg 1 1,
                5 := tg 1 2)) 4 = tg 1 1"
    and x5: "(((\<lambda>_. 0) :: rarr)(0 := tg 0 0, 1 := tg 0 1, 2 := tg 0 2, 3 := tg 1 0, 4 := tg 1 1,
                5 := tg 1 2)) 5 = tg 1 2"
    by simp_all
  show ?thesis
    unfolding computeJacobianTrans2D_def Let_def x x0 x1 x2 x3 x4 x5 tg_def[symmetric] n
      split_conv y
    by (simp add: split_def)
qed

lemma nodeGradient2D_Ud:
  fixes uelem :: rarr
  assumes k: "k < vpn" and a: "a < 2"
  shows "for_loop vpn (\<lambda>k.
                for_loop M (\<lambda>i (Ud::rarr). Ud
                  (2 * k := Ud (2 * k) + uelem (k + vpn * i) * Na ! i,
                   2 * k + 1 := Ud (2 * k + 1) + uelem (k + vpn * i) * Nb ! i)))
              (\<lambda>_. 0) (2 * k + a) = (\<Sum>i<M. uelem (k + vpn * i) * [Na, Nb] ! a ! i)"
proof -
  define S where "S = (\<lambda>k (a::nat). \<Sum>i<M. uelem (k + vpn * i) * [Na, Nb] ! a ! i)"
  have in1: "for_loop M (\<lambda>i (Ud::rarr). Ud
                  (2 * k := Ud (2 * k) + uelem (k + vpn * i) * Na ! i,
                   2 * k + 1 := Ud (2 * k + 1) + uelem (k + vpn * i) * Nb ! i)) =
             (\<lambda>Ud. Ud(2 * k := (\<lambda>x. x + S k 0) (Ud (2 * k)),
                      2 * k + 1 := (\<lambda>x. x + S k 1) (Ud (2 * k + 1))))" for k
    by (rule ext, subst for_loop_accum2) (simp add: S_def)
  have "for_loop vpn (\<lambda>k Ud. Ud(2 * k := (\<lambda>x. x + S k 0) (Ud (2 * k)),
                      2 * k + 1 := (\<lambda>x. x + S k 1) (Ud (2 * k + 1)))) (\<lambda>_. 0) (2 * k + a) =
        (\<lambda>x. x + S k a) ((\<lambda>_. 0) (2 * k + a))"
    by (rule for_loop_upd2_cell[where c = "\<lambda>k. 2 * k" and F = "\<lambda>k t x. x + S k t", OF k a])
       (use a in auto)
  then show ?thesis unfolding in1 by (simp add: S_def)
qed

lemma sum_upto_two: "(\<Sum>i<(2::nat). f i) = f 0 + (f 1 :: real)"
  by (simp add: lessThan_Suc eval_nat_numeral)

lemma nodeGradient2D_physical:
  assumes k: "k < vpn" and t: "t < 3"
  shows "nodeGradient2D ext forest vpn Xpts uelem ii jj (3 * k + t) =
         physical_gradient2D ext forest vpn Xpts uelem
           [quad_knots forest ! ii, quad_knots forest ! jj] k t"
proof -
  obtain N Na Nb where e: "quad_evalInterp forest
      [quad_knots forest ! ii, quad_knots forest ! jj] = (N, Na, Nb)"
    by (metis prod_cases3)
  have d: "(3 * k + t) div 3 = k" "(3 * k + t) mod 3 = t" using t by simp_all
  have u: "for_loop vpn (\<lambda>k.
                for_loop M (\<lambda>i (Ud::rarr). Ud
                  (2 * k := Ud (2 * k) + uelem (k + vpn * i) * Na ! i,
                   2 * k + 1 := Ud (2 * k + 1) + uelem (k + vpn * i) * Nb ! i)))
              (\<lambda>_. 0) (2 * k + a) = (\<Sum>i<M. uelem (k + vpn * i) * [Na, Nb] ! a ! i)"
    if "a < 2" for a M
    by (rule nodeGradient2D_Ud[OF k that])
  show ?thesis
    unfolding nodeGradient2D_def physical_gradient2D_def Let_def e split_conv
      computeJacobianTrans2D_closed d
    using u[of 0] u[of 1]
    by (simp add: sum_upto_two split_def cong: if_cong)
qed

section \<open>Exactness for a constant field on a quadtree\<close>

lemma for_loop_counter2:
  "for_loop n (\<lambda>p (c, a). (c + 2, G p c a)) (0, a0) = (2 * n, for_loop n (\<lambda>p. G p (2 * p)) a0)"
  by (induction n) simp_all

lemma recon_point_rows2:
  fixes B neq c vpn nenrich :: nat and tmp :: rarr and f g h :: "nat \<Rightarrow> nat \<Rightarrow> real"
  assumes c: "c + 2 \<le> neq" and B: "B = nenrich * neq"
  defines "tmp1 \<equiv> for_loop vpn (\<lambda>k tmp. tmp
                 (B + (neq * k + c) := f k 0,
                  B + (neq * k + c + 1) := f k 1)) tmp"
  defines "tmp2 \<equiv> for_loop vpn (\<lambda>k tmp.
                 tmp(B + (neq * k + c) := tmp (B + (neq * k + c)) - g k 0,
                     B + (neq * k + c + 1) := tmp (B + (neq * k + c + 1)) - g k 1)) tmp1"
  defines "tmp3 \<equiv> for_loop nenrich (\<lambda>i tmp. tmp
          (neq * i + c := h i 0,
           neq * i + c + 1 := h i 1)) tmp2"
  shows "k < vpn \<Longrightarrow> t < 2 \<Longrightarrow> tmp3 (B + (neq * k + c + t)) = f k t - g k t"
    and "B \<le> idx \<Longrightarrow> (\<forall>k<vpn. idx < B + (neq * k + c) \<or> B + (neq * k + c) + 2 \<le> idx) \<Longrightarrow>
         tmp3 idx = tmp idx"
proof -
  define cc where "cc = (\<lambda>k. B + (neq * k + c))"
  have e1: "tmp1 = for_loop vpn (\<lambda>k a. a(cc k := (\<lambda>_. f k 0) (a (cc k)),
       cc k + 1 := (\<lambda>_. f k 1) (a (cc k + 1)))) tmp"
    unfolding tmp1_def cc_def by (simp add: add.assoc)
  have e2: "tmp2 = for_loop vpn (\<lambda>k a. a(cc k := (\<lambda>x. x - g k 0) (a (cc k)),
       cc k + 1 := (\<lambda>x. x - g k 1) (a (cc k + 1)))) tmp1"
    unfolding tmp2_def cc_def by (simp add: add.assoc)
  have e3: "tmp3 = for_loop nenrich (\<lambda>i a. a(neq * i + c := (\<lambda>_. h i 0) (a (neq * i + c)),
       neq * i + c + 1 := (\<lambda>_. h i 1) (a (neq * i + c + 1)))) tmp2"
    unfolding tmp3_def by simp
  have A_below: "neq * i + c + 2 \<le> B" if "i < nenrich" for i
  proof -
    have "neq * i + neq \<le> neq * nenrich" using that by (rule block_step)
    then show ?thesis using c B by (simp add: mult.commute)
  qed
  have t3: "tmp3 idx = tmp2 idx" if "B \<le> idx" for idx
    unfolding e3
    by (rule for_loop_upd2_other) (use A_below that in fastforce)
  have sep: "cc k + t < cc k' \<or> cc k' + 2 \<le> cc k + t" if "k' \<noteq> k" "t < 2" for k k' t
  proof (cases "k < k'")
    case True
    from block_step[OF this, of neq] show ?thesis using c that unfolding cc_def by linarith
  next
    case False
    then have "k' < k" using that by simp
    from block_step[OF this, of neq] show ?thesis using c that unfolding cc_def by linarith
  qed
  {
    assume k: "k < vpn" and t: "t < 2"
    have idx: "B + (neq * k + c + t) = cc k + t" by (simp add: cc_def)
    have "tmp3 (cc k + t) = tmp2 (cc k + t)" by (rule t3) (simp add: cc_def)
    also have "\<dots> = tmp1 (cc k + t) - g k t"
      unfolding e2 by (rule for_loop_upd2_cell[OF k t]) (use sep t in blast)
    also have "tmp1 (cc k + t) = f k t"
      unfolding e1 by (rule for_loop_upd2_cell[OF k t]) (use sep t in blast)
    finally show "tmp3 (B + (neq * k + c + t)) = f k t - g k t" unfolding idx .
  }
  {
    assume i: "B \<le> idx" and o: "\<forall>k<vpn. idx < B + (neq * k + c) \<or> B + (neq * k + c) + 2 \<le> idx"
    have "tmp3 idx = tmp2 idx" by (rule t3[OF i])
    also have "\<dots> = tmp1 idx" unfolding e2 by (rule for_loop_upd2_other) (use o in \<open>simp add: cc_def\<close>)
    also have "\<dots> = tmp idx" unfolding e1 by (rule for_loop_upd2_other) (use o in \<open>simp add: cc_def\<close>)
    finally show "tmp3 idx = tmp idx" .
  }
qed

lemma elemRecon2D_point_rows:
  fixes forest refined_forest ext vpn
  defines "o1 \<equiv> quad_order forest"
  defines "neq \<equiv> 2 * o1 * o1"
  defines "B \<equiv> getNum2dEnrich o1 * neq"
  assumes c: "c + 2 \<le> neq"
  shows "k < vpn \<Longrightarrow> t < 2 \<Longrightarrow>
         elemRecon2D_point ext vpn forest refined_forest Xpts uvals uderiv ii jj c tmp
           (B + (neq * k + c + t)) =
         recon2D_rhs_entry ext vpn forest refined_forest Xpts uvals uderiv ii jj k t"
    and "B \<le> idx \<Longrightarrow> (\<forall>k<vpn. idx < B + (neq * k + c) \<or> B + (neq * k + c) + 2 \<le> idx) \<Longrightarrow>
         elemRecon2D_point ext vpn forest refined_forest Xpts uvals uderiv ii jj c tmp idx = tmp idx"
proof -
  obtain N Na Nb where r: "quad_evalInterp refined_forest
      [quad_knots forest ! ii, quad_knots forest ! jj] = (N, Na, Nb)"
    by (metis prod_cases3)
  obtain detJ Xd J where jac: "computeJacobianTrans2D ext Xpts Na Nb
      (quad_order refined_forest * quad_order refined_forest) = (detJ, Xd, J)"
    by (metis prod_cases3)
  obtain d1 d2 where fr: "reconFrame2D ext Xd = (d1, d2)" by (cases "reconFrame2D ext Xd")
  obtain N' Na' Nb' where f: "quad_evalInterp forest
      [quad_knots forest ! ii, quad_knots forest ! jj] = (N', Na', Nb')"
    by (metis prod_cases3)
  obtain Nr Nar Nbr where e: "evalEnrichmentFuncs2D o1
      [quad_knots forest ! ii, quad_knots forest ! jj] (quad_knots refined_forest) = (Nr, Nar, Nbr)"
    by (metis prod_cases3)
  define w where "w = wvals2D ext o1 ii * wvals2D ext o1 jj"
  define ud where "ud = 3 * vpn * (ii + o1 * jj)"
  define fu where "fu = (\<lambda>k (t::nat). w * dot3 (if t = 0 then d1 else d2)
      (uderiv (ud + 3 * k), uderiv (ud + 3 * k + 1), uderiv (ud + 3 * k + 2)))"
  define g where "g = (\<lambda>k (t::nat). w * dot3 (if t = 0 then d1 else d2)
      (interpDeriv2D vpn o1 uvals Na' Nb' J k))"
  define h where "h = (\<lambda>i (t::nat). w * dot3 (if t = 0 then d1 else d2)
      (Nar ! i * J 0 + Nbr ! i * J 1, Nar ! i * J 3 + Nbr ! i * J 4, Nar ! i * J 6 + Nbr ! i * J 7))"
  have P: "elemRecon2D_point ext vpn forest refined_forest Xpts uvals uderiv ii jj c tmp =
      for_loop (getNum2dEnrich o1) (\<lambda>i tmp. tmp
          (neq * i + c := h i 0, neq * i + c + 1 := h i 1))
       (for_loop vpn (\<lambda>k tmp.
                 tmp(B + (neq * k + c) := tmp (B + (neq * k + c)) - g k 0,
                     B + (neq * k + c + 1) := tmp (B + (neq * k + c + 1)) - g k 1))
         (for_loop vpn (\<lambda>k tmp. tmp
                 (B + (neq * k + c) := fu k 0,
                  B + (neq * k + c + 1) := fu k 1)) tmp))"
    unfolding elemRecon2D_point_def Let_def o1_def[symmetric] r jac fr f e split_conv
      neq_def[symmetric] B_def[symmetric] w_def[symmetric] ud_def[symmetric]
    by (simp add: fu_def g_def h_def)
  have R: "recon2D_rhs_entry ext vpn forest refined_forest Xpts uvals uderiv ii jj k t = fu k t - g k t"
    for k t
    unfolding recon2D_rhs_entry_def Let_def o1_def[symmetric] r jac fr f split_conv
      w_def[symmetric] ud_def[symmetric]
    by (simp add: fu_def g_def)
  show "k < vpn \<Longrightarrow> t < 2 \<Longrightarrow>
         elemRecon2D_point ext vpn forest refined_forest Xpts uvals uderiv ii jj c tmp
           (B + (neq * k + c + t)) =
         recon2D_rhs_entry ext vpn forest refined_forest Xpts uvals uderiv ii jj k t"
    unfolding P R by (rule recon_point_rows2(1)[OF c]) (simp_all add: B_def)
  show "B \<le> idx \<Longrightarrow> (\<forall>k<vpn. idx < B + (neq * k + c) \<or> B + (neq * k + c) + 2 \<le> idx) \<Longrightarrow>
         elemRecon2D_point ext vpn forest refined_forest Xpts uvals uderiv ii jj c tmp idx = tmp idx"
    unfolding P by (rule recon_point_rows2(2)[OF c]) (simp_all add: B_def)
qed

lemma elemRecon2D_assemble_unfold:
  "elemRecon2D_assemble ext vpn forest refined_forest Xpts uvals uderiv tmp =
     for_loop (quad_order forest * quad_order forest)
       (\<lambda>p. elemRecon2D_point ext vpn forest refined_forest Xpts uvals uderiv
              (p mod quad_order forest) (p div quad_order forest) (2 * p)) tmp"
  unfolding elemRecon2D_assemble_def Let_def
  by (subst for_loop_nest, subst for_loop_counter2) simp

lemma elemRecon2D_assemble_rhs:
  fixes forest refined_forest ext vpn
  defines "o1 \<equiv> quad_order forest"
  defines "neq \<equiv> 2 * o1 * o1"
  defines "B \<equiv> getNum2dEnrich o1 * neq"
  assumes p: "p < o1 * o1" and k: "k < vpn" and t: "t < 2"
  shows "elemRecon2D_assemble ext vpn forest refined_forest Xpts uvals uderiv tmp
           (B + (neq * k + 2 * p + t)) =
         recon2D_rhs_entry ext vpn forest refined_forest Xpts uvals uderiv
           (p mod o1) (p div o1) k t"
proof -
  have neq2: "neq = 2 * (o1 * o1)" by (simp add: neq_def mult.assoc)
  have c2: "2 * q + 2 \<le> neq" if "q < o1 * o1" for q using that unfolding neq2 by simp
  have r: "2 * p + t < neq" using c2[OF p] t by simp
  show ?thesis
    unfolding elemRecon2D_assemble_unfold o1_def[symmetric]
  proof (rule loop_cell_value[OF p])
    fix a
    show "elemRecon2D_point ext vpn forest refined_forest Xpts uvals uderiv (p mod o1)
       (p div o1) (2 * p) a (B + (neq * k + 2 * p + t)) =
      recon2D_rhs_entry ext vpn forest refined_forest Xpts uvals uderiv (p mod o1)
       (p div o1) k t"
      using elemRecon2D_point_rows(1)[of "2 * p" forest k vpn t ext refined_forest Xpts uvals uderiv]
        c2[OF p] k t
      unfolding o1_def neq_def B_def by simp
  next
    fix q a
    assume pq: "p < q" and q: "q < o1 * o1"
    have sep: "\<forall>k'<vpn. B + (neq * k + 2 * p + t) < B + (neq * k' + 2 * q) \<or>
                B + (neq * k' + 2 * q) + 2 \<le> B + (neq * k + 2 * p + t)"
    proof (intro allI impI)
      fix k' assume "k' < vpn"
      consider "k' = k" | "k < k'" | "k' < k" by linarith
      then show "B + (neq * k + 2 * p + t) < B + (neq * k' + 2 * q) \<or>
                B + (neq * k' + 2 * q) + 2 \<le> B + (neq * k + 2 * p + t)"
      proof cases
        case 1 then show ?thesis using pq t by simp
      next
        case 2
        from block_step[OF this, of neq] show ?thesis using r by linarith
      next
        case 3
        from block_step[OF this, of neq] show ?thesis using c2[OF q] by linarith
      qed
    qed
    show "elemRecon2D_point ext vpn forest refined_forest Xpts uvals uderiv (q mod o1)
          (q div o1) (2 * q) a (B + (neq * k + 2 * p + t)) =
         a (B + (neq * k + 2 * p + t))"
      using elemRecon2D_point_rows(2)[of "2 * q" forest "B + (neq * k + 2 * p + t)" vpn ext
          refined_forest Xpts uvals uderiv] c2[OF q] sep
      unfolding o1_def neq_def B_def by simp
  qed
qed

lemma nodeGradient2D_constant:
  assumes s: "quad_derivs_sum_to_zero forest (quad_order forest * quad_order forest)"
    and u: "\<And>idx. uelem idx = c"
  shows "nodeGradient2D ext forest vpn Xpts uelem ii jj idx = 0"
proof -
  let ?M = "quad_order forest * quad_order forest"
  obtain N Na Nb where e: "quad_evalInterp forest
      [quad_knots forest ! ii, quad_knots forest ! jj] = (N, Na, Nb)"
    by (metis prod_cases3)
  obtain detJ Xd J where j: "computeJacobianTrans2D ext Xpts Na Nb ?M = (detJ, Xd, J)"
    by (metis prod_cases3)
  have z: "(\<Sum>i<?M. Na ! i) = 0" "(\<Sum>i<?M. Nb ! i) = 0"
    using s[unfolded quad_derivs_sum_to_zero_def, rule_format, of "[quad_knots forest ! ii,
        quad_knots forest ! jj]"] unfolding e by simp_all
  have zs: "(\<Sum>i<?M. c * Na ! i) = 0" "(\<Sum>i<?M. c * Nb ! i) = 0"
    using z by (simp_all flip: sum_distrib_left)
  have Ud: "for_loop vpn (\<lambda>k.
                for_loop ?M (\<lambda>i (Ud::rarr). Ud
                  (2 * k := Ud (2 * k) + uelem (k + vpn * i) * Na ! i,
                   2 * k + 1 := Ud (2 * k + 1) + uelem (k + vpn * i) * Nb ! i)))
              (\<lambda>_. 0) = (\<lambda>_. 0)"
  proof (rule for_loop_invariant[where P = "\<lambda>u. u = (\<lambda>_. 0)"])
    fix k and Ud :: rarr
    assume "Ud = (\<lambda>_. 0)"
    then show "for_loop ?M (\<lambda>i (Ud::rarr). Ud
                  (2 * k := Ud (2 * k) + uelem (k + vpn * i) * Na ! i,
                   2 * k + 1 := Ud (2 * k + 1) + uelem (k + vpn * i) * Nb ! i)) Ud = (\<lambda>_. 0)"
      unfolding u for_loop_accum2 zs by (simp add: fun_eq_iff)
  qed simp
  show ?thesis
    unfolding nodeGradient2D_def Let_def e j split_conv Ud by simp
qed

lemma computeNodeDeriv2D_constant:
  assumes s: "quad_derivs_sum_to_zero forest (quad_order forest * quad_order forest)"
    and len: "\<forall>(es, nums) \<in> set (zip (procs tacs) element_nums).
                \<forall>e \<in> set (loop_elements es nums).
                  length (el_nodes e) = quad_order forest * quad_order forest"
  shows "computeNodeDeriv2D ext forest tacs (constant_field c) weights element_nums = zeroEntries"
proof -
  let ?vpn = "varsPerNode tacs"
  let ?M = "quad_order forest * quad_order forest"
  let ?S = "\<lambda>e. setValues_ADD (3 * ?vpn) (el_nodes e)
              (nodeDeriv2D_element ext forest ?vpn (el_nodes e)
                 (getValues 1 weights (el_nodes e)) (getValues ?vpn (constant_field c) (el_nodes e))
                 ((!) (el_Xpts e)) (uninit ext))"
  have el: "?S e u = u" if "length (el_nodes e) = ?M" for e u
  proof (rule setValues_ADD_zero)
    fix i k assume "i < length (el_nodes e)" "k < 3 * ?vpn"
    then have i: "i < ?M" and k: "k < 3 * ?vpn" using that by simp_all
    show "nodeDeriv2D_element ext forest ?vpn (el_nodes e)
                 (getValues 1 weights (el_nodes e)) (getValues ?vpn (constant_field c) (el_nodes e))
                 ((!) (el_Xpts e)) (uninit ext) (3 * ?vpn * i + k) = 0"
      unfolding nodeDeriv2D_element_at[OF i k]
      using nodeGradient2D_constant[OF s, where uelem = "getValues ?vpn (constant_field c) (el_nodes e)"
          and c = c]
      by simp
  qed
  have "fold (\<lambda>(es, nums). fold ?S (loop_elements es nums))
            (zip (procs tacs) element_nums) zeroEntries = zeroEntries"
  proof (rule fold_invariant[where P = "\<lambda>u. u = zeroEntries"])
    fix x u assume x: "x \<in> set (zip (procs tacs) element_nums)" and u: "u = zeroEntries"
    obtain es nums where xe: "x = (es, nums)" by (cases x)
    have "fold ?S (loop_elements es nums) u = zeroEntries"
    proof (rule fold_invariant[where P = "\<lambda>u. u = zeroEntries"])
      show "u = zeroEntries" by fact
    next
      fix e v assume e: "e \<in> set (loop_elements es nums)" and v: "v = zeroEntries"
      have "length (el_nodes e) = ?M" using len x xe e by blast
      from el[OF this, of v] show "?S e v = zeroEntries"
        using v by (simp only:)
    qed
    then show "(case x of (es, nums) \<Rightarrow> fold ?S (loop_elements es nums)) u = zeroEntries"
      by (simp add: xe)
  qed simp
  then show ?thesis
    unfolding computeNodeDeriv2D_unfold
    by (simp only: endSetValues_ADD_zero endDistributeValues_zero)
qed

lemma dot3_zero [simp]: "dot3 d (0, 0, 0) = 0"
  by (simp add: dot3_def split_def)

lemma interpDeriv2D_constant:
  assumes z: "(\<Sum>i<order * order. Na ! i) = 0" "(\<Sum>i<order * order. Nb ! i) = 0"
    and u: "\<And>idx. uvals idx = c"
  shows "interpDeriv2D vpn order uvals Na Nb J k = (0, 0, 0)"
proof -
  have zs: "(\<Sum>i<order * order. c * Na ! i) = 0" "(\<Sum>i<order * order. c * Nb ! i) = 0"
    using z by (simp_all flip: sum_distrib_left)
  have p: "for_loop M (\<lambda>i (a, b). (a + f i, b + g i)) (a0, b0)
     = (a0 + (\<Sum>i<M. f i), b0 + (\<Sum>i<M. g i))" for M and f g :: "nat \<Rightarrow> real" and a0 b0
    by (induction M) auto
  show ?thesis
    unfolding interpDeriv2D_def u p zs by simp
qed

lemma recon2D_rhs_entry_constant:
  assumes s: "quad_derivs_sum_to_zero forest (quad_order forest * quad_order forest)"
    and u: "\<And>idx. uvals idx = c" and d: "\<And>idx. uderiv idx = 0"
  shows "recon2D_rhs_entry ext vpn forest refined_forest Xpts uvals uderiv ii jj k t = 0"
proof -
  let ?M = "quad_order forest * quad_order forest"
  obtain N Na Nb where e: "quad_evalInterp forest
      [quad_knots forest ! ii, quad_knots forest ! jj] = (N, Na, Nb)"
    by (metis prod_cases3)
  have z: "(\<Sum>i<?M. Na ! i) = 0" "(\<Sum>i<?M. Nb ! i) = 0"
    using s[unfolded quad_derivs_sum_to_zero_def, rule_format, of "[quad_knots forest ! ii,
        quad_knots forest ! jj]"] unfolding e by simp_all
  show ?thesis
    unfolding recon2D_rhs_entry_def Let_def e split_conv d
    by (simp add: case_prod_unfold interpDeriv2D_constant[OF z u])
qed

lemma computeElemRecon2D_constant:
  fixes forest refined_forest ext vpn
  defines "o1 \<equiv> quad_order forest"
  assumes s: "quad_derivs_sum_to_zero forest (o1 * o1)"
    and z: "zero_rhs_zero_solution ext"
    and o: "2 \<le> o1"
    and u: "\<And>idx. uvals idx = c" and d: "\<And>idx. uderiv idx = 0"
    and i: "i < getNum2dEnrich o1" and j: "j < vpn"
  shows "computeElemRecon2D ext vpn forest refined_forest Xpts uvals uderiv ubar tmp (vpn * i + j) = 0"
proof -
  define neq where "neq = 2 * o1 * o1"
  define B where "B = getNum2dEnrich o1 * neq"
  define T where "T = elemRecon2D_assemble ext vpn forest refined_forest Xpts uvals uderiv tmp"
  have neq2: "neq = 2 * (o1 * o1)" by (simp add: neq_def mult.assoc)
  have Tz: "T (B + i') = 0" if "i' < neq * vpn" for i'
  proof -
    define k where "k = i' div neq"
    define r where "r = i' mod neq"
    define p where "p = r div 2"
    define t where "t = r mod 2"
    have neq0: "0 < neq" using that by (cases "neq = 0") simp_all
    have k: "k < vpn" unfolding k_def using that by (simp add: less_mult_imp_div_less mult.commute)
    have r: "r < neq" unfolding r_def using neq0 by simp
    have p: "p < o1 * o1" unfolding p_def using r neq2 by (simp add: less_mult_imp_div_less mult.commute)
    have t: "t < 2" unfolding t_def by simp
    have "i' = neq * k + 2 * p + t" unfolding k_def r_def p_def t_def by (simp add: add.assoc)
    then show ?thesis
      unfolding T_def B_def neq_def o1_def
      using elemRecon2D_assemble_rhs[OF p[unfolded o1_def] k t, of ext refined_forest Xpts uvals uderiv tmp]
        recon2D_rhs_entry_constant[OF s[unfolded o1_def] u d]
      by (simp add: neq_def o1_def)
  qed
  define bl where "bl = map (\<lambda>i. T (B + i)) [0..<neq * vpn]"
  have bl0: "\<forall>x \<in> set bl. x = 0" unfolding bl_def using Tz by auto
  have bll: "length bl = neq * vpn" by (simp add: bl_def)
  have sol: "LAPACKdgelss ext neq (getNum2dEnrich o1) vpn (map T [0..<neq * getNum2dEnrich o1]) bl ! idx = 0"
    if "idx < neq * vpn" for idx
    using z bll bl0 that unfolding zero_rhs_zero_solution_def by blast
  have le: "getNum2dEnrich o1 \<le> neq"
  proof -
    have "2 * 2 \<le> o1 * o1" using o by (intro mult_le_mono) simp_all
    moreover have "o1 = 2 \<or> o1 = 3 \<or> 4 \<le> o1" using o by linarith
    moreover have "4 * 4 \<le> o1 * o1" if "4 \<le> o1" using that by (intro mult_le_mono) simp_all
    moreover have "getNum2dEnrich o1 \<le> 9" by (simp add: getNum2dEnrich_def)
    ultimately show ?thesis unfolding neq2 by (auto simp: getNum2dEnrich_def)
  qed
  have ix: "neq * j + i < neq * vpn"
  proof -
    have "neq * j + neq \<le> neq * vpn" using j by (rule block_step)
    then show ?thesis using i le by linarith
  qed
  have "computeElemRecon2D ext vpn forest refined_forest Xpts uvals uderiv ubar tmp (vpn * i + j)
      = LAPACKdgelss ext neq (getNum2dEnrich o1) vpn (map T [0..<neq * getNum2dEnrich o1]) bl ! (neq * j + i)"
    unfolding computeElemRecon2D_def Let_def o1_def[symmetric] neq_def[symmetric] T_def[symmetric]
      B_def[symmetric] bl_def[symmetric]
    by (rule for_loop_copy2[OF i j])
  then show ?thesis using sol[OF ix] by simp
qed

lemma quad_example_forest_derivs: "quad_derivs_sum_to_zero quad_example_forest 4"
  unfolding quad_derivs_sum_to_zero_def quad_example_forest_def quad_evalInterp_order2_def Let_def
  by (simp add: lessThan_Suc eval_nat_numeral lagrange2_def dlagrange2_def field_simps)

text \<open>
  Claim C3. For a constant nodal field, with a Lagrange basis whose derivatives sum to
  zero at every point and a least-squares routine that returns the zero solution for a
  zero right-hand side: on an octree mesh whose elements have \<open>order\<^sup>3\<close> nodes the vector
  produced by \<^verbatim>\<open>computeNodeDeriv3D\<close> is zero at every independent node, and for every
  element (any node list, node locations, refined forest and prior content of the
  scratch arrays) every enrichment coefficient returned by \<^verbatim>\<open>computeElemRecon3D\<close> is
  zero; on a quadtree mesh whose elements have \<open>order\<^sup>2\<close> nodes the same holds for
  \<^verbatim>\<open>computeNodeDeriv2D\<close> and \<^verbatim>\<open>computeElemRecon2D\<close>.
\<close>

theorem constant_field_null:
  fixes forest :: forest and qforest :: quadforest
    and tacs qtacs ext weights element_nums qweights qelement_nums c
  defines "o1 \<equiv> interp_order forest"
  defines "vpn \<equiv> varsPerNode tacs"
  defines "D \<equiv> computeNodeDeriv3D ext forest tacs (constant_field c) weights element_nums"
  defines "q1 \<equiv> quad_order qforest"
  defines "qvpn \<equiv> varsPerNode qtacs"
  defines "Dq \<equiv> computeNodeDeriv2D ext qforest qtacs (constant_field c) qweights qelement_nums"
  assumes s: "derivs_sum_to_zero forest (o1 * o1 * o1)"
    and z: "zero_rhs_zero_solution ext"
    and o: "o1 = 2 \<or> o1 = 3"
    and len: "\<forall>(es, nums) \<in> set (zip (procs tacs) element_nums).
                \<forall>e \<in> set (loop_elements es nums). length (el_nodes e) = o1 * o1 * o1"
    and qs: "quad_derivs_sum_to_zero qforest (q1 * q1)"
    and qo: "2 \<le> q1"
    and qlen: "\<forall>(es, nums) \<in> set (zip (procs qtacs) qelement_nums).
                \<forall>e \<in> set (loop_elements es nums). length (el_nodes e) = q1 * q1"
  shows "(\<forall>n. bv_x D n = 0) \<and>
         (\<forall>nodes refined_forest Xpts ubar tmp. \<forall>i < getNum3dEnrich o1. \<forall>j < vpn.
            computeElemRecon3D ext vpn forest refined_forest Xpts
              (getValues vpn (constant_field c) nodes) (getValues (3 * vpn) D nodes) ubar tmp
              (vpn * i + j) = 0) \<and>
         (\<forall>n. bv_x Dq n = 0) \<and>
         (\<forall>nodes refined_forest Xpts ubar tmp. \<forall>i < getNum2dEnrich q1. \<forall>j < qvpn.
            computeElemRecon2D ext qvpn qforest refined_forest Xpts
              (getValues qvpn (constant_field c) nodes) (getValues (3 * qvpn) Dq nodes) ubar tmp
              (qvpn * i + j) = 0)"
proof -
  have D0: "D = zeroEntries"
    unfolding D_def using computeNodeDeriv3D_constant[OF s[unfolded o1_def] len[unfolded o1_def]] .
  have 1: "\<forall>n. bv_x D n = 0" by (simp add: D0 zeroEntries_def)
  have 2: "computeElemRecon3D ext vpn forest refined_forest Xpts
              (getValues vpn (constant_field c) nodes) (getValues (3 * vpn) D nodes) ubar tmp
              (vpn * i + j) = 0"
    if "i < getNum3dEnrich o1" "j < vpn" for nodes refined_forest Xpts ubar tmp i j
    unfolding D0
    by (rule computeElemRecon3D_constant[OF s[unfolded o1_def] z o[unfolded o1_def] _ _
          that(1)[unfolded o1_def] that(2), where c = c]) simp_all
  have Dq0: "Dq = zeroEntries"
    unfolding Dq_def using computeNodeDeriv2D_constant[OF qs[unfolded q1_def] qlen[unfolded q1_def]] .
  have 3: "\<forall>n. bv_x Dq n = 0" by (simp add: Dq0 zeroEntries_def)
  have 4: "computeElemRecon2D ext qvpn qforest refined_forest Xpts
              (getValues qvpn (constant_field c) nodes) (getValues (3 * qvpn) Dq nodes) ubar tmp
              (qvpn * i + j) = 0"
    if "i < getNum2dEnrich q1" "j < qvpn" for nodes refined_forest Xpts ubar tmp i j
    unfolding Dq0
    by (rule computeElemRecon2D_constant[OF qs[unfolded q1_def] z qo[unfolded q1_def] _ _
          that(1)[unfolded q1_def] that(2), where c = c]) simp_all
  show ?thesis using 1 2 3 4 by blast
qed

text \<open>
  The theorem of C3 with the field \<open>U \<equiv> 5\<close>: on the one-element octree mesh, node 3 and
  the enrichment coefficient 4; on the quadtree mesh of two elements, node 1 and the
  enrichment coefficient 4 of the second variable.
\<close>

theorem constant_field_null_witness:
  "derivs_sum_to_zero example_forest
     (interp_order example_forest * interp_order example_forest * interp_order example_forest) \<and>
   zero_rhs_zero_solution example_ext \<and>
   (interp_order example_forest = 2 \<or> interp_order example_forest = 3) \<and>
   quad_derivs_sum_to_zero quad_example_forest
     (quad_order quad_example_forest * quad_order quad_example_forest) \<and>
   2 \<le> quad_order quad_example_forest \<and>
   (4::nat) < getNum3dEnrich (interp_order example_forest) \<and>
   (0::nat) < varsPerNode example_tacs \<and>
   (4::nat) < getNum2dEnrich (quad_order quad_example_forest) \<and>
   (1::nat) < varsPerNode quad_pair_tacs \<and>
   bv_x (computeNodeDeriv3D example_ext example_forest example_tacs (constant_field 5)
          unit_weights [None]) 3 = 0 \<and>
   computeElemRecon3D example_ext (varsPerNode example_tacs) example_forest example_forest
     ((!) (el_Xpts example_element))
     (getValues (varsPerNode example_tacs) (constant_field 5) (el_nodes example_element))
     (getValues (3 * varsPerNode example_tacs)
        (computeNodeDeriv3D example_ext example_forest example_tacs (constant_field 5)
           unit_weights [None]) (el_nodes example_element))
     (\<lambda>_. 7) (\<lambda>_. 9) (varsPerNode example_tacs * 4 + 0) = 0 \<and>
   bv_x (computeNodeDeriv2D example_ext quad_example_forest quad_pair_tacs (constant_field 5)
          quad_pair_weights [None, None]) 1 = 0 \<and>
   computeElemRecon2D example_ext (varsPerNode quad_pair_tacs) quad_example_forest
     quad_example_forest ((!) (el_Xpts (quad_pair_element [0, 1, 2, 3] 0)))
     (getValues (varsPerNode quad_pair_tacs) (constant_field 5) [0, 1, 2, 3])
     (getValues (3 * varsPerNode quad_pair_tacs)
        (computeNodeDeriv2D example_ext quad_example_forest quad_pair_tacs (constant_field 5)
           quad_pair_weights [None, None]) [0, 1, 2, 3])
     (\<lambda>_. 7) (\<lambda>_. 9) (varsPerNode quad_pair_tacs * 4 + 1) = 0"
proof -
  have h1: "derivs_sum_to_zero example_forest
     (interp_order example_forest * interp_order example_forest * interp_order example_forest)"
    using example_forest_derivs by (simp add: example_forest_def)
  have h2: "zero_rhs_zero_solution example_ext" by (rule example_ext_solver)
  have h3: "interp_order example_forest = 2 \<or> interp_order example_forest = 3"
    by (simp add: example_forest_def)
  have h4: "\<forall>(es, nums) \<in> set (zip (procs example_tacs) [None]).
      \<forall>e \<in> set (loop_elements es nums).
        length (el_nodes e) = interp_order example_forest * interp_order example_forest *
                              interp_order example_forest"
    by (simp add: example_tacs_def example_forest_def example_element_def loop_elements_def)
  have h5: "(4::nat) < getNum3dEnrich (interp_order example_forest)"
    by (simp add: example_forest_def getNum3dEnrich_def)
  have h6: "(0::nat) < varsPerNode example_tacs" by (simp add: example_tacs_def)
  have q1: "quad_derivs_sum_to_zero quad_example_forest
     (quad_order quad_example_forest * quad_order quad_example_forest)"
    using quad_example_forest_derivs by (simp add: quad_example_forest_def)
  have q2: "2 \<le> quad_order quad_example_forest" by (simp add: quad_example_forest_def)
  have q3: "\<forall>(es, nums) \<in> set (zip (procs quad_pair_tacs) [None, None]).
      \<forall>e \<in> set (loop_elements es nums).
        length (el_nodes e) = quad_order quad_example_forest * quad_order quad_example_forest"
    by (simp add: quad_pair_tacs_def quad_example_forest_def quad_pair_element_def
        loop_elements_def)
  have q5: "(4::nat) < getNum2dEnrich (quad_order quad_example_forest)"
    by (simp add: quad_example_forest_def getNum2dEnrich_def)
  have q6: "(1::nat) < varsPerNode quad_pair_tacs" by (simp add: quad_pair_tacs_def)
  note t = constant_field_null[OF h1 h2 h3 h4 q1 q2 q3, where weights = unit_weights and c = 5
      and qweights = quad_pair_weights]
  show ?thesis using h1 h2 h3 h5 h6 q1 q2 q5 q6 t by blast
qed

section \<open>The weighted average of the projector\<close>

lemma pair_weights_x:
  "map (bv_x pair_weights) [0..<12] = [2, 2, 1, 1, 2, 2, 1, 1, 1, 1, 1, 1]"
  unfolding pair_weights_def computeLocalWeights_def Let_def
  by (simp add: pair_tacs_def pair_element_def loop_elements_def endDistributeValues_def
      endSetValues_ADD_def setValues_ADD_def add_value_def zeroEntries_def upt_rec[of _ "numeral _"]
      eval_nat_numeral)

lemma quad_pair_weights_x:
  "map (bv_x quad_pair_weights) [0..<6] = [2, 2, 1, 1, 1, 1]"
  unfolding quad_pair_weights_def computeLocalWeights_def Let_def
  by (simp add: quad_pair_tacs_def quad_pair_element_def loop_elements_def endDistributeValues_def
      endSetValues_ADD_def setValues_ADD_def add_value_def zeroEntries_def upt_rec[of _ "numeral _"]
      eval_nat_numeral)

text \<open>
  Claim C4. After \<^verbatim>\<open>computeNodeDeriv3D\<close> has finalised the additions and distributed
  the vector, the entry of the derivative vector for an independent node \<open>n\<close> of positive
  weight, variable \<open>k\<close> and direction \<open>t\<close> is \<open>1 / w[n]\<close> times the sum, over every
  element that any process iterates over and every slot of it whose node number is \<open>n\<close>,
  of the physical-space gradient of the interpolated field at the knot of that slot,
  \<open>J\<^sup>T \<Sum>\<^sub>i N\<^sub>i\<^sub>,\<^sub>\<xi> U\<^sub>i\<close>. A slot whose node number is negative hands zeros to the vector.
  The same holds for \<^verbatim>\<open>computeNodeDeriv2D\<close> on a quadtree mesh.
\<close>

theorem computeNodeDeriv_weighted_average:
  fixes forest :: forest and qforest :: quadforest
    and tacs qtacs ext uvec weights element_nums quvec qweights qelement_nums
  defines "o1 \<equiv> interp_order forest"
  defines "vpn \<equiv> varsPerNode tacs"
  defines "knot \<equiv> \<lambda>p. [interp_knots forest ! (p mod o1), interp_knots forest ! ((p div o1) mod o1),
                        interp_knots forest ! (p div (o1 * o1))]"
  defines "q1 \<equiv> quad_order qforest"
  defines "qvpn \<equiv> varsPerNode qtacs"
  defines "qknot \<equiv> \<lambda>p. [quad_knots qforest ! (p mod q1), quad_knots qforest ! (p div q1)]"
  assumes len: "\<forall>(es, nums) \<in> set (zip (procs tacs) element_nums).
                  \<forall>e \<in> set (loop_elements es nums). length (el_nodes e) = o1 * o1 * o1"
    and k: "k < vpn" and t: "t < 3" and w: "0 < bv_x weights n"
    and qlen: "\<forall>(es, nums) \<in> set (zip (procs qtacs) qelement_nums).
                  \<forall>e \<in> set (loop_elements es nums). length (el_nodes e) = q1 * q1"
    and qk: "qk < qvpn" and qt: "qt < 3" and qw: "0 < bv_x qweights qn"
  shows "bv_x (computeNodeDeriv3D ext forest tacs uvec weights element_nums)
           (3 * vpn * n + (3 * k + t)) =
           1 / bv_x weights n *
           (\<Sum>(es, nums)\<leftarrow>zip (procs tacs) element_nums. \<Sum>e\<leftarrow>loop_elements es nums.
              \<Sum>p<o1 * o1 * o1. if el_nodes e ! p = int n
                 then physical_gradient3D ext forest vpn ((!) (el_Xpts e))
                        (getValues vpn uvec (el_nodes e)) (knot p) k t
                 else 0) \<and>
         (\<forall>(es, nums) \<in> set (zip (procs tacs) element_nums). \<forall>e \<in> set (loop_elements es nums).
           \<forall>p < o1 * o1 * o1. \<forall>j < 3 * vpn. el_nodes e ! p < 0 \<longrightarrow>
             nodeDeriv3D_element ext forest vpn (el_nodes e) (getValues 1 weights (el_nodes e))
               (getValues vpn uvec (el_nodes e)) ((!) (el_Xpts e)) (uninit ext) (3 * vpn * p + j) = 0) \<and>
         bv_x (computeNodeDeriv2D ext qforest qtacs quvec qweights qelement_nums)
           (3 * qvpn * qn + (3 * qk + qt)) =
           1 / bv_x qweights qn *
           (\<Sum>(es, nums)\<leftarrow>zip (procs qtacs) qelement_nums. \<Sum>e\<leftarrow>loop_elements es nums.
              \<Sum>p<q1 * q1. if el_nodes e ! p = int qn
                 then physical_gradient2D ext qforest qvpn ((!) (el_Xpts e))
                        (getValues qvpn quvec (el_nodes e)) (qknot p) qk qt
                 else 0) \<and>
         (\<forall>(es, nums) \<in> set (zip (procs qtacs) qelement_nums). \<forall>e \<in> set (loop_elements es nums).
           \<forall>p < q1 * q1. \<forall>j < 3 * qvpn. el_nodes e ! p < 0 \<longrightarrow>
             nodeDeriv2D_element ext qforest qvpn (el_nodes e) (getValues 1 qweights (el_nodes e))
               (getValues qvpn quvec (el_nodes e)) ((!) (el_Xpts e)) (uninit ext)
               (3 * qvpn * p + j) = 0)"
proof -
  have a: "bv_x (computeNodeDeriv3D ext forest tacs uvec weights element_nums)
           (3 * vpn * n + (3 * k + t)) =
           1 / bv_x weights n *
           (\<Sum>(es, nums)\<leftarrow>zip (procs tacs) element_nums. \<Sum>e\<leftarrow>loop_elements es nums.
              \<Sum>p<o1 * o1 * o1. if el_nodes e ! p = int n
                 then physical_gradient3D ext forest vpn ((!) (el_Xpts e))
                        (getValues vpn uvec (el_nodes e)) (knot p) k t
                 else 0)"
    using computeNodeDeriv3D_sum(1)[where forest = forest and tacs = tacs
        and element_nums = element_nums and k = k and t = t and weights = weights and n = n
        and ext = ext and uvec = uvec] len k t w
    unfolding o1_def vpn_def knot_def
    by (simp add: nodeGradient3D_physical cong: if_cong)
  have b: "\<forall>(es, nums) \<in> set (zip (procs tacs) element_nums). \<forall>e \<in> set (loop_elements es nums).
           \<forall>p < o1 * o1 * o1. \<forall>j < 3 * vpn. el_nodes e ! p < 0 \<longrightarrow>
             nodeDeriv3D_element ext forest vpn (el_nodes e) (getValues 1 weights (el_nodes e))
               (getValues vpn uvec (el_nodes e)) ((!) (el_Xpts e)) (uninit ext) (3 * vpn * p + j) = 0"
    unfolding o1_def by (auto simp: nodeDeriv3D_element_at)
  have c: "bv_x (computeNodeDeriv2D ext qforest qtacs quvec qweights qelement_nums)
           (3 * qvpn * qn + (3 * qk + qt)) =
           1 / bv_x qweights qn *
           (\<Sum>(es, nums)\<leftarrow>zip (procs qtacs) qelement_nums. \<Sum>e\<leftarrow>loop_elements es nums.
              \<Sum>p<q1 * q1. if el_nodes e ! p = int qn
                 then physical_gradient2D ext qforest qvpn ((!) (el_Xpts e))
                        (getValues qvpn quvec (el_nodes e)) (qknot p) qk qt
                 else 0)"
    using computeNodeDeriv2D_sum[where forest = qforest and tacs = qtacs
        and element_nums = qelement_nums and k = qk and t = qt and weights = qweights and n = qn
        and ext = ext and uvec = quvec] qlen qk qt
    unfolding q1_def qvpn_def qknot_def
    by (simp add: nodeGradient2D_physical cong: if_cong)
  have d: "\<forall>(es, nums) \<in> set (zip (procs qtacs) qelement_nums). \<forall>e \<in> set (loop_elements es nums).
           \<forall>p < q1 * q1. \<forall>j < 3 * qvpn. el_nodes e ! p < 0 \<longrightarrow>
             nodeDeriv2D_element ext qforest qvpn (el_nodes e) (getValues 1 qweights (el_nodes e))
               (getValues qvpn quvec (el_nodes e)) ((!) (el_Xpts e)) (uninit ext)
               (3 * qvpn * p + j) = 0"
    unfolding q1_def by (auto simp: nodeDeriv2D_element_at)
  show ?thesis using a b c d by blast
qed

lemma pair_weights_at:
  "bv_x pair_weights 0 = 2" "bv_x pair_weights 2 = 1"
  using pair_weights_x by (simp_all add: upt_rec[of _ "numeral _"] numeral_2_eq_2)

lemma quad_pair_weights_at:
  "bv_x quad_pair_weights 0 = 2" "bv_x quad_pair_weights 2 = 1"
  using quad_pair_weights_x by (simp_all add: upt_rec[of _ "numeral _"] numeral_2_eq_2)

lemma sum_upto_eight:
  "(\<Sum>i<(8::nat). f i) = f 0 + f 1 + f 2 + f 3 + f 4 + f 5 + f 6 + (f 7 :: real)"
  by (simp add: lessThan_Suc eval_nat_numeral)

lemma interp2_lists:
  "evalInterp_order2 pt =
    ([(1 - pt ! 0) / 2 * ((1 - pt ! 1) / 2) * ((1 - pt ! 2) / 2),
      (1 + pt ! 0) / 2 * ((1 - pt ! 1) / 2) * ((1 - pt ! 2) / 2),
      (1 - pt ! 0) / 2 * ((1 + pt ! 1) / 2) * ((1 - pt ! 2) / 2),
      (1 + pt ! 0) / 2 * ((1 + pt ! 1) / 2) * ((1 - pt ! 2) / 2),
      (1 - pt ! 0) / 2 * ((1 - pt ! 1) / 2) * ((1 + pt ! 2) / 2),
      (1 + pt ! 0) / 2 * ((1 - pt ! 1) / 2) * ((1 + pt ! 2) / 2),
      (1 - pt ! 0) / 2 * ((1 + pt ! 1) / 2) * ((1 + pt ! 2) / 2),
      (1 + pt ! 0) / 2 * ((1 + pt ! 1) / 2) * ((1 + pt ! 2) / 2)],
     [- 1 / 2 * ((1 - pt ! 1) / 2) * ((1 - pt ! 2) / 2),
      1 / 2 * ((1 - pt ! 1) / 2) * ((1 - pt ! 2) / 2),
      - 1 / 2 * ((1 + pt ! 1) / 2) * ((1 - pt ! 2) / 2),
      1 / 2 * ((1 + pt ! 1) / 2) * ((1 - pt ! 2) / 2),
      - 1 / 2 * ((1 - pt ! 1) / 2) * ((1 + pt ! 2) / 2),
      1 / 2 * ((1 - pt ! 1) / 2) * ((1 + pt ! 2) / 2),
      - 1 / 2 * ((1 + pt ! 1) / 2) * ((1 + pt ! 2) / 2),
      1 / 2 * ((1 + pt ! 1) / 2) * ((1 + pt ! 2) / 2)],
     [(1 - pt ! 0) / 2 * (- 1 / 2) * ((1 - pt ! 2) / 2),
      (1 + pt ! 0) / 2 * (- 1 / 2) * ((1 - pt ! 2) / 2),
      (1 - pt ! 0) / 2 * (1 / 2) * ((1 - pt ! 2) / 2),
      (1 + pt ! 0) / 2 * (1 / 2) * ((1 - pt ! 2) / 2),
      (1 - pt ! 0) / 2 * (- 1 / 2) * ((1 + pt ! 2) / 2),
      (1 + pt ! 0) / 2 * (- 1 / 2) * ((1 + pt ! 2) / 2),
      (1 - pt ! 0) / 2 * (1 / 2) * ((1 + pt ! 2) / 2),
      (1 + pt ! 0) / 2 * (1 / 2) * ((1 + pt ! 2) / 2)],
     [(1 - pt ! 0) / 2 * ((1 - pt ! 1) / 2) * (- 1 / 2),
      (1 + pt ! 0) / 2 * ((1 - pt ! 1) / 2) * (- 1 / 2),
      (1 - pt ! 0) / 2 * ((1 + pt ! 1) / 2) * (- 1 / 2),
      (1 + pt ! 0) / 2 * ((1 + pt ! 1) / 2) * (- 1 / 2),
      (1 - pt ! 0) / 2 * ((1 - pt ! 1) / 2) * (1 / 2),
      (1 + pt ! 0) / 2 * ((1 - pt ! 1) / 2) * (1 / 2),
      (1 - pt ! 0) / 2 * ((1 + pt ! 1) / 2) * (1 / 2),
      (1 + pt ! 0) / 2 * ((1 + pt ! 1) / 2) * (1 / 2)])"
  by (simp add: evalInterp_order2_def lagrange2_def dlagrange2_def Let_def)

lemma pair_Xd:
  "(\<lambda>idx. if idx < 9
          then \<Sum>i<8. (el_Xpts (pair_element nodes y0 f0) ! (3 * i + idx mod 3)) *
                 [fst (snd (evalInterp_order2 pt)), fst (snd (snd (evalInterp_order2 pt))),
                  snd (snd (snd (evalInterp_order2 pt)))] ! (idx div 3) ! i
          else 0) =
   (\<lambda>idx. if idx < 9 then [1 / 2, 0, 0, 0, 1 / 2, 0, 0, 0, 1 / 2] ! idx else 0)"
proof
  fix idx :: nat
  consider "idx = 0" | "idx = 1" | "idx = 2" | "idx = 3" | "idx = 4" | "idx = 5" | "idx = 6"
    | "idx = 7" | "idx = 8" | "9 \<le> idx" by linarith
  then show "(if idx < 9
          then \<Sum>i<8. (el_Xpts (pair_element nodes y0 f0) ! (3 * i + idx mod 3)) *
                 [fst (snd (evalInterp_order2 pt)), fst (snd (snd (evalInterp_order2 pt))),
                  snd (snd (snd (evalInterp_order2 pt)))] ! (idx div 3) ! i
          else 0) =
        (if idx < 9 then [1 / 2, 0, 0, 0, 1 / 2, 0, 0, 0, 1 / 2] ! idx else 0)"
    by cases (simp_all add: interp2_lists pair_element_def sum_upto_eight field_simps)
qed

lemma jacobian_half:
  "jacobian3d_exact (\<lambda>idx. if idx < 9 then [1 / 2, 0, 0, 0, 1 / 2, 0, 0, 0, 1 / 2] ! idx else 0) =
   (1 / 8, (!) [2, 0, 0, 0, 2, 0, 0, 0, 2])"
  by (simp add: jacobian3d_exact_def)

lemma pair_gradient:
  assumes t: "t < 3"
  shows "physical_gradient3D example_ext example_forest vpn
           ((!) (el_Xpts (pair_element nodes y0 f0))) U pt k t =
         2 * (\<Sum>i<8. U (k + vpn * i) *
                [fst (snd (evalInterp_order2 pt)), fst (snd (snd (evalInterp_order2 pt))),
                 snd (snd (snd (evalInterp_order2 pt)))] ! t ! i)"
proof -
  have o: "interp_order example_forest * interp_order example_forest * interp_order example_forest = 8"
    by (simp add: example_forest_def)
  have e: "evalInterp example_forest pt = evalInterp_order2 pt" by (simp add: example_forest_def)
  have j: "jacobian3d example_ext = jacobian3d_exact" by (simp add: example_ext_def)
  consider "t = 0" | "t = 1" | "t = 2" using t by linarith
  then show ?thesis
    unfolding physical_gradient3D_def Let_def o e split_def j pair_Xd jacobian_half snd_conv
    by cases (simp_all add: sum_upto_three)
qed

lemma pair_field_A: "map (getValues 3 pair_field [0, 1, 2, 3, 4, 5, 6, 7]) [0, 3, 6, 9, 12, 15, 18, 21] =
    [0, 0, 1, 1, 0, 0, 1, 1]"
  by (simp add: getValues_def pair_field_def Let_def)

lemma pair_field_B: "map (getValues 3 pair_field [8, 9, 0, 1, 10, 11, 4, 5]) [0, 3, 6, 9, 12, 15, 18, 21] =
    [3, 3, 0, 0, 3, 3, 0, 0]"
  by (simp add: getValues_def pair_field_def Let_def)

lemma pair_gradient_values:
  "physical_gradient3D example_ext example_forest 3
     ((!) (el_Xpts (pair_element [0, 1, 2, 3, 4, 5, 6, 7] 0 2)))
     (getValues 3 pair_field [0, 1, 2, 3, 4, 5, 6, 7]) [- 1, - 1, - 1] 0 1 = 1"
  "physical_gradient3D example_ext example_forest 3
     ((!) (el_Xpts (pair_element [8, 9, 0, 1, 10, 11, 4, 5] (- 1) 1)))
     (getValues 3 pair_field [8, 9, 0, 1, 10, 11, 4, 5]) [- 1, 1, - 1] 0 1 = - 3"
  "physical_gradient3D example_ext example_forest 3
     ((!) (el_Xpts (pair_element [0, 1, 2, 3, 4, 5, 6, 7] 0 2)))
     (getValues 3 pair_field [0, 1, 2, 3, 4, 5, 6, 7]) [- 1, 1, - 1] 0 1 = 1"
  using pair_field_A pair_field_B
  by (simp_all add: pair_gradient interp2_lists sum_upto_eight)

lemma sum_upto_four:
  "(\<Sum>i<(4::nat). f i) = f 0 + f 1 + f 2 + (f 3 :: real)"
  by (simp add: lessThan_Suc eval_nat_numeral)

lemma quad_interp2_lists:
  "quad_evalInterp_order2 pt =
    ([(1 - pt ! 0) / 2 * ((1 - pt ! 1) / 2), (1 + pt ! 0) / 2 * ((1 - pt ! 1) / 2),
      (1 - pt ! 0) / 2 * ((1 + pt ! 1) / 2), (1 + pt ! 0) / 2 * ((1 + pt ! 1) / 2)],
     [- 1 / 2 * ((1 - pt ! 1) / 2), 1 / 2 * ((1 - pt ! 1) / 2),
      - 1 / 2 * ((1 + pt ! 1) / 2), 1 / 2 * ((1 + pt ! 1) / 2)],
     [(1 - pt ! 0) / 2 * (- 1 / 2), (1 + pt ! 0) / 2 * (- 1 / 2),
      (1 - pt ! 0) / 2 * (1 / 2), (1 + pt ! 0) / 2 * (1 / 2)])"
  by (simp add: quad_evalInterp_order2_def lagrange2_def dlagrange2_def Let_def)

lemma quad_pair_tangent:
  assumes "a < 2" "c < 3"
  shows "(\<Sum>i<4. el_Xpts (quad_pair_element nodes y0) ! (3 * i + c) *
            [fst (snd (quad_evalInterp_order2 pt)), snd (snd (quad_evalInterp_order2 pt))] ! a ! i) =
         [[1 / 2, 0, 0], [0, 1 / 2, 0]] ! a ! c"
proof -
  consider "a = 0" "c = 0" | "a = 0" "c = 1" | "a = 0" "c = 2"
    | "a = 1" "c = 0" | "a = 1" "c = 1" | "a = 1" "c = 2"
    using assms by linarith
  then show ?thesis
    by cases (simp_all add: quad_interp2_lists quad_pair_element_def sum_upto_four field_simps)
qed

lemma example_normal:
  "normalize3D example_ext (crossProduct3D example_ext (1 / 2, 0, 0) (0, 1 / 2, 0)) = (0, 0, 1)"
proof -
  have "sqrt (1 / 16) = 1 / 4" using real_sqrt_abs[of "1 / 4"] by (simp add: power2_eq_square)
  then show ?thesis by (simp add: example_ext_def)
qed

lemma jacobian_quad:
  "jacobian3d_exact (\<lambda>idx. if idx < 6 then [[1 / 2, 0, 0], [0, 1 / 2, 0]] ! (idx div 3) ! (idx mod 3)
                          else if idx < 9 then [0, 0, 1] ! (idx - 6) else 0) =
   (1 / 4, (!) [2, 0, 0, 0, 2, 0, 0, 0, 1])"
  by (simp add: jacobian3d_exact_def)

lemma quad_pair_gradient:
  assumes t: "t < 3"
  shows "physical_gradient2D example_ext quad_example_forest vpn
           ((!) (el_Xpts (quad_pair_element nodes y0))) U pt k t =
         (if t < 2
          then 2 * (\<Sum>i<4. U (k + vpn * i) *
                      [fst (snd (quad_evalInterp_order2 pt)),
                       snd (snd (quad_evalInterp_order2 pt))] ! t ! i)
          else 0)"
proof -
  let ?T = "\<lambda>a c. \<Sum>i<4. el_Xpts (quad_pair_element nodes y0) ! (3 * i + c) *
            [fst (snd (quad_evalInterp_order2 pt)), snd (snd (quad_evalInterp_order2 pt))] ! a ! i"
  have o: "quad_order quad_example_forest * quad_order quad_example_forest = 4"
    by (simp add: quad_example_forest_def)
  have e: "quad_evalInterp quad_example_forest pt = quad_evalInterp_order2 pt"
    by (simp add: quad_example_forest_def)
  have j: "jacobian3d example_ext = jacobian3d_exact" by (simp add: example_ext_def)
  have v: "?T 0 0 = 1 / 2" "?T 0 1 = 0" "?T 0 2 = 0" "?T 1 0 = 0" "?T 1 1 = 1 / 2" "?T 1 2 = 0"
    using quad_pair_tangent[of 0 0 nodes y0 pt] quad_pair_tangent[of 0 1 nodes y0 pt]
      quad_pair_tangent[of 0 2 nodes y0 pt] quad_pair_tangent[of 1 0 nodes y0 pt]
      quad_pair_tangent[of 1 1 nodes y0 pt] quad_pair_tangent[of 1 2 nodes y0 pt]
    by simp_all
  have Xd: "(\<lambda>idx. if idx < 6 then ?T (idx div 3) (idx mod 3)
                   else if idx < 9 then [0, 0, 1] ! (idx - 6) else 0) =
     (\<lambda>idx. if idx < 6 then [[1 / 2, 0, 0], [0, 1 / 2, 0]] ! (idx div 3) ! (idx mod 3)
                          else if idx < 9 then [0, 0, 1] ! (idx - 6) else 0)"
  proof
    fix idx :: nat
    show "(if idx < 6 then ?T (idx div 3) (idx mod 3)
                   else if idx < 9 then [0, 0, 1] ! (idx - 6) else 0) =
       (if idx < 6 then [[1 / 2, 0, 0], [0, 1 / 2, 0]] ! (idx div 3) ! (idx mod 3)
                          else if idx < 9 then [0, 0, 1] ! (idx - 6) else 0)"
    proof (cases "idx < 6")
      case True
      then have "idx div 3 < 2" "idx mod 3 < 3" by simp_all
      then show ?thesis using True quad_pair_tangent[of "idx div 3" "idx mod 3" nodes y0 pt]
        by simp
    next
      case False
      then show ?thesis by simp
    qed
  qed
  have n: "normalize3D example_ext
             (crossProduct3D example_ext (?T 0 0, ?T 0 1, ?T 0 2) (?T 1 0, ?T 1 1, ?T 1 2)) =
           (0, 0, 1)"
    unfolding v by (rule example_normal)
  have r: "physical_gradient2D example_ext quad_example_forest vpn
           ((!) (el_Xpts (quad_pair_element nodes y0))) U pt k t =
        (\<Sum>a<2. (\<Sum>i<4. U (k + vpn * i) *
                      [fst (snd (quad_evalInterp_order2 pt)),
                       snd (snd (quad_evalInterp_order2 pt))] ! a ! i) *
               [2, 0, 0, 0, 2, 0, 0, 0, 1] ! (3 * t + a))"
    unfolding physical_gradient2D_def Let_def o e split_def j
    by (simp only: n fst_conv snd_conv Xd jacobian_quad)
  consider "t = 0" | "t = 1" | "t = 2" using t by linarith
  then show ?thesis
    unfolding r by cases (simp_all add: sum_upto_two)
qed

lemma quad_pair_field_A:
  "map (getValues 2 quad_pair_field [0, 1, 2, 3]) [1, 3, 5, 7] = [0, 0, 1, 1]"
  by (simp add: getValues_def quad_pair_field_def Let_def)

lemma quad_pair_field_B:
  "map (getValues 2 quad_pair_field [4, 5, 0, 1]) [1, 3, 5, 7] = [3, 3, 0, 0]"
  by (simp add: getValues_def quad_pair_field_def Let_def)

lemma quad_pair_gradient_values:
  "physical_gradient2D example_ext quad_example_forest 2
     ((!) (el_Xpts (quad_pair_element [0, 1, 2, 3] 0)))
     (getValues 2 quad_pair_field [0, 1, 2, 3]) [- 1, - 1] 1 1 = 1"
  "physical_gradient2D example_ext quad_example_forest 2
     ((!) (el_Xpts (quad_pair_element [4, 5, 0, 1] (- 1))))
     (getValues 2 quad_pair_field [4, 5, 0, 1]) [- 1, 1] 1 1 = - 3"
  using quad_pair_field_A quad_pair_field_B
  by (simp_all add: quad_pair_gradient quad_interp2_lists sum_upto_four)

lemma pair_element_nodes: "el_nodes (pair_element nodes y0 f0) = nodes"
  by (simp add: pair_element_def)

lemma quad_pair_element_nodes: "el_nodes (quad_pair_element nodes y0) = nodes"
  by (simp add: quad_pair_element_def)

text \<open>
  The theorem of C4 on the two cubes and on the two squares, at the shared node 0 in
  the direction \<open>y\<close>: the gradient samples of the two elements are 1 and \<open>-3\<close>, the weight
  is 2, and the entry of the derivative vector is \<open>-1\<close>.
\<close>

theorem computeNodeDeriv_weighted_average_witness:
  "(0::nat) < varsPerNode pair_tacs \<and> (1::nat) < 3 \<and> 0 < bv_x pair_weights 0 \<and>
   (1::nat) < varsPerNode quad_pair_tacs \<and> 0 < bv_x quad_pair_weights 0 \<and>
   bv_x (computeNodeDeriv3D example_ext example_forest pair_tacs pair_field pair_weights
           [None, None]) (3 * varsPerNode pair_tacs * 0 + (3 * 0 + 1)) = - 1 \<and>
   bv_x (computeNodeDeriv2D example_ext quad_example_forest quad_pair_tacs quad_pair_field
           quad_pair_weights [None, None]) (3 * varsPerNode quad_pair_tacs * 0 + (3 * 1 + 1)) = - 1"
proof -
  have h1: "\<forall>(es, nums) \<in> set (zip (procs pair_tacs) [None, None]).
      \<forall>e \<in> set (loop_elements es nums).
        length (el_nodes e) = interp_order example_forest * interp_order example_forest *
                              interp_order example_forest"
    by (simp add: pair_tacs_def example_forest_def pair_element_nodes loop_elements_def)
  have h2: "0 < varsPerNode pair_tacs" by (simp add: pair_tacs_def)
  have h3: "(1::nat) < 3" by simp
  have h4: "0 < bv_x pair_weights 0" by (simp add: pair_weights_at)
  have q1: "\<forall>(es, nums) \<in> set (zip (procs quad_pair_tacs) [None, None]).
      \<forall>e \<in> set (loop_elements es nums).
        length (el_nodes e) = quad_order quad_example_forest * quad_order quad_example_forest"
    by (simp add: quad_pair_tacs_def quad_example_forest_def quad_pair_element_nodes
        loop_elements_def)
  have q2: "1 < varsPerNode quad_pair_tacs" by (simp add: quad_pair_tacs_def)
  have q4: "0 < bv_x quad_pair_weights 0" by (simp add: quad_pair_weights_at)
  note t = computeNodeDeriv_weighted_average[OF h1 h2 h3 h4 q1 q2 h3 q4, where ext = example_ext
      and uvec = pair_field and quvec = quad_pair_field]
  have v: "varsPerNode pair_tacs = 3" "procs pair_tacs =
      [[pair_element [0, 1, 2, 3, 4, 5, 6, 7] 0 2], [pair_element [8, 9, 0, 1, 10, 11, 4, 5] (- 1) 1]]"
    "varsPerNode quad_pair_tacs = 2" "procs quad_pair_tacs =
      [[quad_pair_element [0, 1, 2, 3] 0], [quad_pair_element [4, 5, 0, 1] (- 1)]]"
    by (simp_all add: pair_tacs_def quad_pair_tacs_def)
  have f: "interp_order example_forest = 2" "interp_knots example_forest = [- 1, 1]"
    "quad_order quad_example_forest = 2" "quad_knots quad_example_forest = [- 1, 1]"
    by (simp_all add: example_forest_def quad_example_forest_def)
  have a: "bv_x (computeNodeDeriv3D example_ext example_forest pair_tacs pair_field pair_weights
           [None, None]) (3 * varsPerNode pair_tacs * 0 + (3 * 0 + 1)) = - 1"
    by (subst t[THEN conjunct1], unfold v f)
       (simp add: loop_elements_def pair_element_nodes sum_upto_eight pair_weights_at
        pair_gradient_values del: One_nat_def)
  have b: "bv_x (computeNodeDeriv2D example_ext quad_example_forest quad_pair_tacs quad_pair_field
           quad_pair_weights [None, None]) (3 * varsPerNode quad_pair_tacs * 0 + (3 * 1 + 1)) = - 1"
    by (subst t[THEN conjunct2, THEN conjunct2, THEN conjunct1], unfold v f)
       (simp add: loop_elements_def quad_pair_element_nodes sum_upto_four quad_pair_weights_at
        quad_pair_gradient_values del: One_nat_def)
  show ?thesis using h2 h3 h4 q2 q4 a b by blast
qed

section \<open>The scratch buffer of the refined-field builder\<close>

lemma for_loop_chk_0 [simp]: "for_loop_chk 0 body s = Inr s"
  by (simp add: for_loop_chk_def)

lemma for_loop_chk_Suc:
  "for_loop_chk (Suc n) body s = then_chk (for_loop_chk n body s) (body n)"
  by (simp add: for_loop_chk_def then_chk_def)

lemma then_chk_Inl [simp]: "then_chk (Inl e) f = Inl e"
  by (simp add: then_chk_def)

lemma then_chk_Inr [simp]: "then_chk (Inr a) f = f a"
  by (simp add: then_chk_def)

lemma memset_within:
  "m \<le> length buf \<Longrightarrow>
   \<exists>buf'. for_loop_chk m (\<lambda>i. write_at i a) buf = Inr buf' \<and> length buf' = length buf"
proof (induction m)
  case 0
  show ?case by simp
next
  case (Suc m)
  then obtain buf' where b: "for_loop_chk m (\<lambda>i. write_at i a) buf = Inr buf'"
      "length buf' = length buf" by auto
  show ?case unfolding for_loop_chk_Suc b(1) then_chk_Inr
    using Suc.prems b(2) by (simp add: write_at_def)
qed

lemma for_loop_chk_fail:
  assumes "m \<le> n" and "for_loop_chk m body s = Inl e"
  shows "for_loop_chk n body s = Inl e"
  using assms by (induction n) (auto simp: for_loop_chk_Suc le_Suc_eq)

lemma memset_overflow:
  assumes "length buf < n"
  shows "for_loop_chk n (\<lambda>i. write_at i a) buf = Inl (OutOfBounds (length buf) (length buf))"
proof -
  obtain buf' where b: "for_loop_chk (length buf) (\<lambda>i. write_at i a) buf = Inr buf'"
      "length buf' = length buf" using memset_within[of "length buf" buf a] by auto
  have "for_loop_chk (Suc (length buf)) (\<lambda>i. write_at i a) buf
        = Inl (OutOfBounds (length buf) (length buf))"
    unfolding for_loop_chk_Suc b(1) then_chk_Inr using b(2) by (simp add: write_at_def)
  then show ?thesis using assms for_loop_chk_fail[of "Suc (length buf)" n] by simp
qed

lemma refinedElement3D_overflow:
  assumes "length uref < vpn * (interp_order refined_forest * interp_order refined_forest *
                                interp_order refined_forest)"
  shows "refinedElement3D ext forest refined_forest vpn diff uelem ubar refined_nodes uref =
         Inl (OutOfBounds (length uref) (length uref))"
  unfolding refinedElement3D_def Let_def
  by (simp only: memset_overflow[OF assms] then_chk_Inl)

text \<open>
  Claim C5 does not hold of the code. \<^verbatim>\<open>addRefinedSolution3D\<close> allocates \<^verbatim>\<open>uref\<close> with
  \<open>vars_per_node * order\<^sup>3\<close> entries and clears and fills \<open>vars_per_node * refined_order\<^sup>3\<close>
  entries of it. On the one-element mesh with order 2, refined order 3 and one variable
  per node the buffer has 8 entries, and the evaluation stops in the \<^verbatim>\<open>memset\<close> at the
  write to offset 8.
\<close>

theorem addRefinedSolution3D_overflow:
  "addRefinedSolution3D example_ext example_forest example_tacs example_refined_forest
     example_refined_tacs (constant_field 1) zeroEntries zeroEntries False [None] =
   Inl (OutOfBounds 8 8)"
proof -
  have "refinedElement3D example_ext example_forest example_refined_forest 1 False uelem ubar nodes
          (map (uninit example_ext) [0..<8]) = Inl (OutOfBounds 8 8)" for uelem ubar nodes
    using refinedElement3D_overflow[of "map (uninit example_ext) [0..<8]" 1 example_refined_forest
        example_ext example_forest False uelem ubar nodes]
    by (simp add: example_refined_forest_def)
  then show ?thesis
    by (simp add: addRefinedSolution3D_def example_tacs_def example_refined_tacs_def
        example_forest_def)
qed

section \<open>The adjoint-weighted residual estimator\<close>

lemma stride_loop_stop: "n \<le> i \<Longrightarrow> stride_loop n step body i s = Some s"
  by (subst stride_loop.simps) simp

lemma stride_loop_two:
  assumes "2 \<le> n"
  shows "stride_loop n (n - 1) body 0 s = Option.bind (body 0 s) (body (n - 1))"
proof -
  have a: "stride_loop n (n - 1) body (n - 1) t = body (n - 1) t" for t
  proof -
    have "n \<le> n - 1 + (n - 1)" using assms by simp
    then have "stride_loop n (n - 1) body (n - 1 + (n - 1)) = Some"
      by (auto simp: stride_loop_stop)
    then show ?thesis
      using assms by (subst stride_loop.simps) simp
  qed
  have "stride_loop n (n - 1) body 0 s =
        Option.bind (body 0 s) (stride_loop n (n - 1) body (n - 1))"
    using assms by (subst stride_loop.simps) simp
  also have "stride_loop n (n - 1) body (n - 1) = body (n - 1)"
    using a by blast
  finally show ?thesis .
qed

lemma for_loop_opt_0: "for_loop_opt 0 body s = Some s"
  by (simp add: for_loop_opt_def)

lemma for_loop_opt_Suc:
  "for_loop_opt (Suc n) body s = Option.bind (for_loop_opt n body s) (body n)"
  by (simp add: for_loop_opt_def)

lemma quad_corner_loops:
  assumes "2 \<le> ro"
  shows "stride_loop ro (ro - 1) (\<lambda>j.
           stride_loop ro (ro - 1) (\<lambda>i (error::rarr).
             Some (error(elem := error elem + err (i + j * ro)))) 0) 0 error =
         Some (error(elem := error elem +
                 (\<Sum>j\<leftarrow>[0, ro - 1]. \<Sum>i\<leftarrow>[0, ro - 1]. err (i + j * ro))))"
  unfolding stride_loop_two[OF assms] by (simp add: add.assoc)

lemma quadIndicators_closed:
  assumes ro: "2 \<le> ro"
      and len: "\<And>elem. elem < nelems \<Longrightarrow> ro * ro \<le> length (el_nodes (refined ! elem))"
  shows "quadIndicators ro nelems refined E err error =
         Some (\<lambda>elem. if elem < nelems then corner_indicator2D ro E (el_nodes (refined ! elem))
                      else error elem,
               \<Sum>elem<nelems. corner_indicator2D ro E (el_nodes (refined ! elem)))"
proof -
  let ?ind = "\<lambda>elem. corner_indicator2D ro E (el_nodes (refined ! elem))"
  let ?body = "\<lambda>elem (err, error, total_error_remain).
         let refine_nodes = el_nodes (refined ! elem);
             err = (\<lambda>i. if i < length refine_nodes then getValues 1 E refine_nodes i
                        else err i);
             error = error(elem := 0)
         in Option.bind
              (stride_loop ro (ro - 1) (\<lambda>j.
                 stride_loop ro (ro - 1) (\<lambda>i error.
                   Some (error(elem := error elem + err (i + j * ro)))) 0) 0 error)
              (\<lambda>error.
                 let error = error(elem := 0.25 * \<bar>error elem\<bar>)
                 in Some (err, error, total_error_remain + error elem))"
  have step: "\<exists>err'. ?body elem (err0, error0, t0) =
                Some (err', error0(elem := ?ind elem), t0 + ?ind elem)"
    if "elem < nelems" for elem err0 error0 t0
  proof -
    define nodes where "nodes = el_nodes (refined ! elem)"
    have l: "ro * ro \<le> length nodes" using len[OF that] by (simp add: nodes_def)
    have "ro - 1 + (ro - 1) * ro < ro * ro"
      using ro by (cases ro) (auto simp: algebra_simps)
    moreover have "(ro - 1) * ro \<le> ro - 1 + (ro - 1) * ro" by simp
    moreover have "ro - 1 \<le> ro - 1 + (ro - 1) * ro" by simp
    ultimately have idx: "ro - 1 + (ro - 1) * ro < length nodes" "(ro - 1) * ro < length nodes"
      "ro - 1 < length nodes" "0 < length nodes"
      using l by linarith+
    show ?thesis
      unfolding Let_def split_conv quad_corner_loops[OF ro] nodes_def[symmetric]
      using idx by (simp add: corner_indicator2D_def nodes_def)
  qed
  have "\<exists>err'. for_loop_opt n ?body (err, error, 0) =
          Some (err', \<lambda>elem. if elem < n then ?ind elem else error elem, \<Sum>elem<n. ?ind elem)"
    if "n \<le> nelems" for n
    using that
  proof (induction n)
    case 0
    show ?case by (simp add: for_loop_opt_0)
  next
    case (Suc n)
    from Suc.prems have "n \<le> nelems" by simp
    from Suc.IH[OF this] obtain err' where
      a: "for_loop_opt n ?body (err, error, 0) =
          Some (err', \<lambda>elem. if elem < n then ?ind elem else error elem, \<Sum>elem<n. ?ind elem)"
      by blast
    from Suc.prems have "n < nelems" by simp
    from step[OF this] obtain err'' where
      b: "?body n (err', \<lambda>elem. if elem < n then ?ind elem else error elem, \<Sum>elem<n. ?ind elem) =
          Some (err'', (\<lambda>elem. if elem < n then ?ind elem else error elem)(n := ?ind n),
                (\<Sum>elem<n. ?ind elem) + ?ind n)"
      by blast
    have c: "(\<lambda>elem. if elem < n then ?ind elem else error elem)(n := ?ind n) =
             (\<lambda>elem. if elem < Suc n then ?ind elem else error elem)"
      by (auto simp: fun_eq_iff less_Suc_eq)
    show ?case
      unfolding for_loop_opt_Suc a Option.bind.simps b c by simp
  qed
  from this[of nelems] show ?thesis
    unfolding quadIndicators_def by auto
qed

lemma oct_corner_loops:
  "for_loop 2 (\<lambda>k. for_loop 2 (\<lambda>j. for_loop 2 (\<lambda>i (estimate::real).
     estimate + err ((ro - 1) * i + (ro - 1) * j * ro + (ro - 1) * k * ro * ro)))) 0 =
   (\<Sum>k\<leftarrow>[0, ro - 1]. \<Sum>j\<leftarrow>[0, ro - 1]. \<Sum>i\<leftarrow>[0, ro - 1]. err (i + j * ro + k * ro * ro))"
  by (simp add: numeral_2_eq_2 add.assoc)

lemma octIndicators_closed:
  assumes ro: "1 \<le> ro"
      and len: "\<And>elem. elem < nelems \<Longrightarrow> ro * ro * ro \<le> length (el_nodes (refined ! elem))"
  shows "octIndicators ro nelems refined E err error =
         (\<lambda>elem. if elem < nelems then corner_indicator3D ro E (el_nodes (refined ! elem))
                  else error elem,
          \<Sum>elem<nelems. corner_indicator3D ro E (el_nodes (refined ! elem)))"
proof -
  let ?ind = "\<lambda>elem. corner_indicator3D ro E (el_nodes (refined ! elem))"
  let ?body = "\<lambda>elem (err, error, total_error_remain).
         let nodes = el_nodes (refined ! elem);
             err = (\<lambda>i. if i < length nodes then getValues 1 E nodes i else err i);
             estimate = for_loop 2 (\<lambda>k. for_loop 2 (\<lambda>j. for_loop 2 (\<lambda>i estimate.
                          estimate + err ((ro - 1) * i + (ro - 1) * j * ro +
                                          (ro - 1) * k * ro * ro)))) 0;
             error = error(elem := 0.125 * \<bar>estimate\<bar>)
         in (err, error, total_error_remain + error elem)"
  have step: "\<exists>err'. ?body elem (err0, error0, t0) =
                (err', error0(elem := ?ind elem), t0 + ?ind elem)"
    if "elem < nelems" for elem err0 error0 t0
  proof -
    define nodes where "nodes = el_nodes (refined ! elem)"
    define m where "m = ro - 1"
    have l: "ro * ro * ro \<le> length nodes" using len[OF that] by (simp add: nodes_def)
    have r: "ro = Suc m" using ro by (simp add: m_def)
    have "m + m * ro + m * ro * ro < ro * ro * ro"
      unfolding r by (simp add: algebra_simps)
    then have top: "m + m * ro + m * ro * ro < length nodes" using l by linarith
    have idx: "i + j * ro + k * ro * ro < length nodes"
      if "i \<le> m" "j \<le> m" "k \<le> m" for i j k
    proof -
      have "j * ro \<le> m * ro" "k * ro * ro \<le> m * ro * ro"
        using that by (simp_all add: mult_le_mono1)
      with that top show ?thesis by linarith
    qed
    define f where "f = (\<lambda>i. if i < length nodes then getValues 1 E nodes i else err0 i)"
    have est: "for_loop 2 (\<lambda>k. for_loop 2 (\<lambda>j. for_loop 2 (\<lambda>i estimate.
                 estimate + f ((ro - 1) * i + (ro - 1) * j * ro + (ro - 1) * k * ro * ro)))) 0 =
               (\<Sum>k\<leftarrow>[0, m]. \<Sum>j\<leftarrow>[0, m]. \<Sum>i\<leftarrow>[0, m]. f (i + j * ro + k * ro * ro))"
      unfolding m_def by (rule oct_corner_loops)
    have fv: "f (i + j * ro + k * ro * ro) = getValues 1 E nodes (i + j * ro + k * ro * ro)"
      if "i \<le> m" "j \<le> m" "k \<le> m" for i j k
      using idx[OF that] by (simp add: f_def)
    have "(\<Sum>k\<leftarrow>[0, m]. \<Sum>j\<leftarrow>[0, m]. \<Sum>i\<leftarrow>[0, m]. f (i + j * ro + k * ro * ro)) =
          (\<Sum>k\<leftarrow>[0, m]. \<Sum>j\<leftarrow>[0, m]. \<Sum>i\<leftarrow>[0, m].
             getValues 1 E nodes (i + j * ro + k * ro * ro))"
      using fv[of 0 0 0] fv[of m 0 0] fv[of 0 m 0] fv[of m m 0] fv[of 0 0 m] fv[of m 0 m]
        fv[of 0 m m] fv[of m m m]
      by (simp del: One_nat_def)
    then have ind: "0.125 * \<bar>for_loop 2 (\<lambda>k. for_loop 2 (\<lambda>j. for_loop 2 (\<lambda>i estimate.
                 estimate + f ((ro - 1) * i + (ro - 1) * j * ro + (ro - 1) * k * ro * ro)))) 0\<bar> =
               corner_indicator3D ro E nodes"
      unfolding est corner_indicator3D_def m_def by simp
    show ?thesis
      apply (simp only: Let_def split_conv)
      apply (fold nodes_def)
      apply (simp only: ind[unfolded f_def] fun_upd_same)
      apply (rule exI)
      apply (rule refl)
      done
  qed
  have "\<exists>err'. for_loop n ?body (err, error, 0) =
          (err', \<lambda>elem. if elem < n then ?ind elem else error elem, \<Sum>elem<n. ?ind elem)"
    if "n \<le> nelems" for n
    using that
  proof (induction n)
    case 0
    show ?case by simp
  next
    case (Suc n)
    from Suc.prems have "n \<le> nelems" by simp
    from Suc.IH[OF this] obtain err' where
      a: "for_loop n ?body (err, error, 0) =
          (err', \<lambda>elem. if elem < n then ?ind elem else error elem, \<Sum>elem<n. ?ind elem)"
      by blast
    from Suc.prems have "n < nelems" by simp
    from step[OF this] obtain err'' where
      b: "?body n (err', \<lambda>elem. if elem < n then ?ind elem else error elem, \<Sum>elem<n. ?ind elem) =
          (err'', (\<lambda>elem. if elem < n then ?ind elem else error elem)(n := ?ind n),
                (\<Sum>elem<n. ?ind elem) + ?ind n)"
      by blast
    have c: "(\<lambda>elem. if elem < n then ?ind elem else error elem)(n := ?ind n) =
             (\<lambda>elem. if elem < Suc n then ?ind elem else error elem)"
      by (auto simp: fun_eq_iff less_Suc_eq)
    show ?case
      unfolding for_loop_Suc a b c by simp
  qed
  from this[of nelems] obtain err' where
    "for_loop nelems ?body (err, error, 0) =
          (err', \<lambda>elem. if elem < nelems then ?ind elem else error elem, \<Sum>elem<nelems. ?ind elem)"
    by blast
  then show ?thesis
    unfolding octIndicators_def by simp
qed

lemma adjointError_fold:
  "fold (adjointError_element bs refined sol adj) elems (aux, c, err, nodal) =
     (fold (\<lambda>elem. dropWhile (\<lambda>a. fst a = elem)) elems aux,
      c + (\<Sum>(elem, errbuf)\<leftarrow>zip elems (depositedErrors bs refined sol adj elems aux err).
             \<Sum>i<numNodes (refined ! elem). errbuf i),
      last (err # depositedErrors bs refined sol adj elems aux err),
      fold (\<lambda>(elem, errbuf). setValues_ADD 1 (el_nodes (refined ! elem)) errbuf)
        (zip elems (depositedErrors bs refined sol adj elems aux err)) nodal)"
proof (induction elems arbitrary: aux c err nodal)
  case Nil
  show ?case by simp
next
  case (Cons elem elems)
  show ?case
    unfolding fold_Cons comp_def
    by (subst adjointError_element_def)
       (simp add: Let_def Cons for_loop_sum add.assoc)
qed

lemma adjointError_process_closed:
  "adjointError_process ext bs nelems refined aux sol adj nodal =
     ((\<Sum>(elem, errbuf)\<leftarrow>zip [0..<nelems]
           (depositedErrors bs refined sol adj [0..<nelems] (sort_key fst aux) (uninit ext)).
         \<Sum>i<numNodes (refined ! elem). errbuf i),
      last (uninit ext # depositedErrors bs refined sol adj [0..<nelems] (sort_key fst aux)
              (uninit ext)),
      fold (\<lambda>(elem, errbuf). setValues_ADD 1 (el_nodes (refined ! elem)) errbuf)
        (zip [0..<nelems]
           (depositedErrors bs refined sol adj [0..<nelems] (sort_key fst aux) (uninit ext)))
        nodal)"
  unfolding adjointError_process_def for_loop_def adjointError_fold by simp

lemma adjointError_locals:
  "map fst (snd (adjointError_nodal ext tacs tacs_refined sol adj)) =
     map (deposited_sum ext tacs tacs_refined sol adj) [0..<length (procs tacs)]"
proof -
  define bs where "bs = varsPerNode tacs_refined"
  define dep where "dep = depNodes tacs_refined"
  define sol' where "sol' = endDistributeValues bs dep sol"
  define adj' where "adj' = endDistributeValues bs dep adj"
  let ?body = "\<lambda>p (nodal_error, locals).
            let (total_adjoint_corr, err, nodal_error) =
                  adjointError_process ext bs (length (procs tacs ! p)) (procs tacs_refined ! p)
                    (auxElements tacs_refined ! p) sol' adj' nodal_error
            in (nodal_error, locals @ [(total_adjoint_corr, err)])"
  have "map fst (snd (for_loop n ?body (nodal0, l0))) =
        map fst l0 @ map (deposited_sum ext tacs tacs_refined sol adj) [0..<n]" for n nodal0 l0
  proof (induction n)
    case 0
    show ?case by simp
  next
    case (Suc n)
    obtain nd l where a: "for_loop n ?body (nodal0, l0) = (nd, l)" by (cases "for_loop n ?body (nodal0, l0)")
    have "map fst l = map fst l0 @ map (deposited_sum ext tacs tacs_refined sol adj) [0..<n]"
      using Suc a by simp
    then show ?case
      unfolding for_loop_Suc a
      by (simp add: adjointError_process_closed deposited_sum_def Let_def
            bs_def dep_def sol'_def adj'_def)
  qed
  from this[of "length (procs tacs)" zeroEntries "[]"] show ?thesis
    unfolding adjointError_nodal_def Let_def bs_def dep_def sol'_def adj'_def
    by (simp add: case_prod_unfold)
qed

lemma adjointError_locals_length:
  "length (snd (adjointError_nodal ext tacs tacs_refined sol adj)) = length (procs tacs)"
  using arg_cong[OF adjointError_locals, of length ext tacs tacs_refined sol adj] by simp

lemma TMR_AdjointErrorEst_quad_closed:
  assumes ro: "2 \<le> interp_order forest_refined"
      and len: "\<And>p elem. p < length (procs tacs) \<Longrightarrow> elem < length (procs tacs ! p) \<Longrightarrow>
                  interp_order forest_refined * interp_order forest_refined
                    \<le> length (el_nodes (procs tacs_refined ! p ! elem))"
  shows "TMR_AdjointErrorEst_quad ext forest_refined tacs tacs_refined sol adj error =
    Some (MPI_Allreduce_SUM (map (\<lambda>p. \<Sum>elem<length (procs tacs ! p).
              corner_indicator2D (interp_order forest_refined)
                (fst (adjointError_nodal ext tacs tacs_refined sol adj))
                (el_nodes (procs tacs_refined ! p ! elem))) [0..<length (procs tacs)]),
          MPI_Allreduce_SUM (map (deposited_sum ext tacs tacs_refined sol adj)
            [0..<length (procs tacs)]),
          map (\<lambda>p elem. if elem < length (procs tacs ! p)
                 then corner_indicator2D (interp_order forest_refined)
                        (fst (adjointError_nodal ext tacs tacs_refined sol adj))
                        (el_nodes (procs tacs_refined ! p ! elem))
                 else (error ! p) elem) [0..<length (procs tacs)])"
proof -
  obtain E locals where a: "adjointError_nodal ext tacs tacs_refined sol adj = (E, locals)"
    by (cases "adjointError_nodal ext tacs tacs_refined sol adj")
  have l: "map fst locals = map (deposited_sum ext tacs tacs_refined sol adj)
             [0..<length (procs tacs)]"
    using adjointError_locals[of ext tacs tacs_refined sol adj] by (simp add: a)
  let ?ro = "interp_order forest_refined"
  let ?ind = "\<lambda>p elem. corner_indicator2D ?ro E (el_nodes (procs tacs_refined ! p ! elem))"
  have r: "map (\<lambda>p. quadIndicators ?ro (length (procs tacs ! p))
                              (procs tacs_refined ! p) E (snd (locals ! p)) (error ! p))
             [0..<length (procs tacs)] =
           map (\<lambda>p. Some (\<lambda>elem. if elem < length (procs tacs ! p) then ?ind p elem
                                   else (error ! p) elem,
                           \<Sum>elem<length (procs tacs ! p). ?ind p elem))
             [0..<length (procs tacs)]"
    by (rule map_cong[OF refl]) (simp add: quadIndicators_closed[OF ro len])
  show ?thesis
    unfolding TMR_AdjointErrorEst_quad_def Let_def a split_conv fst_conv r l
    by (simp add: list_all_iff comp_def)
qed

lemma TMR_AdjointErrorEst_oct_closed:
  assumes ro: "1 \<le> interp_order forest_refined"
      and len: "\<And>p elem. p < length (procs tacs) \<Longrightarrow> elem < length (procs tacs ! p) \<Longrightarrow>
                  interp_order forest_refined * interp_order forest_refined *
                  interp_order forest_refined
                    \<le> length (el_nodes (procs tacs_refined ! p ! elem))"
  shows "TMR_AdjointErrorEst_oct ext forest_refined tacs tacs_refined sol adj error =
         (MPI_Allreduce_SUM (map (\<lambda>p. \<Sum>elem<length (procs tacs ! p).
              corner_indicator3D (interp_order forest_refined)
                (fst (adjointError_nodal ext tacs tacs_refined sol adj))
                (el_nodes (procs tacs_refined ! p ! elem))) [0..<length (procs tacs)]),
          MPI_Allreduce_SUM (map (deposited_sum ext tacs tacs_refined sol adj)
            [0..<length (procs tacs)]),
          map (\<lambda>p elem. if elem < length (procs tacs ! p)
                 then corner_indicator3D (interp_order forest_refined)
                        (fst (adjointError_nodal ext tacs tacs_refined sol adj))
                        (el_nodes (procs tacs_refined ! p ! elem))
                 else (error ! p) elem) [0..<length (procs tacs)])"
proof -
  obtain E locals where a: "adjointError_nodal ext tacs tacs_refined sol adj = (E, locals)"
    by (cases "adjointError_nodal ext tacs tacs_refined sol adj")
  have l: "map fst locals = map (deposited_sum ext tacs tacs_refined sol adj)
             [0..<length (procs tacs)]"
    using adjointError_locals[of ext tacs tacs_refined sol adj] by (simp add: a)
  let ?ro = "interp_order forest_refined"
  let ?ind = "\<lambda>p elem. corner_indicator3D ?ro E (el_nodes (procs tacs_refined ! p ! elem))"
  have r: "map (\<lambda>p. octIndicators ?ro (length (procs tacs ! p))
                              (procs tacs_refined ! p) E (snd (locals ! p)) (error ! p))
             [0..<length (procs tacs)] =
           map (\<lambda>p. (\<lambda>elem. if elem < length (procs tacs ! p) then ?ind p elem
                             else (error ! p) elem,
                     \<Sum>elem<length (procs tacs ! p). ?ind p elem))
             [0..<length (procs tacs)]"
    by (rule map_cong[OF refl]) (simp add: octIndicators_closed[OF ro len])
  show ?thesis
    unfolding TMR_AdjointErrorEst_oct_def Let_def a split_conv fst_conv r l
    by (simp add: comp_def)
qed

lemma stride_loop_zero_step:
  assumes "i < n"
  shows "stride_loop n 0 body i s = None"
proof (rule ccontr)
  assume "stride_loop n 0 body i s \<noteq> None"
  then obtain y where y: "stride_loop n 0 body i s = Some y" by auto
  have "(0::nat) = 0 \<longrightarrow> \<not> i < n"
    by (rule stride_loop.raw_induct[where P = "\<lambda>n step body i s y. step = 0 \<longrightarrow> \<not> i < n", OF _ y])
       (auto split: if_splits simp: bind_eq_Some_conv, metis add.right_neutral not_gr_zero)
  with assms show False by simp
qed

lemma for_loop_opt_None:
  assumes "\<And>s. body 0 s = None" and "0 < n"
  shows "for_loop_opt n body s = None"
  using assms(2)
proof (induction n)
  case 0
  then show ?case by simp
next
  case (Suc n)
  show ?case
  proof (cases n)
    case 0
    then show ?thesis by (simp add: for_loop_opt_Suc for_loop_opt_0 assms(1))
  next
    case (Suc m)
    then show ?thesis using Suc.IH by (simp add: for_loop_opt_Suc)
  qed
qed

lemma quadIndicators_order1:
  assumes "0 < nelems"
  shows "quadIndicators 1 nelems refined E err error = None"
proof -
  have "stride_loop 1 (1 - 1) body 0 s = None" for body :: "nat \<Rightarrow> rarr \<Rightarrow> rarr option" and s
    using stride_loop_zero_step[of 0 1 body s] by simp
  then show ?thesis
    unfolding quadIndicators_def
    by (subst for_loop_opt_None[OF _ assms]) (simp_all add: Let_def split_def)
qed

lemma TMR_AdjointErrorEst_quad_order1:
  assumes "interp_order forest_refined = 1" "p < length (procs tacs)" "procs tacs ! p \<noteq> []"
  shows "TMR_AdjointErrorEst_quad ext forest_refined tacs tacs_refined sol adj error = None"
proof -
  obtain E locals where a: "adjointError_nodal ext tacs tacs_refined sol adj = (E, locals)"
    by (cases "adjointError_nodal ext tacs tacs_refined sol adj")
  have "quadIndicators 1 (length (procs tacs ! p)) (procs tacs_refined ! p) E (snd (locals ! p))
          (error ! p) = None"
    using assms(3) by (intro quadIndicators_order1) simp
  then have "\<not> list_all (\<lambda>r. r \<noteq> None)
      (map (\<lambda>p. quadIndicators 1 (length (procs tacs ! p))
                              (procs tacs_refined ! p) E (snd (locals ! p)) (error ! p))
                     [0..<length (procs tacs)])"
    unfolding list_all_iff using assms(2) by (auto intro!: bexI[of _ p] simp del: One_nat_def)
  then show ?thesis
    unfolding TMR_AdjointErrorEst_quad_def Let_def a split_conv assms(1) by simp
qed

text \<open>
  Claim C7. In \<^verbatim>\<open>TMR_AdjointErrorEst\<close> the error indicator of each element is the corner
  weight times the absolute value of the sum of the nodal errors at the corner nodes of
  the refined element (the nodes at the tensor-product indices 0 and
  \<open>refined_order - 1\<close> along each axis): four corners and the weight 1/4 for a
  quadtree, eight corners and the weight 1/8 for an octree, the nodal errors being read
  from the finalised and distributed vector. The returned total is the sum over the
  processes of the sums of the element indicators, and the correction is the sum over
  the processes of the sums of the deposited values of \<^verbatim>\<open>err\<close>. The refined order is at
  least 2 and every refined element has at least \<open>refined_order\<^sup>2\<close> (quadtree) or
  \<open>refined_order\<^sup>3\<close> (octree) nodes; the quadtree overload then returns.
\<close>

theorem adjoint_indicator_corner_sums:
  assumes "2 \<le> interp_order fq"
      and "\<forall>p<length (procs tq). \<forall>elem<length (procs tq ! p).
             interp_order fq * interp_order fq \<le> length (el_nodes (procs tq_refined ! p ! elem))"
      and "2 \<le> interp_order fo"
      and "\<forall>p<length (procs to). \<forall>elem<length (procs to ! p).
             interp_order fo * interp_order fo * interp_order fo
               \<le> length (el_nodes (procs to_refined ! p ! elem))"
  shows "TMR_AdjointErrorEst_quad ext fq tq tq_refined sq aq errq =
    Some (MPI_Allreduce_SUM (map (\<lambda>p. \<Sum>elem<length (procs tq ! p).
              corner_indicator2D (interp_order fq)
                (fst (adjointError_nodal ext tq tq_refined sq aq))
                (el_nodes (procs tq_refined ! p ! elem))) [0..<length (procs tq)]),
          MPI_Allreduce_SUM (map (deposited_sum ext tq tq_refined sq aq)
            [0..<length (procs tq)]),
          map (\<lambda>p elem. if elem < length (procs tq ! p)
                 then corner_indicator2D (interp_order fq)
                        (fst (adjointError_nodal ext tq tq_refined sq aq))
                        (el_nodes (procs tq_refined ! p ! elem))
                 else (errq ! p) elem) [0..<length (procs tq)]) \<and>
    TMR_AdjointErrorEst_oct ext fo to to_refined so ao erro =
         (MPI_Allreduce_SUM (map (\<lambda>p. \<Sum>elem<length (procs to ! p).
              corner_indicator3D (interp_order fo)
                (fst (adjointError_nodal ext to to_refined so ao))
                (el_nodes (procs to_refined ! p ! elem))) [0..<length (procs to)]),
          MPI_Allreduce_SUM (map (deposited_sum ext to to_refined so ao)
            [0..<length (procs to)]),
          map (\<lambda>p elem. if elem < length (procs to ! p)
                 then corner_indicator3D (interp_order fo)
                        (fst (adjointError_nodal ext to to_refined so ao))
                        (el_nodes (procs to_refined ! p ! elem))
                 else (erro ! p) elem) [0..<length (procs to)])"
proof
  show "TMR_AdjointErrorEst_quad ext fq tq tq_refined sq aq errq =
    Some (MPI_Allreduce_SUM (map (\<lambda>p. \<Sum>elem<length (procs tq ! p).
              corner_indicator2D (interp_order fq)
                (fst (adjointError_nodal ext tq tq_refined sq aq))
                (el_nodes (procs tq_refined ! p ! elem))) [0..<length (procs tq)]),
          MPI_Allreduce_SUM (map (deposited_sum ext tq tq_refined sq aq)
            [0..<length (procs tq)]),
          map (\<lambda>p elem. if elem < length (procs tq ! p)
                 then corner_indicator2D (interp_order fq)
                        (fst (adjointError_nodal ext tq tq_refined sq aq))
                        (el_nodes (procs tq_refined ! p ! elem))
                 else (errq ! p) elem) [0..<length (procs tq)])"
    using assms(1,2) by (intro TMR_AdjointErrorEst_quad_closed) auto
next
  have "1 \<le> interp_order fo" using assms(3) by simp
  then show "TMR_AdjointErrorEst_oct ext fo to to_refined so ao erro =
         (MPI_Allreduce_SUM (map (\<lambda>p. \<Sum>elem<length (procs to ! p).
              corner_indicator3D (interp_order fo)
                (fst (adjointError_nodal ext to to_refined so ao))
                (el_nodes (procs to_refined ! p ! elem))) [0..<length (procs to)]),
          MPI_Allreduce_SUM (map (deposited_sum ext to to_refined so ao)
            [0..<length (procs to)]),
          map (\<lambda>p elem. if elem < length (procs to ! p)
                 then corner_indicator3D (interp_order fo)
                        (fst (adjointError_nodal ext to to_refined so ao))
                        (el_nodes (procs to_refined ! p ! elem))
                 else (erro ! p) elem) [0..<length (procs to)])"
    using assms(4) by (intro TMR_AdjointErrorEst_oct_closed) auto
qed

theorem adjoint_indicator_corner_sums_witness:
  "map_option (\<lambda>(total, corr, error). (total, corr, map (\<lambda>e. e 0) error))
     (TMR_AdjointErrorEst_quad example_ext example_forest adjoint_quad_tacs adjoint_quad_tacs
        (constant_field 2) (constant_field 3) [\<lambda>_. 0, \<lambda>_. 0]) =
     Some (18, 48, [9, 9]) \<and>
   (\<lambda>(total, corr, error). (total, corr, map (\<lambda>e. e 0) error))
     (TMR_AdjointErrorEst_oct example_ext example_forest adjoint_oct_tacs adjoint_oct_tacs
        (constant_field 2) (constant_field 3) [\<lambda>_. 0]) =
     (49 / 8, 49, [49 / 8])"
proof -
  have q1: "2 \<le> interp_order example_forest"
    by (simp add: example_forest_def)
  have q2: "\<forall>p<length (procs adjoint_quad_tacs). \<forall>elem<length (procs adjoint_quad_tacs ! p).
             interp_order example_forest * interp_order example_forest
               \<le> length (el_nodes (procs adjoint_quad_tacs ! p ! elem))"
    by (simp add: example_forest_def adjoint_quad_tacs_def adjoint_element_def less_Suc_eq
          eval_nat_numeral)
  have o2: "\<forall>p<length (procs adjoint_oct_tacs). \<forall>elem<length (procs adjoint_oct_tacs ! p).
             interp_order example_forest * interp_order example_forest *
             interp_order example_forest
               \<le> length (el_nodes (procs adjoint_oct_tacs ! p ! elem))"
    by (simp add: example_forest_def adjoint_oct_tacs_def adjoint_element_def)
  note t = adjoint_indicator_corner_sums[OF q1 q2 q1 o2, of example_ext
      "constant_field 2" "constant_field 3" "[\<lambda>_. 0, \<lambda>_. 0]"
      "constant_field 2" "constant_field 3" "[\<lambda>_. 0]"]
  show ?thesis
    unfolding t[THEN conjunct1] t[THEN conjunct2]
    by (simp add: adjointError_nodal_def adjointError_process_def adjointError_element_def
        localizedError_def adjoint_quad_tacs_def adjoint_oct_tacs_def adjoint_element_def
        adjoint_aux_element_def setValues_ADD_def
        add_value_def endSetValues_ADD_def endDistributeValues_def getValues_def
        constant_field_def zeroEntries_def example_ext_def example_forest_def
        corner_indicator2D_def corner_indicator3D_def deposited_sum_def MPI_Allreduce_SUM_def
        eval_nat_numeral Let_def)
qed

section \<open>The strain-energy estimator on an octree\<close>

lemma strainEnergy_oct_loop:
  "\<exists>ubar' vars_interp'.
     for_loop n (strainEnergy_element_oct ext forest refined_forest vpn es refined uderiv)
       (ubar, vars_interp, error, 0) =
     (ubar', vars_interp',
      \<lambda>i. if i < n
           then \<bar>snd (computeEnergies (refined ! i) 0 ((!) (el_Xpts (refined ! i)))
                        (uninit ext) (uninit ext))\<bar>
           else error i,
      \<Sum>i<n. \<bar>snd (computeEnergies (refined ! i) 0 ((!) (el_Xpts (refined ! i)))
                      (uninit ext) (uninit ext))\<bar>)"
proof (induction n)
  case 0
  show ?case by simp
next
  case (Suc n)
  let ?e = "\<lambda>i. \<bar>snd (computeEnergies (refined ! i) 0 ((!) (el_Xpts (refined ! i)))
                        (uninit ext) (uninit ext))\<bar>"
  from Suc obtain ubar' vars_interp' where
    a: "for_loop n (strainEnergy_element_oct ext forest refined_forest vpn es refined uderiv)
          (ubar, vars_interp, error, 0) =
        (ubar', vars_interp', \<lambda>i. if i < n then ?e i else error i, \<Sum>i<n. ?e i)"
    by blast
  have c: "(\<lambda>i. if i < n then ?e i else error i)(n := ?e n) =
           (\<lambda>i. if i < Suc n then ?e i else error i)"
    by (auto simp: fun_eq_iff less_Suc_eq)
  show ?case
    unfolding for_loop_Suc a
    by (subst strainEnergy_element_oct_def) (simp add: Let_def split_def c)
qed

lemma TMR_StrainEnergyErrorEst_oct_closed:
  "TMR_StrainEnergyErrorEst_oct ext forest tacs variables refined_forest refined_tacs error =
    (MPI_Allreduce_SUM (map (\<lambda>p. \<Sum>i<length (procs tacs ! p).
        \<bar>snd (computeEnergies (procs refined_tacs ! p ! i) 0
                ((!) (el_Xpts (procs refined_tacs ! p ! i))) (uninit ext) (uninit ext))\<bar>)
        [0..<length (procs tacs)]),
     map (\<lambda>p i. if i < length (procs tacs ! p)
           then \<bar>snd (computeEnergies (procs refined_tacs ! p ! i) 0
                   ((!) (el_Xpts (procs refined_tacs ! p ! i))) (uninit ext) (uninit ext))\<bar>
           else (error ! p) i) [0..<length (procs tacs)])"
proof -
  have "(let (ubar, vars_interp, error, SE_total_error) =
                 for_loop (length (procs tacs ! p))
                   (strainEnergy_element_oct ext forest refined_forest vpn
                      (procs tacs ! p) (procs refined_tacs ! p) uderiv)
                   (uninit ext, uninit ext, error ! p, 0)
           in (error, SE_total_error)) =
        (\<lambda>i. if i < length (procs tacs ! p)
           then \<bar>snd (computeEnergies (procs refined_tacs ! p ! i) 0
                   ((!) (el_Xpts (procs refined_tacs ! p ! i))) (uninit ext) (uninit ext))\<bar>
           else (error ! p) i,
         \<Sum>i<length (procs tacs ! p).
        \<bar>snd (computeEnergies (procs refined_tacs ! p ! i) 0
                ((!) (el_Xpts (procs refined_tacs ! p ! i))) (uninit ext) (uninit ext))\<bar>)"
    for p vpn uderiv
    using strainEnergy_oct_loop[of "length (procs tacs ! p)" ext forest refined_forest vpn
        "procs tacs ! p" "procs refined_tacs ! p" uderiv "uninit ext" "uninit ext" "error ! p"]
    by auto
  then show ?thesis
    unfolding TMR_StrainEnergyErrorEst_oct_def Let_def
    by (simp add: comp_def)
qed

text \<open>
  Claim C6 sets the indicator of an element to the absolute potential energy of the
  field reconstructed at the refined knots. The octree overload of
  \<^verbatim>\<open>TMR_StrainEnergyErrorEst\<close> builds that field in \<^verbatim>\<open>vars_interp\<close> and then computes the
  energies from \<^verbatim>\<open>vars_elem\<close> and \<^verbatim>\<open>dvars\<close>, two arrays that it never writes. On the
  one-element mesh with the constant field 1 and an element whose potential energy is the
  first entry of the field it is given, the indicator and the total are 7 when the
  allocated memory holds 7 and 0 when it holds 0.
\<close>

theorem TMR_StrainEnergyErrorEst_oct_uninitialised:
  "TMR_StrainEnergyErrorEst_oct (garbage_ext 7) example_forest example_tacs (constant_field 1)
     example_refined_forest example_refined_tacs [\<lambda>_. 0] = (7, [(\<lambda>_. 0)(0 := 7)]) \<and>
   TMR_StrainEnergyErrorEst_oct (garbage_ext 0) example_forest example_tacs (constant_field 1)
     example_refined_forest example_refined_tacs [\<lambda>_. 0] = (0, [\<lambda>_. 0])"
  unfolding TMR_StrainEnergyErrorEst_oct_closed
  by (auto simp: garbage_ext_def example_tacs_def example_refined_tacs_def
        example_refined_element_def MPI_Allreduce_SUM_def fun_eq_iff)

section \<open>The KS aggregate of the stress constraint\<close>

lemma computeElemRecon3D_overwrites:
  "computeElemRecon3D ext vpn forest rf Xpts uvals uderiv ubar tmp =
     (\<lambda>idx. if idx < getNum3dEnrich (interp_order forest) * vpn
            then computeElemRecon3D ext vpn forest rf Xpts uvals uderiv ubar' tmp idx
            else ubar idx)"
proof -
  have w: "for_loop n1 (\<lambda>i. for_loop n2 (\<lambda>j a. a(n2 * i + j := V i j))) a0 =
           (\<lambda>idx. if idx < n1 * n2 then V (idx div n2) (idx mod n2) else a0 idx)"
    for n1 n2 :: nat and V :: "nat \<Rightarrow> nat \<Rightarrow> real" and a0
  proof -
    have "for_loop n1 (\<lambda>i. for_loop n2 (\<lambda>j a. a(n2 * i + j := V i j))) a0
        = for_loop (n1 * n2) (\<lambda>q a. a(q := V (q div n2) (q mod n2))) a0"
      by (subst for_loop_nest) simp
    then show ?thesis by (simp add: for_loop_write1)
  qed
  show ?thesis
    unfolding computeElemRecon3D_def Let_def w by (simp add: fun_eq_iff)
qed

lemma computeElemRecon3D_agree:
  assumes "\<And>idx. getNum3dEnrich (interp_order forest) * vpn \<le> idx \<Longrightarrow> u idx = u0 idx"
  shows "computeElemRecon3D ext vpn forest rf Xpts uvals uderiv u tmp =
         computeElemRecon3D ext vpn forest rf Xpts uvals uderiv u0 tmp"
  apply (subst computeElemRecon3D_overwrites[where ubar = u and ubar' = u0])
  apply (subst (2) computeElemRecon3D_overwrites[where ubar = u0 and ubar' = u0])
  using assms by (auto simp: fun_eq_iff)

lemma computeElemRecon3D_beyond:
  assumes "getNum3dEnrich (interp_order forest) * vpn \<le> idx"
  shows "computeElemRecon3D ext vpn forest rf Xpts uvals uderiv u tmp idx = u idx"
  using assms by (subst computeElemRecon3D_overwrites[where ubar' = u]) simp

lemma stressElement_agree:
  assumes "\<And>idx. getNum3dEnrich (interp_order forest) * vpn \<le> idx \<Longrightarrow> u idx = u0 idx"
  shows "stressElement ext forest rf mesh vpn es uvec uderiv i u =
         stressElement ext forest rf mesh vpn es uvec uderiv i u0"
  unfolding stressElement_def Let_def
  by (simp add: computeElemRecon3D_agree[OF assms])

lemma stressElement_beyond:
  assumes "getNum3dEnrich (interp_order forest) * vpn \<le> idx"
  shows "snd (snd (stressElement ext forest rf mesh vpn es uvec uderiv i u)) idx = u idx"
  unfolding stressElement_def Let_def
  by (simp add: computeElemRecon3D_beyond[OF assms])

lemma for_loop_max:
  fixes F :: "nat \<Rightarrow> real"
  shows "for_loop n (\<lambda>q m. if F q > m then F q else m) m0 = fold max (map F [0..<n]) m0"
  by (induction n) (auto simp: max_def)

lemma for_loop_sum_list:
  fixes G :: "nat \<Rightarrow> real"
  shows "for_loop n (\<lambda>q s. s + G q) s0 = s0 + sum_list (map G [0..<n])"
  by (induction n) auto

lemma for_loop_threaded:
  assumes "I u0"
    and "\<And>i u a. I u \<Longrightarrow> \<exists>u'. I u' \<and> body i (u, a) = (u', g i a)"
  shows "\<exists>u'. I u' \<and> for_loop n body (u0, a0) = (u', for_loop n g a0)"
proof (induction n)
  case 0
  show ?case using assms(1) by simp
next
  case (Suc n)
  then obtain u' where a: "I u'" "for_loop n body (u0, a0) = (u', for_loop n g a0)" by blast
  from assms(2)[OF a(1), of n "for_loop n g a0"] show ?case
    unfolding for_loop_Suc a(2) by simp
qed

lemma for_loop_fold_concat:
  "for_loop n (\<lambda>i. fold f (P i)) a0 = fold f (concat (map P [0..<n])) a0"
  by (induction n) simp_all

lemma for_loop_sum_concat:
  fixes a0 :: real
  shows "for_loop n (\<lambda>i s. s + sum_list (map h (P i))) a0 =
         a0 + sum_list (map h (concat (map P [0..<n])))"
  by (induction n) simp_all

lemma ks_step_max:
  fixes ext forest rf mesh vpn es uvec uderiv nq gaussPts gaussWts i
  defines "N \<equiv> getNum3dEnrich (interp_order forest) * vpn"
  defines "P \<equiv>
          let (Xpts, vars, ubar) = stressElement ext forest rf mesh vpn es uvec uderiv i (uninit ext)
          in map (\<lambda>q.
               let ii = q mod nq;
                   jj = (q div nq) mod nq;
                   kk = q div (nq * nq);
                   pt = [gaussPts ! ii, gaussPts ! jj, gaussPts ! kk];
                   (detJ, J, e) = evalStrain ext forest rf pt Xpts vars ubar
               in (failure (es ! i) pt e, detJ,
                   gaussWts ! ii * gaussWts ! jj * (gaussWts ! kk :: real)))
               [0..<nq * nq * nq]"
  assumes u: "\<forall>idx\<ge>N. u idx = uninit ext idx"
  shows "\<exists>u'. (\<forall>idx\<ge>N. u' idx = uninit ext idx) \<and>
     (\<lambda>(ubar, ks_max_fail).
             let elem = es ! i;
                 (Xpts, vars, ubar) = stressElement ext forest rf mesh vpn es uvec uderiv i ubar
             in (ubar,
                 for_loop nq (\<lambda>kk. for_loop nq (\<lambda>jj. for_loop nq
                   (\<lambda>ii ks_max_fail.
                     let pt = [gaussPts ! ii, gaussPts ! jj, gaussPts ! kk];
                         (detJ, J, e) = evalStrain ext forest rf pt Xpts vars ubar;
                         fval = failure elem pt e
                     in if fval > ks_max_fail then fval else ks_max_fail))) ks_max_fail))
       (u, m) =
     (u', fold max (map fst P) m)"
proof -
  have e: "stressElement ext forest rf mesh vpn es uvec uderiv i u =
           stressElement ext forest rf mesh vpn es uvec uderiv i (uninit ext)"
    by (rule stressElement_agree) (use u in \<open>simp add: N_def\<close>)
  obtain Xpts vars ubar where
    s: "stressElement ext forest rf mesh vpn es uvec uderiv i (uninit ext) = (Xpts, vars, ubar)"
    by (metis prod_cases3)
  have c: "\<forall>idx\<ge>N. ubar idx = uninit ext idx"
    using stressElement_beyond[of forest vpn _ ext rf mesh es uvec uderiv i "uninit ext"] s
    by (simp add: N_def)
  have Pn: "map fst P = map (\<lambda>q. failure (es ! i)
                [gaussPts ! (q mod nq), gaussPts ! ((q div nq) mod nq), gaussPts ! (q div (nq * nq))]
                (snd (snd (evalStrain ext forest rf
                   [gaussPts ! (q mod nq), gaussPts ! ((q div nq) mod nq),
                    gaussPts ! (q div (nq * nq))] Xpts vars ubar)))) [0..<nq * nq * nq]"
    unfolding P_def s by (simp add: Let_def split_def)
  show ?thesis
    apply (simp only: split_conv Let_def e s)
    apply (rule exI[of _ ubar])
    apply (rule conjI[OF c])
    apply (subst for_loop_nest3)
    apply (simp only: split_def for_loop_max Pn)
    done
qed

lemma ks_step_sum:
  fixes ext forest rf mesh vpn es uvec uderiv nq gaussPts gaussWts i
  defines "N \<equiv> getNum3dEnrich (interp_order forest) * vpn"
  defines "P \<equiv>
          let (Xpts, vars, ubar) = stressElement ext forest rf mesh vpn es uvec uderiv i (uninit ext)
          in map (\<lambda>q.
               let ii = q mod nq;
                   jj = (q div nq) mod nq;
                   kk = q div (nq * nq);
                   pt = [gaussPts ! ii, gaussPts ! jj, gaussPts ! kk];
                   (detJ, J, e) = evalStrain ext forest rf pt Xpts vars ubar
               in (failure (es ! i) pt e, detJ,
                   gaussWts ! ii * gaussWts ! jj * (gaussWts ! kk :: real)))
               [0..<nq * nq * nq]"
  assumes u: "\<forall>idx\<ge>N. u idx = uninit ext idx"
  shows "\<exists>u'. (\<forall>idx\<ge>N. u' idx = uninit ext idx) \<and>
     (\<lambda>(ubar, ks_fail_sum).
             let elem = es ! i;
                 (Xpts, vars, ubar) = stressElement ext forest rf mesh vpn es uvec uderiv i ubar
             in (ubar,
                 for_loop nq (\<lambda>kk. for_loop nq (\<lambda>jj. for_loop nq
                   (\<lambda>ii ks_fail_sum.
                     let pt = [gaussPts ! ii, gaussPts ! jj, gaussPts ! kk];
                         (detJ, J, e) = evalStrain ext forest rf pt Xpts vars ubar;
                         detJ = detJ * (gaussWts ! ii * gaussWts ! jj * gaussWts ! kk);
                         fval = failure elem pt e
                     in ks_fail_sum + detJ * exp (ks_weight * (fval - ks_max_fail)))))
                   ks_fail_sum))
       (u, s0) =
     (u', s0 + sum_list (map (\<lambda>(f, detJ, w). detJ * w * exp (ks_weight * (f - ks_max_fail))) P))"
proof -
  have e: "stressElement ext forest rf mesh vpn es uvec uderiv i u =
           stressElement ext forest rf mesh vpn es uvec uderiv i (uninit ext)"
    by (rule stressElement_agree) (use u in \<open>simp add: N_def\<close>)
  obtain Xpts vars ubar where
    s: "stressElement ext forest rf mesh vpn es uvec uderiv i (uninit ext) = (Xpts, vars, ubar)"
    by (metis prod_cases3)
  have c: "\<forall>idx\<ge>N. ubar idx = uninit ext idx"
    using stressElement_beyond[of forest vpn _ ext rf mesh es uvec uderiv i "uninit ext"] s
    by (simp add: N_def)
  have Pn: "map (\<lambda>(f, detJ, w). detJ * w * exp (ks_weight * (f - ks_max_fail))) P =
            map (\<lambda>q.
              fst (evalStrain ext forest rf
                   [gaussPts ! (q mod nq), gaussPts ! ((q div nq) mod nq),
                    gaussPts ! (q div (nq * nq))] Xpts vars ubar) *
              (gaussWts ! (q mod nq) * gaussWts ! ((q div nq) mod nq) * gaussWts ! (q div (nq * nq))) *
              exp (ks_weight * (failure (es ! i)
                [gaussPts ! (q mod nq), gaussPts ! ((q div nq) mod nq), gaussPts ! (q div (nq * nq))]
                (snd (snd (evalStrain ext forest rf
                   [gaussPts ! (q mod nq), gaussPts ! ((q div nq) mod nq),
                    gaussPts ! (q div (nq * nq))] Xpts vars ubar))) - ks_max_fail)))
              [0..<nq * nq * nq]"
    unfolding P_def s by (simp add: Let_def split_def comp_def)
  show ?thesis
    apply (simp only: split_conv Let_def e s)
    apply (rule exI[of _ ubar])
    apply (rule conjI[OF c])
    apply (subst for_loop_nest3)
    apply (simp only: Pn)
    apply (simp only: split_def for_loop_sum_list)
    done
qed

lemma ks_process_max:
  fixes ext forest rf mesh vpn es uvec uderiv nq gaussPts gaussWts
  defines "N \<equiv> getNum3dEnrich (interp_order forest) * vpn"
  defines "P \<equiv> \<lambda>i.
          let (Xpts, vars, ubar) = stressElement ext forest rf mesh vpn es uvec uderiv i (uninit ext)
          in map (\<lambda>q.
               let ii = q mod nq;
                   jj = (q div nq) mod nq;
                   kk = q div (nq * nq);
                   pt = [gaussPts ! ii, gaussPts ! jj, gaussPts ! kk];
                   (detJ, J, e) = evalStrain ext forest rf pt Xpts vars ubar
               in (failure (es ! i) pt e, detJ,
                   gaussWts ! ii * gaussWts ! jj * (gaussWts ! kk :: real)))
               [0..<nq * nq * nq]"
  assumes u: "\<forall>idx\<ge>N. u idx = uninit ext idx"
  shows "\<exists>u'. (\<forall>idx\<ge>N. u' idx = uninit ext idx) \<and>
     for_loop n (\<lambda>i (ubar, ks_max_fail).
             let elem = es ! i;
                 (Xpts, vars, ubar) = stressElement ext forest rf mesh vpn es uvec uderiv i ubar
             in (ubar,
                 for_loop nq (\<lambda>kk. for_loop nq (\<lambda>jj. for_loop nq
                   (\<lambda>ii ks_max_fail.
                     let pt = [gaussPts ! ii, gaussPts ! jj, gaussPts ! kk];
                         (detJ, J, e) = evalStrain ext forest rf pt Xpts vars ubar;
                         fval = failure elem pt e
                     in if fval > ks_max_fail then fval else ks_max_fail))) ks_max_fail))
       (u, m0) =
     (u', fold max (map fst (concat (map P [0..<n]))) m0)"
proof -
  have "\<exists>u'. (\<forall>idx\<ge>N. u' idx = uninit ext idx) \<and>
     for_loop n (\<lambda>i (ubar, ks_max_fail).
             let elem = es ! i;
                 (Xpts, vars, ubar) = stressElement ext forest rf mesh vpn es uvec uderiv i ubar
             in (ubar,
                 for_loop nq (\<lambda>kk. for_loop nq (\<lambda>jj. for_loop nq
                   (\<lambda>ii ks_max_fail.
                     let pt = [gaussPts ! ii, gaussPts ! jj, gaussPts ! kk];
                         (detJ, J, e) = evalStrain ext forest rf pt Xpts vars ubar;
                         fval = failure elem pt e
                     in if fval > ks_max_fail then fval else ks_max_fail))) ks_max_fail))
       (u, m0) =
     (u', for_loop n (\<lambda>i. fold max (map fst (P i))) m0)"
    unfolding P_def N_def
    by (rule for_loop_threaded[where I = "\<lambda>u. \<forall>idx\<ge>getNum3dEnrich (interp_order forest) * vpn.
              u idx = uninit ext idx"])
       (use u in \<open>simp add: N_def\<close>, rule ks_step_max)
  then show ?thesis
    by (simp add: for_loop_fold_concat map_concat comp_def)
qed

lemma ks_process_sum:
  fixes ext forest rf mesh vpn es uvec uderiv nq gaussPts gaussWts
  defines "N \<equiv> getNum3dEnrich (interp_order forest) * vpn"
  defines "P \<equiv> \<lambda>i.
          let (Xpts, vars, ubar) = stressElement ext forest rf mesh vpn es uvec uderiv i (uninit ext)
          in map (\<lambda>q.
               let ii = q mod nq;
                   jj = (q div nq) mod nq;
                   kk = q div (nq * nq);
                   pt = [gaussPts ! ii, gaussPts ! jj, gaussPts ! kk];
                   (detJ, J, e) = evalStrain ext forest rf pt Xpts vars ubar
               in (failure (es ! i) pt e, detJ,
                   gaussWts ! ii * gaussWts ! jj * (gaussWts ! kk :: real)))
               [0..<nq * nq * nq]"
  assumes u: "\<forall>idx\<ge>N. u idx = uninit ext idx"
  shows "\<exists>u'. (\<forall>idx\<ge>N. u' idx = uninit ext idx) \<and>
     for_loop n (\<lambda>i (ubar, ks_fail_sum).
             let elem = es ! i;
                 (Xpts, vars, ubar) = stressElement ext forest rf mesh vpn es uvec uderiv i ubar
             in (ubar,
                 for_loop nq (\<lambda>kk. for_loop nq (\<lambda>jj. for_loop nq
                   (\<lambda>ii ks_fail_sum.
                     let pt = [gaussPts ! ii, gaussPts ! jj, gaussPts ! kk];
                         (detJ, J, e) = evalStrain ext forest rf pt Xpts vars ubar;
                         detJ = detJ * (gaussWts ! ii * gaussWts ! jj * gaussWts ! kk);
                         fval = failure elem pt e
                     in ks_fail_sum + detJ * exp (ks_weight * (fval - ks_max_fail)))))
                   ks_fail_sum))
       (u, s0) =
     (u', s0 + sum_list (map (\<lambda>(f, detJ, w). detJ * w * exp (ks_weight * (f - ks_max_fail)))
                  (concat (map P [0..<n]))))"
proof -
  have "\<exists>u'. (\<forall>idx\<ge>N. u' idx = uninit ext idx) \<and>
     for_loop n (\<lambda>i (ubar, ks_fail_sum).
             let elem = es ! i;
                 (Xpts, vars, ubar) = stressElement ext forest rf mesh vpn es uvec uderiv i ubar
             in (ubar,
                 for_loop nq (\<lambda>kk. for_loop nq (\<lambda>jj. for_loop nq
                   (\<lambda>ii ks_fail_sum.
                     let pt = [gaussPts ! ii, gaussPts ! jj, gaussPts ! kk];
                         (detJ, J, e) = evalStrain ext forest rf pt Xpts vars ubar;
                         detJ = detJ * (gaussWts ! ii * gaussWts ! jj * gaussWts ! kk);
                         fval = failure elem pt e
                     in ks_fail_sum + detJ * exp (ks_weight * (fval - ks_max_fail)))))
                   ks_fail_sum))
       (u, s0) =
     (u', for_loop n (\<lambda>i s. s + sum_list (map (\<lambda>(f, detJ, w).
                    detJ * w * exp (ks_weight * (f - ks_max_fail))) (P i))) s0)"
    unfolding P_def N_def
    by (rule for_loop_threaded[where I = "\<lambda>u. \<forall>idx\<ge>getNum3dEnrich (interp_order forest) * vpn.
              u idx = uninit ext idx"])
       (use u in \<open>simp add: N_def\<close>, rule ks_step_sum)
  then show ?thesis
    by (simp only: for_loop_sum_concat)
qed

lemma evalConstraint_closed:
  "evalConstraint ext forest rf meshes tacs k weights uvec_in =
    (let m = MPI_Allreduce_MAX (map (\<lambda>p.
               fold max (map fst (ks_quadrature ext forest rf meshes tacs weights uvec_in p))
                 (- (10 ^ 20))) [0..<length (procs tacs)]);
         s = MPI_Allreduce_SUM (map (\<lambda>p.
               \<Sum>(f, detJ, w)\<leftarrow>ks_quadrature ext forest rf meshes tacs weights uvec_in p.
                 detJ * w * exp (k * (f - m))) [0..<length (procs tacs)])
     in (do { l \<leftarrow> flog s; q \<leftarrow> fdiv l k; Some (m + q) }, m, s))"
proof -
  obtain nq gp gw where g: "getGaussPtsWts ext (interp_order forest + 1) = (nq, gp, gw)"
    by (metis prod_cases3)
  define vpn where "vpn = varsPerNode tacs"
  define uvec where "uvec = endDistributeValues vpn (depNodes tacs) uvec_in"
  define uderiv where
    "uderiv = computeNodeDeriv3D ext forest tacs uvec weights (map (\<lambda>_. None) (procs tacs))"
  define N where "N = getNum3dEnrich (interp_order forest) * vpn"
  define np where "np = length (procs tacs)"
  define P where "P = (\<lambda>p i.
          let (Xpts, vars, ubar) = stressElement ext forest rf (meshes ! p) vpn (procs tacs ! p)
                                     uvec uderiv i (uninit ext)
          in map (\<lambda>q.
               let ii = q mod nq;
                   jj = (q div nq) mod nq;
                   kk = q div (nq * nq);
                   pt = [gp ! ii, gp ! jj, gp ! kk];
                   (detJ, J, e) = evalStrain ext forest rf pt Xpts vars ubar
               in (failure (procs tacs ! p ! i) pt e, detJ, gw ! ii * gw ! jj * gw ! kk))
               [0..<nq * nq * nq])"
  define Q where "Q = (\<lambda>p. concat (map (P p) [0..<length (procs tacs ! p)]))"
  have Qeq: "ks_quadrature ext forest rf meshes tacs weights uvec_in = Q"
    unfolding ks_quadrature_def Q_def P_def Let_def g split_conv uvec_def uderiv_def vpn_def
    by (rule refl)
  define A where "A = (\<lambda>p.
           for_loop (length (procs tacs ! p)) (\<lambda>i (ubar, ks_max_fail).
             let elem = procs tacs ! p ! i;
                 (Xpts, vars, ubar) = stressElement ext forest rf (meshes ! p)
                                        vpn (procs tacs ! p) uvec uderiv i ubar
             in (ubar,
                 for_loop nq (\<lambda>kk. for_loop nq (\<lambda>jj. for_loop nq
                   (\<lambda>ii ks_max_fail.
                     let pt = [gp ! ii, gp ! jj, gp ! kk];
                         (detJ, J, e) = evalStrain ext forest rf pt Xpts vars ubar;
                         fval = failure elem pt e
                     in if fval > ks_max_fail then fval else ks_max_fail))) ks_max_fail))
             (uninit ext, - (10 ^ 20)))"
  define B where "B = (\<lambda>m u p.
           for_loop (length (procs tacs ! p)) (\<lambda>i (ubar, ks_fail_sum).
             let elem = procs tacs ! p ! i;
                 (Xpts, vars, ubar) = stressElement ext forest rf (meshes ! p)
                                        vpn (procs tacs ! p) uvec uderiv i ubar
             in (ubar,
                 for_loop nq (\<lambda>kk. for_loop nq (\<lambda>jj. for_loop nq
                   (\<lambda>ii ks_fail_sum.
                     let pt = [gp ! ii, gp ! jj, gp ! kk];
                         (detJ, J, e) = evalStrain ext forest rf pt Xpts vars ubar;
                         detJ = detJ * (gw ! ii * gw ! jj * gw ! kk);
                         fval = failure elem pt e
                     in ks_fail_sum + detJ * exp (k * (fval - m)))))
                   ks_fail_sum))
             (u, 0))"
  have A: "(\<forall>idx\<ge>N. fst (A p) idx = uninit ext idx) \<and>
           snd (A p) = fold max (map fst (Q p)) (- (10 ^ 20))" for p
    using ks_process_max[of forest vpn "uninit ext" ext "length (procs tacs ! p)" "procs tacs ! p"
        rf "meshes ! p" uvec uderiv nq gp "- (10 ^ 20)" gw]
    unfolding A_def Q_def P_def N_def by auto
  have B: "snd (B m (fst (A p)) p) =
           (\<Sum>(f, detJ, w)\<leftarrow>Q p. detJ * w * exp (k * (f - m)))" for p m
    using ks_process_sum[of forest vpn "fst (A p)" ext "length (procs tacs ! p)" "procs tacs ! p"
        rf "meshes ! p" uvec uderiv nq gp gw k m 0] A[of p]
    unfolding B_def Q_def P_def N_def by auto
  have s1: "map snd (map A [0..<np]) = map (\<lambda>p. fold max (map fst (Q p)) (- (10 ^ 20))) [0..<np]"
    using A by simp
  have s2: "map snd (map (\<lambda>p. B m (fst (map A [0..<np] ! p)) p) [0..<np]) =
            map (\<lambda>p. \<Sum>(f, detJ, w)\<leftarrow>Q p. detJ * w * exp (k * (f - m))) [0..<np]" for m
    using B by simp
  show ?thesis
    unfolding Qeq
    apply (simp only: evalConstraint_def Let_def g split_conv)
    apply (fold vpn_def)
    apply (fold uvec_def)
    apply (fold uderiv_def)
    apply (fold np_def)
    apply (fold A_def[unfolded Let_def split_conv])
    apply (simp only: s1 s2[unfolded B_def Let_def split_conv])
    done
qed

lemma for_loop_write3_at:
  fixes a0 :: rarr
  shows "for_loop M (\<lambda>q a. a(3 * q := V q 0, 3 * q + 1 := V q 1, 3 * q + 2 := V q 2)) a0 =
         (\<lambda>idx. if idx < 3 * M then V (idx div 3) (idx mod 3) else a0 idx)"
  using for_loop_write3[of M V a0]
    for_loop_counter3[of M "\<lambda>q d a. a(d := V q 0, d + 1 := V q 1, d + 2 := V q 2)" a0]
  by simp

lemma sum_nth_zip:
  fixes ws xs :: "real list"
  assumes "length ws = n" "length xs = n"
  shows "(\<Sum>i<n. ws ! i * xs ! i) = (\<Sum>(w, x)\<leftarrow>zip ws xs. w * x)"
proof -
  have "(\<Sum>(w, x)\<leftarrow>zip ws xs. w * x) =
        (\<Sum>i = 0..<length (zip ws xs). map (\<lambda>(w, x). w * x) (zip ws xs) ! i)"
    by (subst sum_list_sum_nth) simp
  also have "\<dots> = (\<Sum>i<n. ws ! i * xs ! i)"
    using assms by (intro sum.cong) (auto simp: atLeast0LessThan)
  finally show ?thesis by simp
qed

lemma evalStrain_constant:
  assumes s: "derivs_sum_to_zero forest
                (interp_order forest * interp_order forest * interp_order forest)"
  shows "snd (snd (evalStrain ext forest rf pt Xpts (\<lambda>_. c) (\<lambda>_. 0))) t =
         [0, 0, 0, 0, 0, 0] ! t"
proof -
  obtain N Na Nb Nc where f: "evalInterp forest pt = (N, Na, Nb, Nc)" by (metis prod_cases4)
  obtain N' Na' Nb' Nc' where r: "evalInterp rf pt = (N', Na', Nb', Nc')" by (metis prod_cases4)
  obtain Nr Nar Nbr Ncr where
    en: "evalEnrichment3D ext (interp_order forest) pt = (Nr, Nar, Nbr, Ncr)"
    by (metis prod_cases4)
  let ?M = "interp_order forest * interp_order forest * interp_order forest"
  let ?X = "(interp_order forest + 1) * (interp_order forest + 1) * (interp_order forest + 1)"
  define Xd where "Xd = for_loop ?X (\<lambda>i Xd. Xd
                (0 := Xd 0 + Na' ! i * Xpts (3 * i),
                 1 := Xd 1 + Nb' ! i * Xpts (3 * i),
                 2 := Xd 2 + Nc' ! i * Xpts (3 * i),
                 3 := Xd 3 + Na' ! i * Xpts (3 * i + 1),
                 4 := Xd 4 + Nb' ! i * Xpts (3 * i + 1),
                 5 := Xd 5 + Nc' ! i * Xpts (3 * i + 1),
                 6 := Xd 6 + Na' ! i * Xpts (3 * i + 2),
                 7 := Xd 7 + Nb' ! i * Xpts (3 * i + 2),
                 8 := Xd 8 + Nc' ! i * Xpts (3 * i + 2))) ((\<lambda>_. 0) :: rarr)"
  obtain detJ J where j: "jacobian3d ext Xd = (detJ, J)" by (cases "jacobian3d ext Xd")
  have z: "(\<Sum>i<?M. Na ! i) = 0" "(\<Sum>i<?M. Nb ! i) = 0" "(\<Sum>i<?M. Nc ! i) = 0"
    using s f unfolding derivs_sum_to_zero_def by (metis (mono_tags, lifting) case_prod_conv)+
  have zc: "(\<Sum>i<?M. Na ! i * c) = 0" "(\<Sum>i<?M. Nb ! i * c) = 0" "(\<Sum>i<?M. Nc ! i * c) = 0"
    using z by (simp_all flip: sum_distrib_right)
  have Ud: "for_loop (getNum3dEnrich (interp_order forest)) (\<lambda>i Ud. Ud
                (0 := Ud 0 + 0 * Nar ! i,
                 1 := Ud 1 + 0 * Nbr ! i,
                 2 := Ud 2 + 0 * Ncr ! i,
                 3 := Ud 3 + 0 * Nar ! i,
                 4 := Ud 4 + 0 * Nbr ! i,
                 5 := Ud 5 + 0 * Ncr ! i,
                 6 := Ud 6 + 0 * Nar ! i,
                 7 := Ud 7 + 0 * Nbr ! i,
                 8 := Ud 8 + 0 * Ncr ! i))
             (for_loop ?M (\<lambda>i Ud. Ud
                (0 := Ud 0 + Na ! i * c,
                 1 := Ud 1 + Nb ! i * c,
                 2 := Ud 2 + Nc ! i * c,
                 3 := Ud 3 + Na ! i * c,
                 4 := Ud 4 + Nb ! i * c,
                 5 := Ud 5 + Nc ! i * c,
                 6 := Ud 6 + Na ! i * c,
                 7 := Ud 7 + Nb ! i * c,
                 8 := Ud 8 + Nc ! i * c)) ((\<lambda>_. 0) :: rarr)) = (\<lambda>_. 0)"
    unfolding for_loop_accum9 zc by (simp add: fun_eq_iff)
  show ?thesis
    unfolding evalStrain_def Let_def f r split_conv Xd_def[symmetric] j en Ud
    by (simp add: nth_Cons')
qed

lemma evalStrain_detJ:
  fixes forest ext rf pt Xpts vars ubar
  defines "n \<equiv> (interp_order forest + 1) * (interp_order forest + 1) * (interp_order forest + 1)"
  shows "fst (evalStrain ext forest rf pt Xpts vars ubar) =
   (case evalInterp rf pt of (N, Na, Nb, Nc) \<Rightarrow>
      fst (jacobian3d ext ((\<lambda>_. 0)
        (0 := \<Sum>i<n. Na ! i * Xpts (3 * i),
         1 := \<Sum>i<n. Nb ! i * Xpts (3 * i),
         2 := \<Sum>i<n. Nc ! i * Xpts (3 * i),
         3 := \<Sum>i<n. Na ! i * Xpts (3 * i + 1),
         4 := \<Sum>i<n. Nb ! i * Xpts (3 * i + 1),
         5 := \<Sum>i<n. Nc ! i * Xpts (3 * i + 1),
         6 := \<Sum>i<n. Na ! i * Xpts (3 * i + 2),
         7 := \<Sum>i<n. Nb ! i * Xpts (3 * i + 2),
         8 := \<Sum>i<n. Nc ! i * Xpts (3 * i + 2)))))"
proof -
  obtain N Na Nb Nc where f: "evalInterp forest pt = (N, Na, Nb, Nc)" by (metis prod_cases4)
  obtain N' Na' Nb' Nc' where r: "evalInterp rf pt = (N', Na', Nb', Nc')" by (metis prod_cases4)
  obtain Nr Nar Nbr Ncr where
    en: "evalEnrichment3D ext (interp_order forest) pt = (Nr, Nar, Nbr, Ncr)"
    by (metis prod_cases4)
  define Xd where "Xd = for_loop n (\<lambda>i Xd. Xd
                (0 := Xd 0 + Na' ! i * Xpts (3 * i),
                 1 := Xd 1 + Nb' ! i * Xpts (3 * i),
                 2 := Xd 2 + Nc' ! i * Xpts (3 * i),
                 3 := Xd 3 + Na' ! i * Xpts (3 * i + 1),
                 4 := Xd 4 + Nb' ! i * Xpts (3 * i + 1),
                 5 := Xd 5 + Nc' ! i * Xpts (3 * i + 1),
                 6 := Xd 6 + Na' ! i * Xpts (3 * i + 2),
                 7 := Xd 7 + Nb' ! i * Xpts (3 * i + 2),
                 8 := Xd 8 + Nc' ! i * Xpts (3 * i + 2))) ((\<lambda>_. 0) :: rarr)"
  obtain detJ J where j: "jacobian3d ext Xd = (detJ, J)" by (cases "jacobian3d ext Xd")
  have c: "Xd = (\<lambda>_. 0)
        (0 := \<Sum>i<n. Na' ! i * Xpts (3 * i),
         1 := \<Sum>i<n. Nb' ! i * Xpts (3 * i),
         2 := \<Sum>i<n. Nc' ! i * Xpts (3 * i),
         3 := \<Sum>i<n. Na' ! i * Xpts (3 * i + 1),
         4 := \<Sum>i<n. Nb' ! i * Xpts (3 * i + 1),
         5 := \<Sum>i<n. Nc' ! i * Xpts (3 * i + 1),
         6 := \<Sum>i<n. Na' ! i * Xpts (3 * i + 2),
         7 := \<Sum>i<n. Nb' ! i * Xpts (3 * i + 2),
         8 := \<Sum>i<n. Nc' ! i * Xpts (3 * i + 2))"
    unfolding Xd_def for_loop_accum9 by simp
  have "fst (evalStrain ext forest rf pt Xpts vars ubar) = detJ"
    unfolding evalStrain_def Let_def f r split_conv n_def[symmetric] Xd_def[symmetric] j en
    by simp
  also have "detJ = fst (jacobian3d ext Xd)" by (simp add: j)
  finally show ?thesis unfolding r split_conv c .
qed

lemma interp3_origin:
  "evalInterp example_refined_forest [0, 0, 0] =
    ([0, 0, 0, 0, 0, 0, 0, 0, 0, 0, 0, 0, 0, 1, 0, 0, 0, 0, 0, 0, 0, 0, 0, 0, 0, 0, 0],
     [0, 0, 0, 0, 0, 0, 0, 0, 0, 0, 0, 0, - (1 / 2), 0, 1 / 2, 0, 0, 0, 0, 0, 0, 0, 0, 0, 0, 0, 0],
     [0, 0, 0, 0, 0, 0, 0, 0, 0, 0, - (1 / 2), 0, 0, 0, 0, 0, 1 / 2, 0, 0, 0, 0, 0, 0, 0, 0, 0, 0],
     [0, 0, 0, 0, - (1 / 2), 0, 0, 0, 0, 0, 0, 0, 0, 0, 0, 0, 0, 0, 0, 0, 0, 0, 1 / 2, 0, 0, 0, 0])"
  by (simp add: example_refined_forest_def evalInterp_order3_def lagrange3_def dlagrange3_def)

lemma cube_mesh_coordinate:
  assumes "i < 27" "c < 3"
  shows "cube_Xpts s (3 * i + c) = map (\<lambda>(x, y, z). [x, y, z] ! c) (getPoints (cube_mesh s)) ! i"
proof -
  have "3 * i + c < 81" "(3 * i + c) div 3 = i" "(3 * i + c) mod 3 = c"
    using assms by simp_all
  moreover have "length (getPoints (cube_mesh s)) = 27" by (simp add: cube_mesh_def)
  ultimately show ?thesis using assms(1) unfolding cube_Xpts_def by simp
qed

lemma cube_mesh_sum:
  assumes "length ws = 27" "c < 3"
  shows "(\<Sum>i<27. ws ! i * cube_Xpts s (3 * i + c)) =
         (\<Sum>(w, x)\<leftarrow>zip ws (map (\<lambda>(x, y, z). [x, y, z] ! c) (getPoints (cube_mesh s))). w * x)"
proof -
  have "(\<Sum>i<27. ws ! i * cube_Xpts s (3 * i + c)) =
        (\<Sum>i<27. ws ! i * map (\<lambda>(x, y, z). [x, y, z] ! c) (getPoints (cube_mesh s)) ! i)"
    by (rule sum.cong[OF refl]) (simp only: cube_mesh_coordinate[OF _ assms(2)] lessThan_iff)
  also have "\<dots> = (\<Sum>(w, x)\<leftarrow>zip ws (map (\<lambda>(x, y, z). [x, y, z] ! c) (getPoints (cube_mesh s))). w * x)"
    by (rule sum_nth_zip) (simp_all add: assms cube_mesh_def)
  finally show ?thesis .
qed

lemma cube_mesh_sums:
  assumes "length ws = 27"
  shows "(\<Sum>i<27. ws ! i * cube_Xpts s (3 * i)) =
         (\<Sum>(w, x)\<leftarrow>zip ws (map (\<lambda>(x, y, z). x) (getPoints (cube_mesh s))). w * x)"
    and "(\<Sum>i<27. ws ! i * cube_Xpts s (3 * i + 1)) =
         (\<Sum>(w, x)\<leftarrow>zip ws (map (\<lambda>(x, y, z). y) (getPoints (cube_mesh s))). w * x)"
    and "(\<Sum>i<27. ws ! i * cube_Xpts s (3 * i + 2)) =
         (\<Sum>(w, x)\<leftarrow>zip ws (map (\<lambda>(x, y, z). z) (getPoints (cube_mesh s))). w * x)"
  using cube_mesh_sum[OF assms, of 0 s] cube_mesh_sum[OF assms, of 1 s]
    cube_mesh_sum[OF assms, of 2 s]
  by simp_all

lemma ks_example_detJ:
  "fst (evalStrain example_ext example_forest example_refined_forest [0, 0, 0]
     (cube_Xpts s) vars ubar) = s / 8"
proof -
  have o: "(interp_order example_forest + 1) * (interp_order example_forest + 1) *
           (interp_order example_forest + 1) = 27"
    by (simp add: example_forest_def)
  have pts: "getPoints (cube_mesh s) =
      [(s * i / 2, j / 2, k / 2). k \<leftarrow> [0, 1, 2], j \<leftarrow> [0, 1, 2], i \<leftarrow> [0, 1, 2]]"
    by (simp add: cube_mesh_def)
  show ?thesis
    unfolding evalStrain_detJ interp3_origin split_conv o
    apply (subst cube_mesh_sums, simp)+
    apply (simp add: pts example_ext_def jacobian3d_exact_def)
    done
qed

lemma ks_tacs_eq: "ks_tacs = ks_tacs_with (failure ks_element)"
  by (simp add: ks_tacs_def ks_tacs_with_def)

lemma ks_example_uderiv:
  "computeNodeDeriv3D example_ext example_forest (ks_tacs_with F) (constant_field c) weights
     [None] = zeroEntries"
  by (rule computeNodeDeriv3D_constant)
     (use example_forest_derivs in \<open>simp_all add: example_forest_def ks_tacs_with_def
        ks_element_def loop_elements_def\<close>)

lemma ks_example_ubar:
  "computeElemRecon3D example_ext 3 example_forest rf Xpts (\<lambda>_. c) (\<lambda>_. 0) (\<lambda>_. 0) tmp = (\<lambda>_. 0)"
proof
  fix idx :: nat
  show "computeElemRecon3D example_ext 3 example_forest rf Xpts (\<lambda>_. c) (\<lambda>_. 0) (\<lambda>_. 0) tmp idx = 0"
  proof (cases "idx < getNum3dEnrich (interp_order example_forest) * 3")
    case True
    then have i: "idx div 3 < getNum3dEnrich (interp_order example_forest)" by simp
    have j: "idx mod 3 < 3" by simp
    have "computeElemRecon3D example_ext 3 example_forest rf Xpts (\<lambda>_. c) (\<lambda>_. 0) (\<lambda>_. 0) tmp
            (3 * (idx div 3) + idx mod 3) = 0"
      by (rule computeElemRecon3D_constant[OF _ example_ext_solver _ _ _ i j, where c = c])
         (use example_forest_derivs in \<open>simp_all add: example_forest_def\<close>)
    then show ?thesis by simp
  next
    case False
    then show ?thesis by (simp add: computeElemRecon3D_beyond)
  qed
qed

lemma ks_example_element:
  "stressElement example_ext example_forest example_refined_forest (cube_mesh s) 3
     [ks_element\<lparr>failure := F\<rparr>]
     (constant_field c) zeroEntries 0 (\<lambda>_. 0) = (cube_Xpts s, \<lambda>_. c, \<lambda>_. 0)"
proof -
  have gv: "getValues 3 (constant_field c) nodes = (\<lambda>_. c)"
           "getValues (3 * 3) zeroEntries nodes = (\<lambda>_. 0)" for nodes
    by (simp_all add: fun_eq_iff)
  have o: "interp_order example_forest = 2" by (simp add: example_forest_def)
  have conn: "getNodeConn (cube_mesh s) ! j = j" if "j < 27" for j
    using that by (simp add: cube_mesh_def)
  have loc: "getLocalNodeNumber (cube_mesh s) = (\<lambda>c. c)" by (simp add: cube_mesh_def)
  have X: "for_loop ((2 + 1) * (2 + 1) * (2 + 1)) (\<lambda>j Xpts.
                  case getPoints (cube_mesh s) ! getLocalNodeNumber (cube_mesh s)
                         (getNodeConn (cube_mesh s) ! ((2 + 1) * (2 + 1) * (2 + 1) * 0 + j)) of
                    (x, y, z) \<Rightarrow> Xpts(3 * j := x, 3 * j + 1 := y, 3 * j + 2 := z))
             ((!) (el_Xpts ks_element)) = cube_Xpts s"
  proof -
    have "for_loop ((2 + 1) * (2 + 1) * (2 + 1)) (\<lambda>j Xpts.
                  case getPoints (cube_mesh s) ! getLocalNodeNumber (cube_mesh s)
                         (getNodeConn (cube_mesh s) ! ((2 + 1) * (2 + 1) * (2 + 1) * 0 + j)) of
                    (x, y, z) \<Rightarrow> Xpts(3 * j := x, 3 * j + 1 := y, 3 * j + 2 := z))
             ((!) (el_Xpts ks_element)) =
          for_loop ((2 + 1) * (2 + 1) * (2 + 1)) (\<lambda>j Xpts. Xpts
                  (3 * j := case getPoints (cube_mesh s) ! j of (x, y, z) \<Rightarrow> [x, y, z] ! 0,
                   3 * j + 1 := case getPoints (cube_mesh s) ! j of (x, y, z) \<Rightarrow> [x, y, z] ! 1,
                   3 * j + 2 := case getPoints (cube_mesh s) ! j of (x, y, z) \<Rightarrow> [x, y, z] ! 2))
             ((!) (el_Xpts ks_element))"
      by (rule for_loop_cong) (simp add: conn loc split_def)
    also have "\<dots> = cube_Xpts s"
      using for_loop_write3_at[of "(2 + 1) * (2 + 1) * (2 + 1)"
          "\<lambda>j t. case getPoints (cube_mesh s) ! j of (x, y, z) \<Rightarrow> [x, y, z] ! t"
          "(!) (el_Xpts ks_element)"]
      unfolding cube_Xpts_def by simp
    finally show ?thesis .
  qed
  have un: "uninit example_ext = (\<lambda>_. 0)" by (simp add: example_ext_def)
  have sel: "el_nodes (ks_element\<lparr>failure := F\<rparr>) = el_nodes ks_element"
            "el_Xpts (ks_element\<lparr>failure := F\<rparr>) = el_Xpts ks_element"
    by simp_all
  show ?thesis
    unfolding stressElement_def Let_def o nth_Cons_0 sel X gv split_conv un ks_example_ubar
    by simp
qed

lemma ks_example_quadrature:
  "ks_quadrature example_ext example_forest example_refined_forest [cube_mesh s]
     (ks_tacs_with F) weights (constant_field c) 0 =
   [(F [0, 0, 0] ((!) [0, 0, 0, 0, 0, 0]), s / 8, 8)]"
proof -
  have u: "endDistributeValues 3 [] (constant_field c) = constant_field c"
    by (simp add: endDistributeValues_def)
  have t: "varsPerNode (ks_tacs_with F) = 3" "depNodes (ks_tacs_with F) = []"
    "procs (ks_tacs_with F) = [[ks_element\<lparr>failure := F\<rparr>]]"
    by (simp_all add: ks_tacs_with_def)
  have g: "getGaussPtsWts example_ext (interp_order example_forest + 1) = (1, [0], [2])"
    by (simp add: example_ext_def)
  have u0: "uninit example_ext = (\<lambda>_. 0)" by (simp add: example_ext_def)
  have d: "computeNodeDeriv3D example_ext example_forest (ks_tacs_with F) (constant_field c)
             weights (map (\<lambda>_. None) [[ks_element\<lparr>failure := F\<rparr>]]) = zeroEntries"
    using ks_example_uderiv[of F c weights] by simp
  have e0: "snd (snd (evalStrain example_ext example_forest example_refined_forest [0, 0, 0]
                  (cube_Xpts s) (\<lambda>_. c) (\<lambda>_. 0))) = (!) [0, 0, 0, 0, 0, 0]"
    using evalStrain_constant[of example_forest example_ext example_refined_forest "[0, 0, 0]"
        "cube_Xpts s" c] example_forest_derivs
    by (simp add: example_forest_def fun_eq_iff)
  show ?thesis
    unfolding ks_quadrature_def Let_def t u g split_conv d
    by (simp add: u0 ks_example_element split_def ks_example_detJ e0)
qed

lemma MPI_Allreduce_SUM_sum_list: "MPI_Allreduce_SUM xs = sum_list xs"
proof -
  have "fold (\<lambda>a s. s + a) xs s0 = s0 + sum_list xs" for s0 :: real
    by (induction xs arbitrary: s0) simp_all
  then show ?thesis by (simp add: MPI_Allreduce_SUM_def)
qed


lemma sum_list_map_concat:
  fixes g :: "'a \<Rightarrow> real"
  shows "sum_list (map g (concat xss)) = sum_list (map (\<lambda>xs. sum_list (map g xs)) xss)"
  by (induction xss) simp_all


lemma sum_list_split_sign:
  fixes g :: "real \<times> real \<times> real \<Rightarrow> real"
  shows "sum_list (map g xs) =
         sum_list (map g (filter (\<lambda>(f, detJ, w). 0 < detJ) xs)) +
         sum_list (map g (filter (\<lambda>(f, detJ, w). detJ \<le> 0) xs))"
  by (induction xs) (auto simp: split_def)





text \<open>
  Claim C8 says that a quadrature point with a Jacobian determinant \<open>detJ \<le> 0\<close> is
  skipped. On the cube mirrored in the first coordinate the determinant at the
  quadrature point is \<open>-1/8\<close>, and \<^verbatim>\<open>evalConstraint\<close> sets \<open>ks_fail_sum\<close> to \<open>-1\<close>: the
  term of that point is added, and the logarithm of the sum is not a real number.
\<close>

theorem evalConstraint_degenerate_counterexample:
  "ks_quadrature example_ext example_forest example_refined_forest [cube_mesh (- 1)] ks_tacs
     unit_weights (constant_field 5) 0 = [(2, - 1 / 8, 8)] \<and>
   evalConstraint example_ext example_forest example_refined_forest [cube_mesh (- 1)]
     ks_tacs 1 unit_weights (constant_field 5) = (None, 2, - 1)"
proof -
  have l: "length (procs ks_tacs) = 1" by (simp add: ks_tacs_def)
  have q: "ks_quadrature example_ext example_forest example_refined_forest [cube_mesh (- 1)]
             ks_tacs unit_weights (constant_field 5) 0 = [(2, - 1 / 8, 8)]"
    using ks_example_quadrature[where F = "failure ks_element" and s = "- 1"
        and weights = unit_weights and c = 5, folded ks_tacs_eq]
    by (simp add: ks_element_def)
  show ?thesis
    unfolding evalConstraint_closed l Let_def
    by (simp add: q MPI_Allreduce_MAX_def MPI_Allreduce_SUM_def flog_def)
qed

text \<open>
  Claim C8, amended. \<^verbatim>\<open>evalConstraint\<close> has no test on the determinant: the sum
  \<open>ks_fail_sum\<close> that it sets is the sum of \<open>detJ w exp(ks_weight (f - ks_max_fail))\<close>
  over the quadrature points with a positive determinant plus the same sum over the
  points with \<open>detJ \<le> 0\<close>.
\<close>

theorem evalConstraint_sums_every_point:
  "(case evalConstraint ext forest interp_forest meshes tacs ks_weight weights uvec of
      (ks_func_val, ks_max_fail, ks_fail_sum) \<Rightarrow>
        let pts = concat (map (ks_quadrature ext forest interp_forest meshes tacs weights uvec)
                    [0..<length (procs tacs)])
        in ks_fail_sum =
           (\<Sum>(f, detJ, w)\<leftarrow>filter (\<lambda>(f, detJ, w). 0 < detJ) pts.
               detJ * w * exp (ks_weight * (f - ks_max_fail))) +
           (\<Sum>(f, detJ, w)\<leftarrow>filter (\<lambda>(f, detJ, w). detJ \<le> 0) pts.
               detJ * w * exp (ks_weight * (f - ks_max_fail))))"
  unfolding evalConstraint_closed Let_def split_conv MPI_Allreduce_SUM_sum_list
  by (subst sum_list_split_sign[symmetric]) (simp add: sum_list_map_concat comp_def)

end
